(* ===== verification/Prelude.thy ===== *)
theory Prelude
  imports Main "HOL-Library.Word" "HOL-Library.AList" "HOL-Library.Code_Target_Nat"
begin

text \<open>
  Shared vocabulary of the development: the machine integer types of the Rust
  source, byte buffers in network order, the Result type and its question-mark
  operator, and the generic list and association-list lemmas that several
  components use. Machine integers are HOL words of the source's width.
\<close>

unbundle bit_operations_syntax

named_theorems rust_simps \<open>unfolding rules for the modelled standard-library functions\<close>

subsection \<open>Types\<close>

type_synonym u8 = "8 word"
type_synonym u16 = "16 word"
type_synonym u32 = "32 word"
type_synonym u64 = "64 word"
type_synonym u128 = "128 word"
type_synonym bytes = "u8 list"

text \<open>
  Results carry the error on the left. The function \<open>try_bind\<close> is the
  question-mark operator: the first error ends the computation.
\<close>

type_synonym ('e, 'a) result = "'e + 'a"

definition try_bind :: "('e, 'a) result \<Rightarrow> ('a \<Rightarrow> ('e, 'b) result) \<Rightarrow> ('e, 'b) result" where
  "try_bind r f = (case r of Inl e \<Rightarrow> Inl e | Inr x \<Rightarrow> f x)"

definition ok_or :: "'e \<Rightarrow> 'a option \<Rightarrow> ('e, 'a) result" where
  "ok_or e x = (case x of None \<Rightarrow> Inl e | Some v \<Rightarrow> Inr v)"

definition is_ok :: "('e, 'a) result \<Rightarrow> bool" where
  "is_ok r = (case r of Inl _ \<Rightarrow> False | Inr _ \<Rightarrow> True)"

definition unwrap_or :: "'a \<Rightarrow> 'a option \<Rightarrow> 'a" where
  "unwrap_or d x = (case x of None \<Rightarrow> d | Some v \<Rightarrow> v)"

subsection \<open>Network byte order\<close>

text \<open>
  \<open>be_nat\<close> reads a buffer as a big-endian number (\<open>from_be_bytes\<close>),
  \<open>be_bytes n\<close> writes the low \<open>n\<close> bytes of a number (\<open>to_be_bytes\<close>).
\<close>

definition be_nat :: "bytes \<Rightarrow> nat" where
  "be_nat bs = foldl (\<lambda>a b. a * 256 + unat b) 0 bs"

fun be_bytes :: "nat \<Rightarrow> nat \<Rightarrow> bytes" where
  "be_bytes 0 v = []"
| "be_bytes (Suc n) v = be_bytes n (v div 256) @ [of_nat v]"

definition u16_from_be_bytes :: "u8 \<Rightarrow> u8 \<Rightarrow> u16" where
  "u16_from_be_bytes a b = of_nat (be_nat [a, b])"

definition u16_to_be_bytes :: "u16 \<Rightarrow> bytes" where
  "u16_to_be_bytes w = be_bytes 2 (unat w)"

subsection \<open>Lemmas on results\<close>

lemma try_bind_simps [simp, rust_simps]:
  "try_bind (Inl e) f = Inl e"
  "try_bind (Inr x) f = f x"
  by (simp_all add: try_bind_def)

lemma try_bind_Inr_iff: "try_bind r f = Inr y \<longleftrightarrow> (\<exists>x. r = Inr x \<and> f x = Inr y)"
  by (cases r) simp_all

lemma ok_or_simps [simp, rust_simps]:
  "ok_or e None = Inl e"
  "ok_or e (Some v) = Inr v"
  by (simp_all add: ok_or_def)

lemma is_ok_simps [simp, rust_simps]:
  "is_ok (Inl e) = False"
  "is_ok (Inr v) = True"
  by (simp_all add: is_ok_def)

lemma unwrap_or_simps [simp, rust_simps]:
  "unwrap_or d None = d"
  "unwrap_or d (Some v) = v"
  by (simp_all add: unwrap_or_def)

subsection \<open>Lemmas on byte order\<close>

lemma be_nat_Nil [simp]: "be_nat [] = 0"
  by (simp add: be_nat_def)

lemma be_nat_snoc [simp]: "be_nat (bs @ [b]) = be_nat bs * 256 + unat b"
  by (simp add: be_nat_def)

lemma unat_u8_less [simp]: "unat (b :: u8) < 256"
  using unsigned_less [of b] by simp

lemma unat_u16_less: "unat (w :: u16) < 65536"
  by (rule order_less_le_trans [OF unsigned_less]) simp

lemma of_nat_u8_low: "(of_nat (n * 256 + unat b) :: u8) = b"
proof -
  have "unat (of_nat (n * 256 + unat b) :: u8) = unat b"
    by (simp only: unat_of_nat) simp
  then show ?thesis by (simp only: word_unat_eq_iff)
qed

lemma length_be_bytes [simp]: "length (be_bytes n v) = n"
  by (induction n arbitrary: v) simp_all

lemma be_nat_bound: "be_nat bs < 256 ^ length bs"
proof (induction bs rule: rev_induct)
  case Nil
  show ?case by simp
next
  case (snoc b bs)
  have "unat b < 256" by (rule unat_u8_less)
  moreover have "be_nat bs * 256 + 256 \<le> 256 ^ length bs * 256"
    using snoc.IH by simp
  ultimately show ?case by (simp del: unat_u8_less)
qed

lemma be_nat_be_bytes: "be_nat (be_bytes n v) = v mod 256 ^ n"
proof (induction n arbitrary: v)
  case 0
  show ?case by simp
next
  case (Suc n)
  have "be_nat (be_bytes (Suc n) v) = (v div 256 mod 256 ^ n) * 256 + v mod 256"
    by (simp add: Suc.IH unat_of_nat)
  also have "\<dots> = v mod (256 * 256 ^ n)"
    by (simp add: mod_mult2_eq)
  finally show ?case by simp
qed

lemma be_bytes_be_nat: "be_bytes (length bs) (be_nat bs) = bs"
proof (induction bs rule: rev_induct)
  case Nil
  show ?case by simp
next
  case (snoc b bs)
  have "(be_nat bs * 256 + unat b) div 256 = be_nat bs" by simp
  moreover have "(of_nat (be_nat bs * 256 + unat b) :: u8) = b"
    by (rule of_nat_u8_low)
  ultimately show ?case using snoc.IH by simp
qed

lemma be_bytes_mod: "be_bytes n (v mod 256 ^ n) = be_bytes n v"
  by (metis be_bytes_be_nat be_nat_be_bytes length_be_bytes)

lemma u16_be_roundtrip: "u16_to_be_bytes (u16_from_be_bytes a b) = [a, b]"
proof -
  have bound: "be_nat [a, b] < 65536"
    using be_nat_bound [of "[a, b]"] by simp
  have "be_bytes 2 (be_nat [a, b]) = [a, b]"
    using be_bytes_be_nat [of "[a, b]"] by (simp add: numeral_2_eq_2)
  with bound show ?thesis
    by (simp add: u16_to_be_bytes_def u16_from_be_bytes_def unat_of_nat)
qed

lemma u16_to_be_bytes_inverse:
  "u16_to_be_bytes w = [a, b] \<Longrightarrow> u16_from_be_bytes a b = w"
proof -
  assume "u16_to_be_bytes w = [a, b]"
  then have "be_nat [a, b] = unat w mod 256 ^ 2"
    using be_nat_be_bytes [of 2 "unat w"] by (simp add: u16_to_be_bytes_def)
  also have "\<dots> = unat w"
    by (simp add: unat_u16_less)
  finally show ?thesis by (simp add: u16_from_be_bytes_def)
qed

lemma length_u16_to_be_bytes [simp]: "length (u16_to_be_bytes w) = 2"
  by (simp add: u16_to_be_bytes_def)

lemma u16_bytes_cases:
  obtains a b where "u16_to_be_bytes w = [a, b]" "u16_from_be_bytes a b = w"
proof -
  have "length (u16_to_be_bytes w) = 2" by (simp add: u16_to_be_bytes_def)
  then obtain a b where ab: "u16_to_be_bytes w = [a, b]"
    by (metis length_0_conv length_Suc_conv numeral_2_eq_2)
  then show ?thesis using that u16_to_be_bytes_inverse by blast
qed

subsection \<open>Lemmas on lists and association lists\<close>

lemma takeWhile_append_stop: "(\<And>x. x \<in> set xs \<Longrightarrow> P x) \<Longrightarrow> \<not> P y \<Longrightarrow> takeWhile P (xs @ y # ys) = xs"
  by (induction xs) simp_all

lemma dropWhile_append_stop: "(\<And>x. x \<in> set xs \<Longrightarrow> P x) \<Longrightarrow> \<not> P y \<Longrightarrow> dropWhile P (xs @ y # ys) = y # ys"
  by (induction xs) simp_all

lemma length_le_distinct_set:
  "distinct xs \<Longrightarrow> distinct ys \<Longrightarrow> set xs = set ys \<Longrightarrow> length xs = length ys"
  by (metis distinct_card)

lemma map_fst_AList_update:
  "map fst (AList.update k v al) = (if k \<in> fst ` set al then map fst al else map fst al @ [k])"
  by (induction al) auto

lemma map_fst_AList_delete: "map fst (AList.delete k al) = filter (\<lambda>x. x \<noteq> k) (map fst al)"
  by (induction al) (auto simp: AList.delete_eq)

lemma set_fst_AList_delete: "fst ` set (AList.delete k al) = fst ` set al - {k}"
  by (auto simp: AList.delete_eq)

lemma filter_id_notin: "k \<notin> set xs \<Longrightarrow> filter (\<lambda>x. x \<noteq> k) xs = xs"
  by (induction xs) auto

lemma distinct_filter_length:
  "distinct xs \<Longrightarrow> k \<in> set xs \<Longrightarrow> Suc (length (filter (\<lambda>x. x \<noteq> k) xs)) = length xs"
  by (induction xs) (auto simp: filter_id_notin)

end
