(* ===== verification/RustText.thy ===== *)
theory RustText
  imports Prelude
begin

text \<open>
  The part of Rust's \<open>str\<close> and integer parsing that the source uses. A text is
  the list of its UTF-8 bytes, one \<open>char\<close> per byte, so that \<open>len\<close>, slicing,
  \<open>find\<close> and \<open>split\<close> on an ASCII separator work exactly as on \<open>str\<close>.
  White space is the Unicode property \<open>White_Space\<close>, recognised by its UTF-8
  sequences; case mapping is ASCII, as in \<open>to_ascii_lowercase\<close>.
\<close>

subsection \<open>Characters and digits\<close>

definition code :: "char \<Rightarrow> nat" where
  "code c = of_char c"

definition to_digit :: "nat \<Rightarrow> char \<Rightarrow> nat option" where
  "to_digit radix c =
     (let n = code c;
          v = (if 48 \<le> n \<and> n \<le> 57 then n - 48
               else if 97 \<le> n \<and> n \<le> 122 then n - 87
               else if 65 \<le> n \<and> n \<le> 90 then n - 55
               else radix)
      in if v < radix then Some v else None)"

definition is_digit :: "nat \<Rightarrow> char \<Rightarrow> bool" where
  "is_digit radix c = (to_digit radix c \<noteq> None)"

definition digits_val :: "nat \<Rightarrow> string \<Rightarrow> nat" where
  "digits_val radix s = foldl (\<lambda>a c. a * radix + unwrap_or 0 (to_digit radix c)) 0 s"

definition digit_char :: "nat \<Rightarrow> char" where
  "digit_char d = (if d < 10 then char_of (48 + d) else char_of (87 + d))"

text \<open>Formatting of an unsigned integer in a radix (\<open>{}\<close> and \<open>{:x}\<close>).\<close>

function show_radix :: "nat \<Rightarrow> nat \<Rightarrow> string" where
  "show_radix r n = (if r < 2 \<or> n < r then [digit_char n] else show_radix r (n div r) @ [digit_char (n mod r)])"
  by pat_completeness auto
termination
  by (relation "measure snd") auto

declare show_radix.simps [simp del]

abbreviation show_nat :: "nat \<Rightarrow> string" where
  "show_nat \<equiv> show_radix 10"

subsection \<open>Integer parsing\<close>

text \<open>
  \<open>FromStr\<close> of the unsigned integers: an optional plus sign, then at least one
  decimal digit and nothing else; a value above the maximum is an error.
\<close>

definition strip_plus :: "string \<Rightarrow> string" where
  "strip_plus s = (case s of [] \<Rightarrow> [] | c # r \<Rightarrow> if c = CHR ''+'' then r else s)"

definition parse_uint :: "nat \<Rightarrow> string \<Rightarrow> nat option" where
  "parse_uint bound s =
     (let t = strip_plus s
      in if t = [] \<or> \<not> list_all (is_digit 10) t then None
         else if digits_val 10 t \<le> bound then Some (digits_val 10 t) else None)"

definition parse_u8 :: "string \<Rightarrow> u8 option" where
  "parse_u8 s = map_option of_nat (parse_uint 255 s)"

definition parse_u16 :: "string \<Rightarrow> u16 option" where
  "parse_u16 s = map_option of_nat (parse_uint 65535 s)"

definition parse_u32 :: "string \<Rightarrow> u32 option" where
  "parse_u32 s = map_option of_nat (parse_uint 4294967295 s)"

definition parse_i32 :: "string \<Rightarrow> int option" where
  "parse_i32 s =
     (case s of
        [] \<Rightarrow> None
      | c # r \<Rightarrow>
          if c = CHR ''-'' then
            (if r = [] \<or> \<not> list_all (is_digit 10) r then None
             else if digits_val 10 r \<le> 2147483648 then Some (- int (digits_val 10 r)) else None)
          else map_option int (parse_uint 2147483647 s))"

subsection \<open>Slicing and splitting\<close>

fun split_on :: "char \<Rightarrow> string \<Rightarrow> string list" where
  "split_on c [] = [[]]"
| "split_on c (x # xs) =
     (if x = c then [] # split_on c xs
      else (case split_on c xs of [] \<Rightarrow> [[x]] | y # ys \<Rightarrow> (x # y) # ys))"

fun split_once :: "char \<Rightarrow> string \<Rightarrow> (string \<times> string) option" where
  "split_once c [] = None"
| "split_once c (x # xs) =
     (if x = c then Some ([], xs)
      else map_option (\<lambda>(a, b). (x # a, b)) (split_once c xs))"

definition starts_with :: "string \<Rightarrow> string \<Rightarrow> bool" where
  "starts_with p s = (take (length p) s = p)"

definition strip_prefix :: "string \<Rightarrow> string \<Rightarrow> string option" where
  "strip_prefix p s = (if starts_with p s then Some (drop (length p) s) else None)"

definition ends_with :: "string \<Rightarrow> string \<Rightarrow> bool" where
  "ends_with p s = (length p \<le> length s \<and> drop (length s - length p) s = p)"

definition strip_suffix :: "string \<Rightarrow> string \<Rightarrow> string option" where
  "strip_suffix p s = (if ends_with p s then Some (take (length s - length p) s) else None)"

definition trim_end_matches :: "char \<Rightarrow> string \<Rightarrow> string" where
  "trim_end_matches c s = rev (dropWhile (\<lambda>x. x = c) (rev s))"

definition trim_matches :: "char \<Rightarrow> string \<Rightarrow> string" where
  "trim_matches c s = trim_end_matches c (dropWhile (\<lambda>x. x = c) s)"

definition lower_char :: "char \<Rightarrow> char" where
  "lower_char c = (if 65 \<le> code c \<and> code c \<le> 90 then char_of (code c + 32) else c)"

definition to_ascii_lowercase :: "string \<Rightarrow> string" where
  "to_ascii_lowercase s = map lower_char s"

definition upper_char :: "char \<Rightarrow> char" where
  "upper_char c = (if 97 \<le> code c \<and> code c \<le> 122 then char_of (code c - 32) else c)"

definition newline :: char where
  "newline = char_of (10 :: nat)"

definition carriage_return :: char where
  "carriage_return = char_of (13 :: nat)"

text \<open>A text between single quotes, as messages show it.\<close>

definition quoted :: "string \<Rightarrow> string" where
  "quoted s = [CHR 0x27] @ s @ [CHR 0x27]"

text \<open>
  \<open>str::lines\<close>: pieces end at a line feed, a carriage return before it belongs to
  the line end, and a final empty piece is not a line.
\<close>

definition strip_cr :: "string \<Rightarrow> string" where
  "strip_cr s = unwrap_or s (strip_suffix [carriage_return] s)"

definition lines :: "string \<Rightarrow> string list" where
  "lines s = (let ps = split_on newline s
              in map strip_cr (butlast ps) @ (if last ps = [] then [] else [last ps]))"

subsection \<open>White space\<close>

definition ws_sequences :: "nat list list" where
  "ws_sequences =
     [[9], [10], [11], [12], [13], [32], [194, 133], [194, 160], [225, 154, 128]]
     @ map (\<lambda>b. [226, 128, b]) ([128..<139] @ [168, 169, 175])
     @ [[226, 129, 159], [227, 128, 128]]"

definition leading_ws :: "string \<Rightarrow> nat" where
  "leading_ws s =
     (case find (\<lambda>w. take (length w) (map code s) = w) ws_sequences of
        None \<Rightarrow> 0 | Some w \<Rightarrow> length w)"

definition trailing_ws :: "string \<Rightarrow> nat" where
  "trailing_ws s =
     (case find (\<lambda>w. take (length w) (rev (map code s)) = rev w) ws_sequences of
        None \<Rightarrow> 0 | Some w \<Rightarrow> length w)"

function trim_start :: "string \<Rightarrow> string" where
  "trim_start s = (if s = [] \<or> leading_ws s = 0 then s else trim_start (drop (leading_ws s) s))"
  by pat_completeness auto
termination
  by (relation "measure length") auto

function trim_end :: "string \<Rightarrow> string" where
  "trim_end s = (if s = [] \<or> trailing_ws s = 0 then s else trim_end (take (length s - trailing_ws s) s))"
  by pat_completeness auto
termination
  by (relation "measure length") auto

declare trim_start.simps [simp del] trim_end.simps [simp del]

definition trim :: "string \<Rightarrow> string" where
  "trim s = trim_end (trim_start s)"

text \<open>\<open>str::split_whitespace\<close>; the second argument holds the current field, reversed.\<close>

function split_ws :: "string \<Rightarrow> string \<Rightarrow> string list" where
  "split_ws s cur =
     (if s = [] then (if cur = [] then [] else [rev cur])
      else if leading_ws s = 0 then split_ws (tl s) (hd s # cur)
      else if cur = [] then split_ws (drop (leading_ws s) s) []
      else rev cur # split_ws (drop (leading_ws s) s) [])"
  by pat_completeness auto
termination
  by (relation "measure (\<lambda>(s, cur). length s)") (auto simp: diff_less)

declare split_ws.simps [simp del]

definition split_whitespace :: "string \<Rightarrow> string list" where
  "split_whitespace s = split_ws s []"

subsection \<open>UTF-8 validation\<close>

definition is_cont :: "nat \<Rightarrow> bool" where
  "is_cont b = (128 \<le> b \<and> b \<le> 191)"

fun utf8_valid :: "nat list \<Rightarrow> bool" where
  "utf8_valid [] = True"
| "utf8_valid (a # s) =
     (if a < 128 then utf8_valid s
      else (case s of
        [] \<Rightarrow> False
      | b # s1 \<Rightarrow>
          (if 194 \<le> a \<and> a \<le> 223 then is_cont b \<and> utf8_valid s1
           else (case s1 of
             [] \<Rightarrow> False
           | c # s2 \<Rightarrow>
               (if 224 \<le> a \<and> a \<le> 239
                then (if a = 224 then 160 \<le> b \<and> b \<le> 191
                      else if a = 237 then 128 \<le> b \<and> b \<le> 159
                      else is_cont b) \<and> is_cont c \<and> utf8_valid s2
                else (case s2 of
                  [] \<Rightarrow> False
                | d # s3 \<Rightarrow>
                    240 \<le> a \<and> a \<le> 244
                    \<and> (if a = 240 then 144 \<le> b \<and> b \<le> 191
                       else if a = 244 then 128 \<le> b \<and> b \<le> 143
                       else is_cont b) \<and> is_cont c \<and> is_cont d \<and> utf8_valid s3))))))"

definition bytes_to_str :: "bytes \<Rightarrow> string" where
  "bytes_to_str bs = map (\<lambda>b. char_of (unat b)) bs"

definition str_to_bytes :: "string \<Rightarrow> bytes" where
  "str_to_bytes s = map (\<lambda>c. of_nat (code c)) s"

definition from_utf8 :: "bytes \<Rightarrow> string option" where
  "from_utf8 bs = (if utf8_valid (map unat bs) then Some (bytes_to_str bs) else None)"

subsection \<open>Numbers: printing and parsing agree\<close>

lemma code_char_of [simp]: "n < 256 \<Longrightarrow> code (char_of n) = n"
  by (simp add: code_def of_char_of)

lemma char_of_code [simp]: "char_of (code c) = c"
  by (simp add: code_def)

lemma code_less [simp]: "code c < 256"
  by (simp add: code_def)

lemma code_inject [simp]: "code a = code b \<longleftrightarrow> a = b"
  by (metis char_of_code)

lemma to_digit_digit_char:
  "d < radix \<Longrightarrow> radix \<le> 16 \<Longrightarrow> to_digit radix (digit_char d) = Some d"
  by (auto simp: to_digit_def digit_char_def Let_def)

lemma digits_val_snoc: "digits_val r (s @ [c]) = digits_val r s * r + unwrap_or 0 (to_digit r c)"
  by (simp add: digits_val_def)

lemma digits_val_show_radix: "2 \<le> r \<Longrightarrow> r \<le> 16 \<Longrightarrow> digits_val r (show_radix r n) = n"
proof (induction r n rule: show_radix.induct)
  case (1 r n)
  show ?case
  proof (cases "n < r")
    case True
    with 1(2,3) show ?thesis
      by (simp add: show_radix.simps [of r n] digits_val_def to_digit_digit_char)
  next
    case False
    with 1 show ?thesis
      by (simp add: show_radix.simps [of r n] digits_val_snoc to_digit_digit_char)
  qed
qed

lemma show_radix_digits: "2 \<le> r \<Longrightarrow> r \<le> 16 \<Longrightarrow> list_all (is_digit r) (show_radix r n)"
proof (induction r n rule: show_radix.induct)
  case (1 r n)
  then show ?case
    by (cases "n < r") (simp_all add: show_radix.simps [of r n] is_digit_def to_digit_digit_char)
qed

lemma show_radix_nonempty [simp]: "show_radix r n \<noteq> []"
  by (subst show_radix.simps) simp

lemma show_radix_length: "2 \<le> r \<Longrightarrow> n < r ^ Suc k \<Longrightarrow> length (show_radix r n) \<le> Suc k"
proof (induction r n arbitrary: k rule: show_radix.induct)
  case (1 r n)
  show ?case
  proof (cases "n < r")
    case True
    then show ?thesis by (simp add: show_radix.simps [of r n])
  next
    case False
    with "1.prems" obtain k' where k: "k = Suc k'" by (cases k) auto
    have "n div r < r ^ Suc k'"
      using "1.prems" by (simp add: k less_mult_imp_div_less mult.commute)
    with 1 False have "length (show_radix r (n div r)) \<le> Suc k'" by simp
    with False "1.prems" show ?thesis by (simp add: show_radix.simps [of r n] k)
  qed
qed

lemma show_radix_hd: "2 \<le> r \<Longrightarrow> r \<le> 16 \<Longrightarrow> 0 < n \<Longrightarrow> hd (show_radix r n) \<noteq> CHR ''0''"
proof (induction r n rule: show_radix.induct)
  case (1 r n)
  show ?case
  proof (cases "n < r")
    case True
    then have "to_digit r (digit_char n) = Some n"
      using "1.prems" by (simp add: to_digit_digit_char)
    moreover have "to_digit r (CHR ''0'') = Some 0"
      using "1.prems" by (simp add: to_digit_def code_def)
    ultimately have "digit_char n \<noteq> CHR ''0''"
      using "1.prems"(3) by auto
    with True show ?thesis by (simp add: show_radix.simps [of r n])
  next
    case False
    with "1.prems" have "0 < n div r" by (simp add: div_greater_zero_iff)
    with 1 False have "hd (show_radix r (n div r)) \<noteq> CHR ''0''" by simp
    with False "1.prems" show ?thesis by (simp add: show_radix.simps [of r n])
  qed
qed

subsection \<open>Splitting\<close>

lemma split_once_Some:
  "split_once c s = Some (a, b) \<Longrightarrow> s = a @ c # b \<and> c \<notin> set a"
  by (induction s arbitrary: a) (auto split: if_splits)

lemma split_once_None: "split_once c s = None \<longleftrightarrow> c \<notin> set s"
  by (induction s) auto

lemma split_on_cons: "c \<notin> set a \<Longrightarrow> split_on c (a @ c # b) = a # split_on c b"
  by (induction a) auto

lemma split_on_single: "c \<notin> set a \<Longrightarrow> split_on c a = [a]"
  by (induction a) auto

lemma split_on_nonempty [simp]: "split_on c s \<noteq> []"
  by (induction s) (auto split: list.split)

lemma split_on_length: "sum_list (map length (split_on c s)) + length (split_on c s) = Suc (length s)"
proof (induction s)
  case Nil
  then show ?case by simp
next
  case (Cons x s)
  then show ?case by (cases "split_on c s") auto
qed

subsection \<open>Reading back printed integers\<close>

lemma strip_plus_show: "strip_plus (show_nat n) = show_nat n"
proof (cases "show_nat n")
  case (Cons c r)
  have "is_digit 10 c" using show_radix_digits [of 10 n] Cons by simp
  then have "c \<noteq> CHR ''+''" by (auto simp: is_digit_def to_digit_def code_def)
  with Cons show ?thesis by (simp add: strip_plus_def)
qed simp

lemma parse_uint_show: "parse_uint bound (show_nat n) = (if n \<le> bound then Some n else None)"
  using show_radix_digits [of 10 n]
  by (simp add: parse_uint_def strip_plus_show digits_val_show_radix)

lemma parse_u8_show: "parse_u8 (show_nat (unat (b :: u8))) = Some b"
proof -
  have "unat b \<le> 255" using unat_u8_less [of b] by (simp add: less_Suc_eq_le [symmetric] del: unat_u8_less)
  then show ?thesis by (simp add: parse_u8_def parse_uint_show)
qed

lemma parse_u16_show: "parse_u16 (show_nat (unat (p :: u16))) = Some p"
proof -
  have "unat p \<le> 65535" using unat_u16_less [of p] by simp
  then show ?thesis by (simp add: parse_u16_def parse_uint_show)
qed

lemma show_nat_digit: "c \<in> set (show_nat n) \<Longrightarrow> is_digit 10 c"
  using show_radix_digits [of 10 n] by (simp add: list_all_iff)

subsection \<open>ASCII texts\<close>

definition ascii :: "string \<Rightarrow> bool" where
  "ascii s = list_all (\<lambda>c. code c < 128) s"

lemma ascii_append [simp]: "ascii (a @ b) = (ascii a \<and> ascii b)"
  by (simp add: ascii_def)

lemma map_unat_str_to_bytes: "map unat (str_to_bytes s) = map code s"
  by (simp add: str_to_bytes_def unat_of_nat)

lemma utf8_ascii: "list_all (\<lambda>n. n < 128) ns \<Longrightarrow> utf8_valid ns"
  by (induction ns) auto

lemma from_utf8_ascii: "ascii s \<Longrightarrow> from_utf8 (str_to_bytes s) = Some s"
proof -
  assume "ascii s"
  then have "utf8_valid (map code s)" by (intro utf8_ascii) (simp add: ascii_def list_all_iff)
  then show ?thesis
    by (simp add: from_utf8_def map_unat_str_to_bytes)
      (simp add: bytes_to_str_def str_to_bytes_def unat_of_nat comp_def map_idI)
qed

lemma digit_code: "is_digit 10 c \<Longrightarrow> 48 \<le> code c \<and> code c \<le> 57"
  by (auto simp: is_digit_def to_digit_def Let_def split: if_splits)

lemma ascii_show_nat: "ascii (show_nat n)"
  using show_nat_digit [of _ n] digit_code by (fastforce simp: ascii_def list_all_iff)

subsection \<open>Substrings\<close>

text \<open>\<open>str::contains\<close>\<close>

fun str_contains :: "string \<Rightarrow> string \<Rightarrow> bool" where
  "str_contains needle [] = (needle = [])"
| "str_contains needle (c # s) = (starts_with needle (c # s) \<or> str_contains needle s)"

lemma str_contains_append: "str_contains needle s \<longleftrightarrow> (\<exists>a b. s = a @ needle @ b)"
proof (induction s)
  case (Cons c s)
  show ?case
  proof
    assume "str_contains needle (c # s)"
    then consider "starts_with needle (c # s)" | a b where "s = a @ needle @ b"
      using Cons.IH by auto
    then show "\<exists>a b. c # s = a @ needle @ b"
    proof cases
      case 1
      then have "c # s = [] @ needle @ drop (length needle) (c # s)"
        by (metis append_Nil append_take_drop_id starts_with_def)
      then show ?thesis by blast
    next
      case 2
      then have "c # s = (c # a) @ needle @ b" by simp
      then show ?thesis by blast
    qed
  next
    assume "\<exists>a b. c # s = a @ needle @ b"
    then obtain a b where ab: "c # s = a @ needle @ b" by blast
    show "str_contains needle (c # s)"
    proof (cases a)
      case Nil
      then have "starts_with needle (c # s)" using ab by (metis append_Nil append_eq_conv_conj starts_with_def)
      then show ?thesis by simp
    next
      case (Cons d a')
      then have "s = a' @ needle @ b" using ab by simp
      then show ?thesis using Cons.IH by auto
    qed
  qed
qed auto

lemma str_contains_trans: "str_contains a b \<Longrightarrow> str_contains b s \<Longrightarrow> str_contains a s"
  unfolding str_contains_append by (metis append.assoc)

lemma str_containsI: "str_contains needle (a @ needle @ b)"
  unfolding str_contains_append by blast

end
