(* ===== verification/Metrics.thy ===== *)
theory Metrics
  imports RustText
begin

text \<open>
  The metrics registry of \<open>src/core/metrics/mod.rs\<close>: one 64-bit counter per metric
  name, incremented with wrap-around (\<open>AtomicU64::fetch_add\<close>), and its text
  exposition. The process-wide registry is a value that the operations of the other
  components take and return.
\<close>

subsection \<open>Model\<close>

datatype metric_name =
    CacheHitsTotal
  | CacheMissesTotal
  | QueriesTotal
  | BlockedTotal
  | Dns64SynthesizedTotal
  | QminStepsTotal
  | CnameChainTruncatedTotal
  | RebindingDetectedTotal

fun label :: "metric_name \<Rightarrow> string" where
  "label CacheHitsTotal = ''cache_hits_total''"
| "label CacheMissesTotal = ''cache_misses_total''"
| "label QueriesTotal = ''queries_total''"
| "label BlockedTotal = ''blocked_total''"
| "label Dns64SynthesizedTotal = ''dns64_synthesized_total''"
| "label QminStepsTotal = ''qmin_steps_total''"
| "label CnameChainTruncatedTotal = ''cname_chain_truncated_total''"
| "label RebindingDetectedTotal = ''rebinding_detected_total''"

definition metric_type :: "metric_name \<Rightarrow> string" where
  "metric_type n = ''counter''"

fun description :: "metric_name \<Rightarrow> string" where
  "description CacheHitsTotal = ''Total cache hits''"
| "description CacheMissesTotal = ''Total cache misses''"
| "description QueriesTotal = ''Total queries (optional qtype label)''"
| "description BlockedTotal = ''Total blocked queries''"
| "description Dns64SynthesizedTotal = ''Total synthesized AAAA from A''"
| "description QminStepsTotal = ''Total QNAME minimization steps''"
| "description CnameChainTruncatedTotal = ''Total truncated CNAME chains''"
| "description RebindingDetectedTotal = ''Total rebinding detections''"

record metrics_registry =
  counters :: "metric_name \<rightharpoonup> u64"

definition all_metrics :: "metric_name list" where
  "all_metrics =
     [CacheHitsTotal, CacheMissesTotal, QueriesTotal, BlockedTotal, Dns64SynthesizedTotal,
      QminStepsTotal, CnameChainTruncatedTotal, RebindingDetectedTotal]"

definition metrics_new :: metrics_registry where
  "metrics_new = \<lparr>counters = foldl (\<lambda>m n. m(n \<mapsto> 0)) Map.empty all_metrics\<rparr>"

definition metrics_increment :: "metrics_registry \<Rightarrow> metric_name \<Rightarrow> u64 \<Rightarrow> metrics_registry" where
  "metrics_increment r n delta =
     (case counters r n of
        Some v \<Rightarrow> r\<lparr>counters := (counters r)(n \<mapsto> v + delta)\<rparr>
      | None \<Rightarrow> r)"

definition metrics_read :: "metrics_registry \<Rightarrow> metric_name \<Rightarrow> u64" where
  "metrics_read r n = unwrap_or 0 (counters r n)"

definition metrics_block :: "metrics_registry \<Rightarrow> metric_name \<Rightarrow> string" where
  "metrics_block r n =
     ''# TYPE '' @ label n @ '' '' @ metric_type n @ [newline]
     @ ''# HELP '' @ label n @ '' '' @ description n @ [newline]
     @ label n @ '' '' @ show_nat (unat (metrics_read r n)) @ [newline]"

definition metrics_serialize :: "metrics_registry \<Rightarrow> string" where
  "metrics_serialize r = foldl (\<lambda>out n. out @ metrics_block r n) [] all_metrics"

definition metrics_reset :: "metrics_registry \<Rightarrow> metrics_registry" where
  "metrics_reset r = r\<lparr>counters := (\<lambda>n. map_option (\<lambda>_. 0) (counters r n))\<rparr>"

text \<open>Every counter the registry hands out is pre-populated.\<close>

definition metrics_populated :: "metrics_registry \<Rightarrow> bool" where
  "metrics_populated r = list_all (\<lambda>n. counters r n \<noteq> None) all_metrics"

text \<open>A sequence of increments, as the call sites of the process perform them.\<close>

fun metrics_run :: "metrics_registry \<Rightarrow> (metric_name \<times> u64) list \<Rightarrow> metrics_registry" where
  "metrics_run r [] = r"
| "metrics_run r ((n, d) # es) = metrics_run (metrics_increment r n d) es"

fun deltas :: "metric_name \<Rightarrow> (metric_name \<times> u64) list \<Rightarrow> u64" where
  "deltas n [] = 0"
| "deltas n ((m, d) # es) = (if m = n then d else 0) + deltas n es"

subsection \<open>The counter interface\<close>

locale counter_store =
  fixes incr :: "'r \<Rightarrow> metric_name \<Rightarrow> u64 \<Rightarrow> 'r"
    and read :: "'r \<Rightarrow> metric_name \<Rightarrow> u64"
    and invar :: "'r \<Rightarrow> bool"
  assumes read_incr: "invar r \<Longrightarrow> read (incr r n d) m = (if m = n then read r m + d else read r m)"
    and invar_incr: "invar r \<Longrightarrow> invar (incr r n d)"
begin

lemma invar_foldl: "invar r \<Longrightarrow> invar (foldl (\<lambda>r (n, d). incr r n d) r es)"
  by (induction es arbitrary: r) (auto simp: invar_incr)

lemma read_foldl:
  "invar r \<Longrightarrow> read (foldl (\<lambda>r (n, d). incr r n d) r es) m = read r m + deltas m es"
  by (induction es arbitrary: r) (auto simp: invar_incr read_incr add.assoc)

lemma read_incr_zero: "invar r \<Longrightarrow> read (incr r n 0) m = read r m"
  by (simp add: read_incr)

end

subsection \<open>The registry provides it\<close>

lemma all_metrics_complete [simp]: "n \<in> set all_metrics"
  by (cases n) (simp_all add: all_metrics_def)

lemma metrics_populated_iff: "metrics_populated r \<longleftrightarrow> (\<forall>n. counters r n \<noteq> None)"
  by (auto simp: metrics_populated_def list_all_iff)

lemma metrics_new_populated: "metrics_populated metrics_new"
  by (simp add: metrics_populated_def metrics_new_def all_metrics_def)

lemma metrics_read_new: "metrics_read metrics_new n = 0"
  by (cases n) (simp_all add: metrics_read_def metrics_new_def all_metrics_def)

interpretation registry: counter_store metrics_increment metrics_read metrics_populated
proof
  fix r n d m
  assume pop: "metrics_populated r"
  then obtain v where v: "counters r n = Some v"
    by (auto simp: metrics_populated_iff)
  show "metrics_read (metrics_increment r n d) m
      = (if m = n then metrics_read r m + d else metrics_read r m)"
    by (simp add: metrics_increment_def metrics_read_def v)
  show "metrics_populated (metrics_increment r n d)"
    using pop by (simp add: metrics_populated_iff metrics_increment_def v)
qed

lemma metrics_increment_unpopulated:
  "counters r n = None \<Longrightarrow> metrics_increment r n d = r"
  by (simp add: metrics_increment_def)

lemma metrics_run_foldl: "metrics_run r es = foldl (\<lambda>r (n, d). metrics_increment r n d) r es"
  by (induction r es rule: metrics_run.induct) simp_all

lemma metrics_reset_read: "metrics_read (metrics_reset r) n = 0"
  by (cases "counters r n") (simp_all add: metrics_read_def metrics_reset_def)

lemma metrics_reset_populated: "metrics_populated (metrics_reset r) = metrics_populated r"
  by (simp add: metrics_populated_iff metrics_reset_def)

subsection \<open>The exposition text\<close>

lemma metrics_serialize_concat: "metrics_serialize r = concat (map (metrics_block r) all_metrics)"
  by (simp add: metrics_serialize_def all_metrics_def)

lemma label_inject: "label m = label n \<Longrightarrow> m = n"
  by (cases m; cases n) simp_all

subsection \<open>Correctness of the registry\<close>

text \<open>
  C28. After any sequence of increments of a fresh or reset registry, every counter reads the
  sum of the increments made to its own name, modulo \<open>2 ^ 64\<close>: no increment is lost,
  and none reaches another counter.
\<close>

theorem metrics_count_exact:
  "metrics_read (metrics_run metrics_new es) n = deltas n es
    \<and> metrics_read (metrics_run (metrics_reset (metrics_run metrics_new es)) es') n = deltas n es'"
proof -
  have "metrics_populated (metrics_reset (metrics_run metrics_new es))"
    by (simp add: metrics_reset_populated metrics_run_foldl registry.invar_foldl metrics_new_populated)
  then show ?thesis
    by (simp add: metrics_run_foldl [of metrics_new] registry.read_foldl metrics_new_populated
        metrics_read_new) (simp add: metrics_run_foldl registry.read_foldl metrics_reset_read)
qed

end
