(* ===== verification/NetAddr.thy ===== *)
theory NetAddr
  imports RustText
begin

text \<open>
  The address types of \<open>std::net\<close> that the source parses, prints and classifies.
  An IPv4 address is its 32-bit value and an IPv6 address its 128-bit value, both in
  network order. The parsers follow the combinators of the standard library
  (\<open>read_number\<close>, \<open>read_separator\<close>, \<open>read_ipv4_addr\<close>,
  \<open>read_ipv6_addr\<close>, \<open>read_socket_addr\<close>), the printers its \<open>Display\<close>
  implementations.
\<close>

subsection \<open>Addresses\<close>

type_synonym ipv4 = u32
type_synonym ipv6 = u128

datatype ip_addr = V4 ipv4 | V6 ipv6

datatype socket_addr = SockV4 ipv4 u16 | SockV6 ipv6 u16 u32 u32

definition socket_ip :: "socket_addr \<Rightarrow> ip_addr" where
  "socket_ip a = (case a of SockV4 ip _ \<Rightarrow> V4 ip | SockV6 ip _ _ _ \<Rightarrow> V6 ip)"

definition ipv4_octets :: "ipv4 \<Rightarrow> bytes" where
  "ipv4_octets a = be_bytes 4 (unat a)"

definition ipv4_from_octets :: "bytes \<Rightarrow> ipv4" where
  "ipv4_from_octets bs = of_nat (be_nat bs)"

definition ipv4_new :: "u8 \<Rightarrow> u8 \<Rightarrow> u8 \<Rightarrow> u8 \<Rightarrow> ipv4" where
  "ipv4_new a b c d = ipv4_from_octets [a, b, c, d]"

definition ipv6_octets :: "ipv6 \<Rightarrow> bytes" where
  "ipv6_octets a = be_bytes 16 (unat a)"

definition ipv6_from_octets :: "bytes \<Rightarrow> ipv6" where
  "ipv6_from_octets bs = of_nat (be_nat bs)"

fun pair_up :: "bytes \<Rightarrow> u16 list" where
  "pair_up (a # b # r) = u16_from_be_bytes a b # pair_up r"
| "pair_up _ = []"

definition ipv6_segments :: "ipv6 \<Rightarrow> u16 list" where
  "ipv6_segments a = pair_up (ipv6_octets a)"

definition ipv6_from_segments :: "u16 list \<Rightarrow> ipv6" where
  "ipv6_from_segments ws = ipv6_from_octets (concat (map u16_to_be_bytes ws))"

subsection \<open>Classification\<close>

definition ipv4_is_loopback :: "ipv4 \<Rightarrow> bool" where
  "ipv4_is_loopback a = (ipv4_octets a ! 0 = 127)"

definition ipv4_is_private :: "ipv4 \<Rightarrow> bool" where
  "ipv4_is_private a =
     (let o0 = ipv4_octets a ! 0; o1 = ipv4_octets a ! 1
      in o0 = 10 \<or> (o0 = 172 \<and> 16 \<le> o1 \<and> o1 \<le> 31) \<or> (o0 = 192 \<and> o1 = 168))"

definition ipv4_is_link_local :: "ipv4 \<Rightarrow> bool" where
  "ipv4_is_link_local a = (ipv4_octets a ! 0 = 169 \<and> ipv4_octets a ! 1 = 254)"

definition ipv6_is_loopback :: "ipv6 \<Rightarrow> bool" where
  "ipv6_is_loopback a = (a = 1)"

definition ipv6_is_unspecified :: "ipv6 \<Rightarrow> bool" where
  "ipv6_is_unspecified a = (a = 0)"

definition ipv6_is_unique_local :: "ipv6 \<Rightarrow> bool" where
  "ipv6_is_unique_local a = (ipv6_segments a ! 0 AND 0xFE00 = 0xFC00)"

subsection \<open>Parsing\<close>

type_synonym 'a reader = "string \<Rightarrow> ('a \<times> string) option"

definition read_number :: "nat \<Rightarrow> nat option \<Rightarrow> bool \<Rightarrow> nat \<Rightarrow> nat reader" where
  "read_number radix max_digits allow_zero_prefix bound s =
     (let ds = takeWhile (is_digit radix) s; rest = dropWhile (is_digit radix) s
      in if ds = [] then None
         else if (case max_digits of None \<Rightarrow> False | Some m \<Rightarrow> m < length ds) then None
         else if \<not> allow_zero_prefix \<and> hd ds = CHR ''0'' \<and> 1 < length ds then None
         else if bound < digits_val radix ds then None
         else Some (digits_val radix ds, rest))"

definition read_given_char :: "char \<Rightarrow> unit reader" where
  "read_given_char c s = (case s of [] \<Rightarrow> None | x # r \<Rightarrow> if x = c then Some ((), r) else None)"

definition read_separator :: "char \<Rightarrow> nat \<Rightarrow> 'a reader \<Rightarrow> 'a reader" where
  "read_separator sep i inner s =
     (if i = 0 then inner s
      else case read_given_char sep s of None \<Rightarrow> None | Some (_, r) \<Rightarrow> inner r)"

definition read_octet :: "nat reader" where
  "read_octet = read_number 10 (Some 3) False 255"

fun read_octets :: "nat \<Rightarrow> nat \<Rightarrow> nat list reader" where
  "read_octets i 0 s = Some ([], s)"
| "read_octets i (Suc n) s =
     (case read_separator (CHR ''.'') i read_octet s of
        None \<Rightarrow> None
      | Some (v, r) \<Rightarrow> map_option (\<lambda>(vs, r'). (v # vs, r')) (read_octets (Suc i) n r))"

definition read_ipv4_addr :: "ipv4 reader" where
  "read_ipv4_addr s =
     map_option (\<lambda>(vs, r). (ipv4_from_octets (map of_nat vs), r)) (read_octets 0 4 s)"

definition parse_with :: "'a reader \<Rightarrow> string \<Rightarrow> 'a option" where
  "parse_with p s = (case p s of Some (v, []) \<Rightarrow> Some v | _ \<Rightarrow> None)"

definition parse_ipv4 :: "string \<Rightarrow> ipv4 option" where
  "parse_ipv4 s = (if 15 < length s then None else parse_with read_ipv4_addr s)"

text \<open>
  \<open>read_groups\<close> of the IPv6 reader: colon-separated groups into the \<open>limit - i\<close>
  remaining slots, where an embedded IPv4 address may fill the last two it reads. The
  result is the groups read, whether they end in an IPv4 address, and the rest.
\<close>

fun read_groups :: "nat \<Rightarrow> nat \<Rightarrow> string \<Rightarrow> nat list \<times> bool \<times> string" where
  "read_groups i 0 s = ([], False, s)"
| "read_groups i (Suc n) s =
     (case (if 0 < n then read_separator (CHR '':'') i read_ipv4_addr s else None) of
        Some (v4, r) \<Rightarrow> ([be_nat (take 2 (ipv4_octets v4)), be_nat (drop 2 (ipv4_octets v4))], True, r)
      | None \<Rightarrow>
          (case read_separator (CHR '':'') i (read_number 16 (Some 4) True 65535) s of
             None \<Rightarrow> ([], False, s)
           | Some (g, r) \<Rightarrow>
               (let (gs, v4, r') = read_groups (Suc i) n r in (g # gs, v4, r'))))"

definition read_ipv6_addr :: "ipv6 reader" where
  "read_ipv6_addr s =
     (let (hs, head_ipv4, r) = read_groups 0 8 s
      in if length hs = 8 then Some (ipv6_from_segments (map of_nat hs), r)
         else if head_ipv4 then None
         else case read_given_char (CHR '':'') r of
             None \<Rightarrow> None
           | Some (_, r1) \<Rightarrow>
               (case read_given_char (CHR '':'') r1 of
                  None \<Rightarrow> None
                | Some (_, r2) \<Rightarrow>
                    (let (ts, _, r3) = read_groups 0 (8 - (length hs + 1)) r2
                     in Some (ipv6_from_segments
                          (map of_nat (hs @ replicate (8 - length hs - length ts) 0 @ ts)), r3))))"

definition parse_ipv6 :: "string \<Rightarrow> ipv6 option" where
  "parse_ipv6 s = parse_with read_ipv6_addr s"

definition read_ip_addr :: "ip_addr reader" where
  "read_ip_addr s =
     (case read_ipv4_addr s of
        Some (a, r) \<Rightarrow> Some (V4 a, r)
      | None \<Rightarrow> map_option (\<lambda>(a, r). (V6 a, r)) (read_ipv6_addr s))"

definition parse_ip :: "string \<Rightarrow> ip_addr option" where
  "parse_ip s = parse_with read_ip_addr s"

definition read_port :: "nat reader" where
  "read_port s =
     (case read_given_char (CHR '':'') s of
        None \<Rightarrow> None | Some (_, r) \<Rightarrow> read_number 10 None True 65535 r)"

definition read_socket_addr_v4 :: "socket_addr reader" where
  "read_socket_addr_v4 s =
     (case read_ipv4_addr s of
        None \<Rightarrow> None
      | Some (ip, r) \<Rightarrow> map_option (\<lambda>(p, r'). (SockV4 ip (of_nat p), r')) (read_port r))"

definition read_scope_id :: "string \<Rightarrow> nat \<times> string" where
  "read_scope_id s =
     (case read_given_char (CHR ''%'') s of
        None \<Rightarrow> (0, s)
      | Some (_, r) \<Rightarrow> (case read_number 10 None True 4294967295 r of None \<Rightarrow> (0, s) | Some v \<Rightarrow> v))"

definition read_socket_addr_v6 :: "socket_addr reader" where
  "read_socket_addr_v6 s =
     (case read_given_char (CHR ''['') s of
        None \<Rightarrow> None
      | Some (_, r0) \<Rightarrow>
          (case read_ipv6_addr r0 of
             None \<Rightarrow> None
           | Some (ip, r1) \<Rightarrow>
               (let (scope, r2) = read_scope_id r1
                in case read_given_char (CHR '']'') r2 of
                     None \<Rightarrow> None
                   | Some (_, r3) \<Rightarrow>
                       map_option (\<lambda>(p, r'). (SockV6 ip (of_nat p) 0 (of_nat scope), r')) (read_port r3))))"

definition parse_socket_addr :: "string \<Rightarrow> socket_addr option" where
  "parse_socket_addr s =
     parse_with (\<lambda>t. case read_socket_addr_v4 t of Some v \<Rightarrow> Some v | None \<Rightarrow> read_socket_addr_v6 t) s"

subsection \<open>Printing\<close>

fun join :: "string \<Rightarrow> string list \<Rightarrow> string" where
  "join sep [] = []"
| "join sep [x] = x"
| "join sep (x # y # r) = x @ sep @ join sep (y # r)"

definition show_ipv4 :: "ipv4 \<Rightarrow> string" where
  "show_ipv4 a = join ''.'' (map (\<lambda>b. show_nat (unat b)) (ipv4_octets a))"

definition show_groups :: "u16 list \<Rightarrow> string" where
  "show_groups ws = join '':'' (map (\<lambda>w. show_radix 16 (unat w)) ws)"

text \<open>The longest run of zero groups, the first one on a tie: (start, length).\<close>

fun zero_span :: "nat \<Rightarrow> u16 list \<Rightarrow> nat \<times> nat \<Rightarrow> nat \<times> nat \<Rightarrow> nat \<times> nat" where
  "zero_span i [] cur longest = longest"
| "zero_span i (w # ws) (cs, cl) (ls, ll) =
     (if w = 0
      then (let cs' = (if cl = 0 then i else cs); cl' = Suc cl
            in zero_span (Suc i) ws (cs', cl') (if ll < cl' then (cs', cl') else (ls, ll)))
      else zero_span (Suc i) ws (0, 0) (ls, ll))"

definition show_ipv6 :: "ipv6 \<Rightarrow> string" where
  "show_ipv6 a =
     (let segs = ipv6_segments a
      in if take 6 segs = [0, 0, 0, 0, 0, 0xFFFF]
         then ''::ffff:'' @ show_ipv4 (ipv4_from_octets (drop 12 (ipv6_octets a)))
         else let (start, len) = zero_span 0 segs (0, 0) (0, 0)
              in if 1 < len then show_groups (take start segs) @ ''::'' @ show_groups (drop (start + len) segs)
                 else show_groups segs)"

definition show_ip :: "ip_addr \<Rightarrow> string" where
  "show_ip a = (case a of V4 x \<Rightarrow> show_ipv4 x | V6 x \<Rightarrow> show_ipv6 x)"

subsection \<open>Octets determine the address\<close>

lemma be_nat_4: "length bs = 4 \<Longrightarrow> be_nat bs < 4294967296"
  using be_nat_bound [of bs] by simp

lemma be_nat_16: "length bs = 16 \<Longrightarrow> be_nat bs < 340282366920938463463374607431768211456"
  using be_nat_bound [of bs] by simp

lemma ipv4_octets_from_octets: "length bs = 4 \<Longrightarrow> ipv4_octets (ipv4_from_octets bs) = bs"
  using be_bytes_be_nat [of bs] be_nat_4 [of bs]
  by (simp add: ipv4_octets_def ipv4_from_octets_def unat_of_nat)

lemma unat_u32_less: "unat (a :: u32) < 4294967296"
  by (rule order_less_le_trans [OF unsigned_less]) simp

lemma unat_u128_less: "unat (a :: u128) < 340282366920938463463374607431768211456"
  by (rule order_less_le_trans [OF unsigned_less]) simp

lemma ipv4_from_octets_octets: "ipv4_from_octets (ipv4_octets a) = a"
  using unat_u32_less [of a]
  by (simp add: ipv4_octets_def ipv4_from_octets_def be_nat_be_bytes)

lemma length_ipv4_octets [simp]: "length (ipv4_octets a) = 4"
  by (simp add: ipv4_octets_def)

lemma ipv6_octets_from_octets: "length bs = 16 \<Longrightarrow> ipv6_octets (ipv6_from_octets bs) = bs"
  using be_bytes_be_nat [of bs] be_nat_16 [of bs]
  by (simp add: ipv6_octets_def ipv6_from_octets_def unat_of_nat)

lemma ipv6_from_octets_octets: "ipv6_from_octets (ipv6_octets a) = a"
  using unat_u128_less [of a]
  by (simp add: ipv6_octets_def ipv6_from_octets_def be_nat_be_bytes)

lemma length_ipv6_octets [simp]: "length (ipv6_octets a) = 16"
  by (simp add: ipv6_octets_def)

lemma ipv4_octets_list:
  "ipv4_octets a = [of_nat (unat a div 16777216), of_nat (unat a div 65536),
     of_nat (unat a div 256), of_nat (unat a)]"
proof -
  have "(4 :: nat) = Suc (Suc (Suc (Suc 0)))" by simp
  then show ?thesis
    by (simp only: ipv4_octets_def be_bytes.simps append.simps div_mult2_eq [symmetric]) simp
qed

subsection \<open>Reading back a printed IPv4 address\<close>

lemma read_number_show:
  assumes "2 \<le> r" "r \<le> 16" "n \<le> bound" "rest = [] \<or> \<not> is_digit r (hd rest)"
    and "\<And>m. md = Some m \<Longrightarrow> length (show_radix r n) \<le> m"
  shows "read_number r md zp bound (show_radix r n @ rest) = Some (n, rest)"
proof -
  let ?ds = "show_radix r n"
  have dig: "\<And>x. x \<in> set ?ds \<Longrightarrow> is_digit r x"
    using show_radix_digits [OF assms(1,2), of n] by (simp add: list_all_iff)
  have tk: "takeWhile (is_digit r) (?ds @ rest) = ?ds"
    using assms(4) dig by (cases rest) (auto simp: takeWhile_append_stop)
  have dr: "dropWhile (is_digit r) (?ds @ rest) = rest"
    using assms(4) dig by (cases rest) (auto simp: dropWhile_append_stop)
  have zero: "\<not> (hd ?ds = CHR ''0'' \<and> 1 < length ?ds)"
  proof (cases "n = 0")
    case True
    then show ?thesis using assms(1) by (simp add: show_radix.simps [of r 0])
  next
    case False
    then show ?thesis using show_radix_hd [OF assms(1,2), of n] by simp
  qed
  have md: "\<not> (case md of None \<Rightarrow> False | Some m \<Rightarrow> m < length ?ds)"
    using assms(5) by (auto split: option.splits simp: not_less)
  show ?thesis
    unfolding read_number_def Let_def tk dr
    using zero md assms(3) by (auto simp: digits_val_show_radix [OF assms(1,2)])
qed

lemma length_show_u8: "length (show_nat (unat (b :: u8))) \<le> 3"
proof -
  have "unat b < 10 ^ Suc 2"
    by (rule order_less_le_trans [OF unat_u8_less]) simp
  then show ?thesis using show_radix_length [of 10 "unat b" 2] by simp
qed

lemma read_octet_show:
  "rest = [] \<or> \<not> is_digit 10 (hd rest) \<Longrightarrow>
    read_octet (show_nat (unat (b :: u8)) @ rest) = Some (unat b, rest)"
  unfolding read_octet_def
  by (rule read_number_show) (use length_show_u8 [of b] unat_u8_less [of b] in \<open>auto simp del: unat_u8_less\<close>)

lemma dot_not_digit [simp]: "\<not> is_digit 10 (CHR ''.'')"
  by (simp add: is_digit_def to_digit_def code_def)

lemma read_octets_show:
  "(bs :: bytes) \<noteq> [] \<Longrightarrow> read_octets i (length bs)
      ((if i = 0 then [] else ''.'') @ join ''.'' (map (\<lambda>b. show_nat (unat b)) bs))
    = Some (map unat bs, [])"
proof (induction bs arbitrary: i)
  case Nil
  then show ?case by simp
next
  case (Cons b bs)
  show ?case
  proof (cases bs)
    case Nil
    then show ?thesis
      using read_octet_show [of "[]" b] by (simp add: read_separator_def read_given_char_def)
  next
    case (Cons c cs)
    let ?rest = "''.'' @ join ''.'' (map (\<lambda>b. show_nat (unat b)) bs)"
    have "read_octet (show_nat (unat b) @ ?rest) = Some (unat b, ?rest)"
      by (rule read_octet_show) simp
    moreover have "read_octets (Suc i) (length bs) ?rest = Some (map unat bs, [])"
      using Cons.IH [of "Suc i"] Cons by simp
    ultimately show ?thesis
      using Cons by (cases "i = 0") (simp_all add: read_separator_def read_given_char_def)
  qed
qed

lemma length_show_ipv4: "length (show_ipv4 a) \<le> 15"
proof -
  obtain b0 b1 b2 b3 where o: "ipv4_octets a = [b0, b1, b2, b3]"
    using ipv4_octets_list by blast
  show ?thesis
    using length_show_u8 [of b0] length_show_u8 [of b1] length_show_u8 [of b2] length_show_u8 [of b3]
    by (simp add: show_ipv4_def o)
qed

lemma parse_show_ipv4: "parse_ipv4 (show_ipv4 a) = Some a"
proof -
  have "ipv4_octets a \<noteq> []" by (metis length_ipv4_octets list.size(3) zero_neq_numeral)
  then have "read_octets 0 4 (show_ipv4 a) = Some (map unat (ipv4_octets a), [])"
    using read_octets_show [of "ipv4_octets a" 0] by (simp add: show_ipv4_def)
  then have "read_ipv4_addr (show_ipv4 a) = Some (a, [])"
    by (simp add: read_ipv4_addr_def o_def ipv4_from_octets_octets)
  then show ?thesis
    using length_show_ipv4 [of a] by (simp add: parse_ipv4_def parse_with_def)
qed

lemma show_ipv4_chars: "c \<in> set (show_ipv4 a) \<Longrightarrow> c = CHR ''.'' \<or> is_digit 10 c"
proof -
  have d: "x \<in> set (show_nat n) \<Longrightarrow> is_digit 10 x" for x n
    using show_radix_digits [of 10 n] by (simp add: list_all_iff)
  assume "c \<in> set (show_ipv4 a)"
  then show ?thesis using d by (auto simp: show_ipv4_def ipv4_octets_list)
qed

end
