(* ===== verification/FileSys.thy ===== *)
theory FileSys
  imports RustText
begin

text \<open>
  The file operations the program uses, over an explicit store: a map from paths to
  file contents, and for every path the error the operating system answers with when
  it refuses to open that path (\<open>io_fault\<close>, for instance a permission error).
  A refused operation leaves the store as it is.
\<close>

datatype io_error_kind = NotFound | PermissionDenied | InvalidData | IoOther

record io_error =
  io_kind :: io_error_kind
  io_msg :: string

record file_system =
  fs_files :: "string \<rightharpoonup> string"
  io_fault :: "string \<Rightarrow> io_error option"

definition fs_exists :: "file_system \<Rightarrow> string \<Rightarrow> bool" where
  "fs_exists fs p = (fs_files fs p \<noteq> None)"

definition read_to_string :: "file_system \<Rightarrow> string \<Rightarrow> (io_error, string) result" where
  "read_to_string fs p =
     (case io_fault fs p of
        Some e \<Rightarrow> Inl e
      | None \<Rightarrow>
          (case fs_files fs p of
             None \<Rightarrow> Inl \<lparr>io_kind = NotFound, io_msg = ''No such file or directory''\<rparr>
           | Some t \<Rightarrow>
               if utf8_valid (map code t) then Inr t
               else Inl \<lparr>io_kind = InvalidData, io_msg = ''stream did not contain valid UTF-8''\<rparr>))"

text \<open>\<open>fs::read\<close>: like \<open>read_to_string\<close> without the check of the encoding.\<close>

definition fs_read :: "file_system \<Rightarrow> string \<Rightarrow> (io_error, string) result" where
  "fs_read fs p =
     (case io_fault fs p of
        Some e \<Rightarrow> Inl e
      | None \<Rightarrow> ok_or \<lparr>io_kind = NotFound, io_msg = ''No such file or directory''\<rparr> (fs_files fs p))"

definition fs_write :: "file_system \<Rightarrow> string \<Rightarrow> string \<Rightarrow> (io_error, unit) result \<times> file_system" where
  "fs_write fs p t =
     (case io_fault fs p of
        Some e \<Rightarrow> (Inl e, fs)
      | None \<Rightarrow> (Inr (), fs\<lparr>fs_files := (fs_files fs)(p \<mapsto> t)\<rparr>))"

text \<open>\<open>Path::is_absolute\<close> and \<open>PathBuf::join\<close> on Unix paths.\<close>

definition is_absolute :: "string \<Rightarrow> bool" where
  "is_absolute p = starts_with ''/'' p"

definition path_join :: "string \<Rightarrow> string \<Rightarrow> string" where
  "path_join base p =
     (if is_absolute p then p
      else if base = [] \<or> ends_with ''/'' base then base @ p
      else base @ ''/'' @ p)"

text \<open>
  \<open>fs::create_dir_all\<close>: directories are implicit in the store, so creating them only
  fails, when the system refuses the path or a file is in the way; the empty path is
  accepted. \<open>Path::parent\<close>, for paths without \<open>.\<close> segments: the path without its
  last segment, none for the root and the empty path.
\<close>

definition create_dir_all :: "file_system \<Rightarrow> string \<Rightarrow> (io_error, unit) result" where
  "create_dir_all fs p =
     (if p = [] then Inr ()
      else case io_fault fs p of
        Some e \<Rightarrow> Inl e
      | None \<Rightarrow>
          if fs_files fs p = None then Inr ()
          else Inl \<lparr>io_kind = IoOther, io_msg = ''File exists''\<rparr>)"

definition path_parent :: "string \<Rightarrow> string option" where
  "path_parent p =
     (let body = trim_end_matches (CHR ''/'') p;
          up = rev (dropWhile (\<lambda>c. c \<noteq> CHR ''/'') (rev body))
      in if body = [] then None
         else if up \<noteq> [] \<and> trim_end_matches (CHR ''/'') up = [] then Some ''/''
         else Some (trim_end_matches (CHR ''/'') up))"

lemma fs_write_Inr:
  "fs_write fs p t = (Inr u, fs') \<longleftrightarrow> io_fault fs p = None \<and> fs' = fs\<lparr>fs_files := (fs_files fs)(p \<mapsto> t)\<rparr>"
  by (auto simp: fs_write_def split: option.split)

lemma read_after_write:
  assumes "fs_write fs p t = (Inr u, fs')" "utf8_valid (map code t)"
  shows "read_to_string fs' p = Inr t"
  using assms by (auto simp: fs_write_Inr read_to_string_def)

lemma read_frame:
  assumes "fs_write fs p t = (r, fs')" "q \<noteq> p"
  shows "read_to_string fs' q = read_to_string fs q"
  using assms by (auto simp: fs_write_def read_to_string_def split: option.splits)

end
