(* ===== verification/Cache.thy ===== *)
theory Cache
  imports Metrics NetAddr FileSys
begin

text \<open>
  The response cache of \<open>src/core/cache/mod.rs\<close>. Instants and durations are
  nanoseconds; every operation that reads the clock takes the instant it reads.
  The hash map is an association list with distinct keys, whose order stands for the
  unspecified iteration order; \<open>access_order\<close> is the vector of the source.
  The process-wide metrics registry is passed through \<open>lookup_with_metrics\<close> and
  \<open>record_miss\<close>.
\<close>

subsection \<open>State\<close>

record cache_key =
  key_qname :: string
  key_qtype :: u16
  key_client_subnet :: "(ip_addr \<times> u8) option"

record cache_entry =
  response_bytes :: bytes
  inserted_at :: nat
  original_ttl :: nat
  hit_count :: u64
  last_access :: nat

record cache_config =
  cache_size :: nat
  serve_stale :: nat
  prefetch :: u32

record cache =
  cache_cfg :: cache_config
  entries :: "(cache_key \<times> cache_entry) list"
  access_order :: "cache_key list"
  cache_hits :: u64
  cache_misses :: u64

definition from_secs :: "nat \<Rightarrow> nat" where
  "from_secs n = n * 1000000000"

definition as_secs :: "nat \<Rightarrow> nat" where
  "as_secs d = d div 1000000000"

definition default_cache_config :: cache_config where
  "default_cache_config = \<lparr>cache_size = 50000, serve_stale = from_secs 30, prefetch = 2\<rparr>"

subsection \<open>Entries\<close>

definition elapsed :: "nat \<Rightarrow> cache_entry \<Rightarrow> nat" where
  "elapsed now e = now - inserted_at e"

definition ttl_remaining :: "nat \<Rightarrow> cache_entry \<Rightarrow> nat" where
  "ttl_remaining now e =
     (if original_ttl e \<le> elapsed now e then 0 else original_ttl e - elapsed now e)"

definition entry_is_expired :: "nat \<Rightarrow> cache_entry \<Rightarrow> bool" where
  "entry_is_expired now e = (ttl_remaining now e = 0)"

definition entry_is_stale :: "nat \<Rightarrow> nat \<Rightarrow> cache_entry \<Rightarrow> bool" where
  "entry_is_stale now stale_window e =
     (entry_is_expired now e \<and> elapsed now e \<le> original_ttl e + stale_window)"

subsection \<open>Operations\<close>

definition cache_new :: "cache_config \<Rightarrow> cache" where
  "cache_new cfg =
     \<lparr>cache_cfg = cfg, entries = [], access_order = [], cache_hits = 0, cache_misses = 0\<rparr>"

definition update_entry :: "'k \<Rightarrow> ('v \<Rightarrow> 'v) \<Rightarrow> ('k \<times> 'v) list \<Rightarrow> ('k \<times> 'v) list" where
  "update_entry k f al = map (\<lambda>(k', v). if k' = k then (k', f v) else (k', v)) al"

definition cache_lookup :: "cache \<Rightarrow> cache_key \<Rightarrow> nat \<Rightarrow> (bytes \<times> bool \<times> u64) option \<times> cache" where
  "cache_lookup c key now =
     (case map_of (entries c) key of
        None \<Rightarrow> (None, c)
      | Some e \<Rightarrow>
          (let stale = entry_is_stale now (serve_stale (cache_cfg c)) e;
               e' = e\<lparr>hit_count := hit_count e + 1, last_access := now\<rparr>
           in (Some (response_bytes e', stale, hit_count e'),
               c\<lparr>cache_hits := cache_hits c + 1,
                 entries := update_entry key (\<lambda>_. e') (entries c)\<rparr>)))"

definition record_miss :: "cache \<Rightarrow> metrics_registry \<Rightarrow> cache \<times> metrics_registry" where
  "record_miss c m =
     (c\<lparr>cache_misses := cache_misses c + 1\<rparr>, metrics_increment m CacheMissesTotal 1)"

definition lookup_with_metrics ::
  "cache \<Rightarrow> metrics_registry \<Rightarrow> cache_key \<Rightarrow> nat
     \<Rightarrow> (bytes \<times> bool \<times> u64) option \<times> cache \<times> metrics_registry" where
  "lookup_with_metrics c m key now =
     (case cache_lookup c key now of
        (Some result, c') \<Rightarrow> (Some result, c', metrics_increment m CacheHitsTotal 1)
      | (None, c') \<Rightarrow> (None, record_miss c' m))"

definition cache_is_expired :: "cache \<Rightarrow> cache_key \<Rightarrow> nat \<Rightarrow> bool" where
  "cache_is_expired c key now =
     (case map_of (entries c) key of Some e \<Rightarrow> entry_is_expired now e | None \<Rightarrow> True)"

definition evict_lru :: "cache \<Rightarrow> cache" where
  "evict_lru c =
     (case access_order c of
        [] \<Rightarrow> c
      | oldest_key # rest \<Rightarrow>
          c\<lparr>entries := AList.delete oldest_key (entries c), access_order := rest\<rparr>)"

text \<open>The eviction loop of \<open>insert\<close>; \<open>None\<close> is a loop that never ends.\<close>

partial_function (option) evict_while_full :: "cache \<Rightarrow> cache option" where
  "evict_while_full c =
     (if cache_size (cache_cfg c) \<le> length (entries c)
      then evict_while_full (evict_lru c) else Some c)"

definition new_entry :: "bytes \<Rightarrow> nat \<Rightarrow> nat \<Rightarrow> cache_entry" where
  "new_entry bs ttl now =
     \<lparr>response_bytes = bs, inserted_at = now, original_ttl = ttl, hit_count = 0, last_access = now\<rparr>"

definition put_entry :: "cache \<Rightarrow> cache_key \<Rightarrow> cache_entry \<Rightarrow> cache" where
  "put_entry c key e =
     (let ord = (if key \<in> fst ` set (entries c) then filter (\<lambda>k. k \<noteq> key) (access_order c)
                 else access_order c)
      in c\<lparr>entries := AList.update key e (entries c), access_order := ord @ [key]\<rparr>)"

definition cache_insert :: "cache \<Rightarrow> cache_key \<Rightarrow> bytes \<Rightarrow> nat \<Rightarrow> nat \<Rightarrow> cache option" where
  "cache_insert c key bs ttl now =
     map_option (\<lambda>c'. put_entry c' key (new_entry bs ttl now)) (evict_while_full c)"

definition drop_key :: "cache_key \<Rightarrow> cache \<Rightarrow> cache" where
  "drop_key key c =
     c\<lparr>entries := AList.delete key (entries c),
       access_order := filter (\<lambda>k. k \<noteq> key) (access_order c)\<rparr>"

definition dead_keys :: "cache \<Rightarrow> nat \<Rightarrow> cache_key list" where
  "dead_keys c now =
     map fst (filter (\<lambda>(_, e). entry_is_expired now e
       \<and> \<not> entry_is_stale now (serve_stale (cache_cfg c)) e) (entries c))"

definition reap_expired :: "cache \<Rightarrow> nat \<Rightarrow> cache" where
  "reap_expired c now = foldl (\<lambda>c key. drop_key key c) c (dead_keys c now)"

definition cache_len :: "cache \<Rightarrow> nat" where
  "cache_len c = length (entries c)"

definition cache_is_empty :: "cache \<Rightarrow> bool" where
  "cache_is_empty c = (entries c = [])"

definition should_prefetch :: "cache \<Rightarrow> cache_key \<Rightarrow> nat \<Rightarrow> bool" where
  "should_prefetch c key now =
     (if prefetch (cache_cfg c) = 0 then False
      else case map_of (entries c) key of
          Some e \<Rightarrow>
            ttl_remaining now e < from_secs (unat ((ucast (prefetch (cache_cfg c)) :: u64) * hit_count e))
        | None \<Rightarrow> False)"

definition cache_clear :: "cache \<Rightarrow> cache" where
  "cache_clear c = c\<lparr>entries := [], access_order := [], cache_hits := 0, cache_misses := 0\<rparr>"

subsection \<open>Persistence\<close>

text \<open>
  A saved record is the key, the response, the time to live in whole seconds and the
  hit count. \<open>snapshot\<close> lists the records in the model's order; the source writes
  them in the hash map's order, so \<open>is_snapshot\<close> accepts every permutation.
\<close>

type_synonym saved_record = "cache_key \<times> bytes \<times> nat \<times> u64"

definition save_entry :: "cache_key \<times> cache_entry \<Rightarrow> saved_record" where
  "save_entry ke =
     (fst ke, response_bytes (snd ke), as_secs (original_ttl (snd ke)), hit_count (snd ke))"

definition snapshot :: "cache \<Rightarrow> saved_record list" where
  "snapshot c = map save_entry (entries c)"

definition is_snapshot :: "cache \<Rightarrow> saved_record list \<Rightarrow> bool" where
  "is_snapshot c snap = (length snap = length (snapshot c) \<and> distinct (map fst snap)
     \<and> list_all (\<lambda>x. x \<in> set (snapshot c)) snap)"

fun load_entries :: "nat \<Rightarrow> saved_record list \<Rightarrow> cache \<Rightarrow> cache option" where
  "load_entries now [] c = Some c"
| "load_entries now ((key, bs, ttl_sec, hc) # snap) c =
     (case cache_insert c key bs (from_secs ttl_sec) now of
        None \<Rightarrow> None
      | Some c' \<Rightarrow>
          load_entries now snap
            (c'\<lparr>entries := update_entry key (\<lambda>e. e\<lparr>hit_count := hc\<rparr>) (entries c')\<rparr>))"

definition load_snapshot :: "nat \<Rightarrow> saved_record list \<Rightarrow> cache option" where
  "load_snapshot now snap =
     load_entries now snap
       (cache_new \<lparr>cache_size = max (length snap) 100, serve_stale = from_secs 30, prefetch = 0\<rparr>)"

text \<open>
  The JSON encoder and decoder are the functions \<open>to_json\<close> and \<open>from_json\<close> of
  \<open>serde_json\<close>; their failures are messages.
\<close>

definition save_to_file ::
  "(saved_record list \<Rightarrow> (string, string) result) \<Rightarrow> saved_record list \<Rightarrow> file_system \<Rightarrow> string
     \<Rightarrow> (io_error, unit) result \<times> file_system" where
  "save_to_file to_json snap fs path =
     (case to_json snap of
        Inl e \<Rightarrow> (Inl \<lparr>io_kind = IoOther, io_msg = ''serde_json: '' @ e\<rparr>, fs)
      | Inr encoded \<Rightarrow> fs_write fs path encoded)"

definition load_from_file ::
  "(string \<Rightarrow> (string, saved_record list) result) \<Rightarrow> nat \<Rightarrow> file_system \<Rightarrow> string
     \<Rightarrow> (io_error, cache option) result" where
  "load_from_file from_json now fs path =
     try_bind (read_to_string fs path) (\<lambda>text.
       case from_json text of
         Inl e \<Rightarrow> Inl \<lparr>io_kind = InvalidData, io_msg = ''serde_json: '' @ e\<rparr>
       | Inr snap \<Rightarrow> Inr (load_snapshot now snap))"

subsection \<open>Abstract view: a bounded queue of entries in insertion order\<close>

definition contents :: "cache \<Rightarrow> (cache_key \<times> cache_entry) list" where
  "contents c = map (\<lambda>k. (k, the (map_of (entries c) k))) (access_order c)"

definition fifo_insert :: "nat \<Rightarrow> ('k \<times> 'v) list \<Rightarrow> 'k \<Rightarrow> 'v \<Rightarrow> ('k \<times> 'v) list" where
  "fifo_insert cap q k v = filter (\<lambda>p. fst p \<noteq> k) (drop (Suc (length q) - cap) q) @ [(k, v)]"

definition cache_wf :: "cache \<Rightarrow> bool" where
  "cache_wf c \<longleftrightarrow> distinct (map fst (entries c)) \<and> distinct (access_order c)
     \<and> set (access_order c) = set (map fst (entries c))"

definition cache_inv :: "cache \<Rightarrow> bool" where
  "cache_inv c \<longleftrightarrow> cache_wf c \<and> length (entries c) \<le> cache_size (cache_cfg c)"

text \<open>
  The operations that change the cache, as steps between states; a cache of the
  running server starts new or loaded from a file.
\<close>

inductive cache_step :: "cache \<Rightarrow> cache \<Rightarrow> bool" where
  step_lookup: "cache_lookup c k now = (r, c') \<Longrightarrow> cache_step c c'"
| step_miss: "record_miss c m = (c', m') \<Longrightarrow> cache_step c c'"
| step_insert: "cache_insert c k bs ttl now = Some c' \<Longrightarrow> cache_step c c'"
| step_reap: "reap_expired c now = c' \<Longrightarrow> cache_step c c'"
| step_clear: "cache_clear c = c' \<Longrightarrow> cache_step c c'"

inductive cache_reachable :: "cache_config \<Rightarrow> cache \<Rightarrow> bool" for cfg where
  reach_new: "cache_reachable cfg (cache_new cfg)"
| reach_load: "load_snapshot now snap = Some c \<Longrightarrow> cache_cfg c = cfg \<Longrightarrow> cache_reachable cfg c"
| reach_step: "cache_reachable cfg c \<Longrightarrow> cache_step c c' \<Longrightarrow> cache_reachable cfg c'"

subsection \<open>Well-formedness\<close>

lemma cache_wf_new: "cache_wf (cache_new cfg)"
  by (simp add: cache_wf_def cache_new_def)

lemma cache_wf_length: "cache_wf c \<Longrightarrow> length (access_order c) = length (entries c)"
  using length_le_distinct_set [of "access_order c" "map fst (entries c)"] by (simp add: cache_wf_def)

lemma cache_wf_dom: "cache_wf c \<Longrightarrow> dom (map_of (entries c)) = set (access_order c)"
  by (simp add: cache_wf_def dom_map_of_conv_image_fst)

lemma map_of_contents: "cache_wf c \<Longrightarrow> map_of (contents c) = map_of (entries c)"
  unfolding contents_def by (rule map_of_map_keys) (simp add: cache_wf_dom)

lemma map_fst_contents [simp]: "map fst (contents c) = access_order c"
  by (simp add: contents_def comp_def)

lemma length_contents [simp]: "length (contents c) = length (access_order c)"
  by (simp add: contents_def)

lemma contents_cong:
  "access_order c' = access_order c \<Longrightarrow>
    (\<And>k. k \<in> set (access_order c) \<Longrightarrow> map_of (entries c') k = map_of (entries c) k) \<Longrightarrow>
    contents c' = contents c"
  by (simp add: contents_def)

subsection \<open>Eviction\<close>

lemma evict_lru_frame [simp]:
  "cache_cfg (evict_lru c) = cache_cfg c"
  "cache_hits (evict_lru c) = cache_hits c"
  "cache_misses (evict_lru c) = cache_misses c"
  by (simp_all add: evict_lru_def split: list.split)

lemma evict_lru_wf:
  assumes "cache_wf c"
  shows "cache_wf (evict_lru c)"
proof (cases "access_order c")
  case Nil
  with assms show ?thesis by (simp add: evict_lru_def)
next
  case (Cons k ks)
  with assms have "fst ` set (entries c) = insert k (set ks)" "k \<notin> set ks"
    by (auto simp: cache_wf_def)
  with Cons assms show ?thesis
    by (auto simp: cache_wf_def evict_lru_def map_fst_AList_delete set_fst_AList_delete)
qed

lemma evict_lru_contents: "cache_wf c \<Longrightarrow> contents (evict_lru c) = tl (contents c)"
  by (auto simp: contents_def evict_lru_def cache_wf_def AList.delete_conv' split: list.split)

lemma evict_lru_length:
  assumes "cache_wf c" "entries c \<noteq> []"
  shows "Suc (length (entries (evict_lru c))) = length (entries c)"
proof -
  have "access_order c \<noteq> []" using assms by (auto simp: cache_wf_def)
  then have "Suc (length (access_order (evict_lru c))) = length (access_order c)"
    by (cases "access_order c") (simp_all add: evict_lru_def)
  then show ?thesis using cache_wf_length evict_lru_wf assms(1) by metis
qed

lemma evict_while_full_spec:
  assumes "cache_wf c" "0 < cache_size (cache_cfg c)"
  shows "\<exists>c'. evict_while_full c = Some c' \<and> cache_wf c'
    \<and> contents c' = drop (Suc (length (entries c)) - cache_size (cache_cfg c)) (contents c)
    \<and> cache_cfg c' = cache_cfg c \<and> cache_hits c' = cache_hits c \<and> cache_misses c' = cache_misses c
    \<and> length (entries c') < cache_size (cache_cfg c)"
  using assms
proof (induction "length (entries c)" arbitrary: c rule: less_induct)
  case less
  let ?n = "cache_size (cache_cfg c)"
  show ?case
  proof (cases "?n \<le> length (entries c)")
    case False
    then have "evict_while_full c = Some c" by (simp add: evict_while_full.simps)
    with False less.prems show ?thesis by auto
  next
    case True
    let ?d = "evict_lru c"
    have ne: "entries c \<noteq> []" using True less.prems(2) by auto
    have len: "Suc (length (entries ?d)) = length (entries c)"
      using evict_lru_length less.prems(1) ne .
    obtain c' where c': "evict_while_full ?d = Some c'" "cache_wf c'"
      "contents c' = drop (Suc (length (entries ?d)) - ?n) (contents ?d)"
      "cache_cfg c' = cache_cfg c" "cache_hits c' = cache_hits c" "cache_misses c' = cache_misses c"
      "length (entries c') < ?n"
      using less.hyps [of ?d] len evict_lru_wf less.prems by auto
    have "contents c' = drop (Suc (length (entries c)) - ?n) (contents c)"
      using c'(3) len True evict_lru_contents [OF less.prems(1)]
      by (simp add: drop_Suc [symmetric] Suc_diff_le)
    moreover have "evict_while_full c = Some c'"
      using True c'(1) by (simp add: evict_while_full.simps [of c])
    ultimately show ?thesis using c' by blast
  qed
qed

lemma evict_while_full_bound:
  assumes ret: "evict_while_full c = Some c'"
  shows "length (entries c') < cache_size (cache_cfg c)"
proof (rule evict_while_full.raw_induct
    [where P = "\<lambda>c r. length (entries r) < cache_size (cache_cfg c)", OF _ ret])
  fix f c r
  assume IH: "\<And>c r. f c = Some r \<Longrightarrow> length (entries r) < cache_size (cache_cfg c)"
    and eq: "(if cache_size (cache_cfg c) \<le> length (entries c) then f (evict_lru c) else Some c) = Some r"
  show "length (entries r) < cache_size (cache_cfg c)"
    using IH [of "evict_lru c" r] eq by (auto split: if_splits)
qed

subsection \<open>Insertion\<close>

lemma put_entry_frame [simp]:
  "cache_cfg (put_entry c k e) = cache_cfg c"
  "cache_hits (put_entry c k e) = cache_hits c"
  "cache_misses (put_entry c k e) = cache_misses c"
  "map_of (entries (put_entry c k e)) = (map_of (entries c))(k \<mapsto> e)"
  by (simp_all add: put_entry_def Let_def AList.update_conv')

lemma put_entry_wf: "cache_wf c \<Longrightarrow> cache_wf (put_entry c k e)"
  by (auto simp: cache_wf_def put_entry_def Let_def map_fst_AList_update dom_update)

lemma put_entry_order:
  "cache_wf c \<Longrightarrow> access_order (put_entry c k e) = filter (\<lambda>x. x \<noteq> k) (access_order c) @ [k]"
  by (auto simp: put_entry_def Let_def cache_wf_def filter_id_notin)

lemma put_entry_contents:
  "cache_wf c \<Longrightarrow> contents (put_entry c k e) = filter (\<lambda>p. fst p \<noteq> k) (contents c) @ [(k, e)]"
  by (simp add: contents_def put_entry_order filter_map comp_def)

lemma put_entry_length: "length (entries (put_entry c k e)) \<le> Suc (length (entries c))"
proof -
  have "length (map fst (AList.update k e (entries c))) \<le> Suc (length (entries c))"
    by (simp only: map_fst_AList_update) simp
  then show ?thesis by (simp add: put_entry_def Let_def)
qed

lemma cache_insert_spec:
  assumes "cache_wf c" "0 < cache_size (cache_cfg c)"
  shows "\<exists>c'. cache_insert c k bs ttl now = Some c' \<and> cache_inv c'
    \<and> contents c' = fifo_insert (cache_size (cache_cfg c)) (contents c) k (new_entry bs ttl now)
    \<and> cache_cfg c' = cache_cfg c \<and> cache_hits c' = cache_hits c \<and> cache_misses c' = cache_misses c"
proof -
  obtain d where d: "evict_while_full c = Some d" "cache_wf d"
    "contents d = drop (Suc (length (entries c)) - cache_size (cache_cfg c)) (contents c)"
    "cache_cfg d = cache_cfg c" "cache_hits d = cache_hits c" "cache_misses d = cache_misses c"
    "length (entries d) < cache_size (cache_cfg c)"
    using evict_while_full_spec [OF assms] by blast
  let ?e = "new_entry bs ttl now"
  have "length (entries (put_entry d k ?e)) \<le> cache_size (cache_cfg c)"
    using put_entry_length [of d k ?e] d(7) by simp
  then have "cache_inv (put_entry d k ?e)"
    using d by (simp add: cache_inv_def put_entry_wf)
  moreover have "contents (put_entry d k ?e)
      = fifo_insert (cache_size (cache_cfg c)) (contents c) k ?e"
    using d assms(1) by (simp add: put_entry_contents fifo_insert_def cache_wf_length)
  ultimately show ?thesis using d by (simp add: cache_insert_def)
qed

lemma cache_insert_None_iff:
  "cache_wf c \<Longrightarrow> cache_insert c k bs ttl now = None \<longleftrightarrow> cache_size (cache_cfg c) = 0"
  using cache_insert_spec [of c k bs ttl now] evict_while_full_bound [of c]
  by (cases "evict_while_full c") (auto simp: cache_insert_def)

lemma cache_insert_inv:
  "cache_wf c \<Longrightarrow> cache_insert c k bs ttl now = Some c' \<Longrightarrow> cache_inv c' \<and> cache_cfg c' = cache_cfg c"
  using cache_insert_spec [of c k bs ttl now] cache_insert_None_iff [of c k bs ttl now]
  by (cases "cache_size (cache_cfg c) = 0") auto

subsection \<open>Lookup\<close>

lemma map_of_update_entry:
  "map_of (update_entry k f al) x = (if x = k then map_option f (map_of al k) else map_of al x)"
  by (induction al) (auto simp: update_entry_def)

lemma map_fst_update_entry [simp]: "map fst (update_entry k f al) = map fst al"
  by (induction al) (auto simp: update_entry_def)

lemma length_update_entry [simp]: "length (update_entry k f al) = length al"
  by (simp add: update_entry_def)

lemma set_fst_update_entry [simp]: "fst ` set (update_entry k f al) = fst ` set al"
  by (metis list.set_map map_fst_update_entry)

lemma cache_lookup_frame:
  assumes "cache_lookup c k now = (r, c')"
  shows "cache_cfg c' = cache_cfg c" "access_order c' = access_order c"
    "map fst (entries c') = map fst (entries c)" "cache_misses c' = cache_misses c"
  using assms by (auto simp: cache_lookup_def Let_def split: option.splits)

lemma cache_lookup_wf: "cache_lookup c k now = (r, c') \<Longrightarrow> cache_wf c' = cache_wf c"
  using cache_lookup_frame [of c k now r c'] by (simp only: cache_wf_def)

lemma cache_lookup_inv: "cache_lookup c k now = (r, c') \<Longrightarrow> cache_inv c' = cache_inv c"
  using cache_lookup_frame [of c k now r c'] cache_lookup_wf [of c k now r c']
  by (metis cache_inv_def length_map)

lemma cache_lookup_entries:
  assumes "cache_lookup c k now = (r, c')"
  shows "map_of (entries c') x =
    (if x = k then map_option (\<lambda>e. e\<lparr>hit_count := hit_count e + 1, last_access := now\<rparr>) (map_of (entries c) k)
     else map_of (entries c) x)"
  using assms by (auto simp: cache_lookup_def Let_def map_of_update_entry split: option.splits)

lemma cache_lookup_result:
  "fst (cache_lookup c k now) =
    map_option (\<lambda>e. (response_bytes e, entry_is_stale now (serve_stale (cache_cfg c)) e, hit_count e + 1))
      (map_of (entries c) k)"
  by (simp add: cache_lookup_def Let_def split: option.split)

subsection \<open>Reaping\<close>

lemma drop_key_frame [simp]: "cache_cfg (drop_key k c) = cache_cfg c"
  by (simp add: drop_key_def)

lemma drop_key_wf: "cache_wf c \<Longrightarrow> cache_wf (drop_key k c)"
  by (auto simp: cache_wf_def drop_key_def map_fst_AList_delete set_fst_AList_delete)

lemma drop_key_contents:
  "contents (drop_key k c) = filter (\<lambda>p. fst p \<noteq> k) (contents c)"
  by (auto simp: contents_def drop_key_def filter_map comp_def AList.delete_conv')

lemma drop_keys_wf: "cache_wf c \<Longrightarrow> cache_wf (foldl (\<lambda>c k. drop_key k c) c ks)"
  by (induction ks arbitrary: c) (simp_all add: drop_key_wf)

lemma drop_keys_cfg: "cache_cfg (foldl (\<lambda>c k. drop_key k c) c ks) = cache_cfg c"
  by (induction ks arbitrary: c) simp_all

lemma drop_keys_contents:
  "contents (foldl (\<lambda>c k. drop_key k c) c ks) = filter (\<lambda>p. fst p \<notin> set ks) (contents c)"
  by (induction ks arbitrary: c) (auto simp: drop_key_contents intro: filter_cong)

lemma dead_keys_iff:
  assumes "cache_wf c"
  shows "k \<in> set (dead_keys c now) \<longleftrightarrow>
    (\<exists>e. map_of (entries c) k = Some e \<and> entry_is_expired now e
       \<and> \<not> entry_is_stale now (serve_stale (cache_cfg c)) e)"
  using assms by (force simp: dead_keys_def cache_wf_def map_of_eq_Some_iff)

lemma contents_lookup: "cache_wf c \<Longrightarrow> (k, e) \<in> set (contents c) \<Longrightarrow> map_of (entries c) k = Some e"
  by (metis cache_wf_def map_fst_contents map_of_contents map_of_eq_Some_iff)

lemma entry_dead_iff:
  "entry_is_expired now e \<and> \<not> entry_is_stale now w e \<longleftrightarrow> original_ttl e + w < elapsed now e"
  by (auto simp: entry_is_expired_def entry_is_stale_def ttl_remaining_def)

lemma reap_expired_contents:
  assumes "cache_wf c"
  shows "contents (reap_expired c now) =
    filter (\<lambda>(k, e). elapsed now e \<le> original_ttl e + serve_stale (cache_cfg c)) (contents c)"
  unfolding reap_expired_def drop_keys_contents
proof (rule filter_cong [OF refl])
  fix p
  assume "p \<in> set (contents c)"
  then have "map_of (entries c) (fst p) = Some (snd p)"
    using contents_lookup [OF assms, of "fst p" "snd p"] by simp
  then show "(fst p \<notin> set (dead_keys c now)) =
      (case p of (k, e) \<Rightarrow> elapsed now e \<le> original_ttl e + serve_stale (cache_cfg c))"
    by (cases p) (simp add: dead_keys_iff [OF assms] entry_dead_iff not_less)
qed

lemma reap_expired_inv: "cache_inv c \<Longrightarrow> cache_inv (reap_expired c now)"
proof -
  assume inv: "cache_inv c"
  then have wf: "cache_wf (reap_expired c now)"
    by (simp add: cache_inv_def reap_expired_def drop_keys_wf)
  have "length (contents (reap_expired c now)) \<le> length (contents c)"
    by (simp only: reap_expired_def drop_keys_contents length_filter_le)
  with inv wf show ?thesis
    by (simp add: cache_inv_def cache_wf_length reap_expired_def drop_keys_cfg)
qed

subsection \<open>Reachable caches\<close>

lemma cache_step_inv: "cache_step c c' \<Longrightarrow> cache_inv c \<Longrightarrow> cache_inv c' \<and> cache_cfg c' = cache_cfg c"
proof (induction rule: cache_step.induct)
  case (step_lookup c k now r c')
  then show ?case using cache_lookup_inv cache_lookup_frame(1) by blast
next
  case (step_miss c m c' m')
  then have "c' = c\<lparr>cache_misses := cache_misses c + 1\<rparr>" by (simp add: record_miss_def)
  with step_miss show ?case by (simp add: cache_inv_def cache_wf_def)
next
  case (step_insert c k bs ttl now c')
  then show ?case using cache_insert_inv [of c k bs ttl now c'] by (auto simp: cache_inv_def)
next
  case (step_reap c now c')
  then show ?case using reap_expired_inv [of c now] by (auto simp: reap_expired_def drop_keys_cfg)
next
  case (step_clear c c')
  then show ?case by (auto simp: cache_clear_def cache_inv_def cache_wf_def)
qed

lemma load_entries_inv:
  "load_entries now snap c = Some c' \<Longrightarrow> cache_inv c \<Longrightarrow> cache_inv c' \<and> cache_cfg c' = cache_cfg c"
proof (induction now snap c rule: load_entries.induct)
  case (1 now c)
  then show ?case by simp
next
  case (2 now key bs ttl hc snap c)
  then obtain d where d: "cache_insert c key bs (from_secs ttl) now = Some d"
    by (auto split: option.splits)
  then have "cache_inv d" "cache_cfg d = cache_cfg c"
    using cache_insert_inv [OF _ d] 2(3) by (auto simp: cache_inv_def)
  then have "cache_inv (d\<lparr>entries := update_entry key (\<lambda>e. e\<lparr>hit_count := hc\<rparr>) (entries d)\<rparr>)"
    by (simp add: cache_inv_def cache_wf_def)
  with 2 d \<open>cache_cfg d = cache_cfg c\<close> show ?case by simp
qed

lemma load_snapshot_inv:
  assumes "load_snapshot now snap = Some c"
  shows "cache_inv c \<and> cache_cfg c
    = \<lparr>cache_size = max (length snap) 100, serve_stale = from_secs 30, prefetch = 0\<rparr>"
proof -
  let ?cfg = "\<lparr>cache_size = max (length snap) 100, serve_stale = from_secs 30, prefetch = 0\<rparr>"
  have "cache_inv (cache_new ?cfg)" "cache_cfg (cache_new ?cfg) = ?cfg"
    by (simp_all add: cache_inv_def cache_wf_new) (simp_all add: cache_new_def)
  then show ?thesis using load_entries_inv assms by (simp add: load_snapshot_def)
qed

lemma cache_reachable_inv: "cache_reachable cfg c \<Longrightarrow> cache_inv c \<and> cache_cfg c = cfg"
proof (induction rule: cache_reachable.induct)
  case reach_new
  show ?case by (simp add: cache_inv_def cache_wf_new) (simp add: cache_new_def)
next
  case (reach_load now snap c)
  then show ?case using load_snapshot_inv by blast
next
  case (reach_step c c')
  then show ?case using cache_step_inv by metis
qed

subsection \<open>The interface the forwarder relies on\<close>

lemma map_of_filter_neq: "x \<noteq> k \<Longrightarrow> map_of (filter (\<lambda>p. fst p \<noteq> k) q) x = map_of q x"
  by (induction q) auto

lemma map_of_filter_self: "map_of (filter (\<lambda>p. fst p \<noteq> k) q) k = None"
  by (induction q) auto

lemma fifo_insert_lookup:
  "map_of (fifo_insert n q k v) x
    = (if x = k then Some v else map_of (drop (Suc (length q) - n) q) x)"
  by (auto simp: fifo_insert_def map_of_filter_neq map_of_filter_self map_add_def split: option.split)

lemma fifo_insert_map:
  "map (\<lambda>(k, v). (k, f v)) (fifo_insert n q k v) = fifo_insert n (map (\<lambda>(k, v). (k, f v)) q) k (f v)"
  by (simp add: fifo_insert_def filter_map drop_map comp_def case_prod_beta')

locale fifo_cache =
  fixes ins :: "'c \<Rightarrow> 'k \<Rightarrow> 'b \<Rightarrow> 'i \<Rightarrow> 'c option"
    and look :: "'t \<Rightarrow> 'c \<Rightarrow> 'k \<Rightarrow> 'b option \<times> 'c"
    and queue :: "'c \<Rightarrow> ('k \<times> 'b) list"
    and cap :: "'c \<Rightarrow> nat"
    and invar :: "'c \<Rightarrow> bool"
  assumes ins_ok: "invar c \<Longrightarrow> 0 < cap c \<Longrightarrow>
      \<exists>c'. ins c k b i = Some c' \<and> invar c' \<and> cap c' = cap c
         \<and> queue c' = fifo_insert (cap c) (queue c) k b"
    and look_ok: "invar c \<Longrightarrow> look t c k = (r, c') \<Longrightarrow>
      r = map_of (queue c) k \<and> invar c' \<and> cap c' = cap c \<and> queue c' = queue c"
    and queue_distinct: "invar c \<Longrightarrow> distinct (map fst (queue c))"
    and queue_bound: "invar c \<Longrightarrow> length (queue c) \<le> cap c"
begin

lemma ins_look:
  assumes "invar c" "0 < cap c" "ins c k b i = Some c'"
  shows "fst (look t c' x) = (if x = k then Some b
    else map_of (drop (Suc (length (queue c)) - cap c) (queue c)) x)"
proof -
  have "invar c'" "queue c' = fifo_insert (cap c) (queue c) k b"
    using ins_ok [OF assms(1,2), of k b i] assms(3) by auto
  then show ?thesis
    using look_ok [of c' t x] by (cases "look t c' x") (simp add: fifo_insert_lookup)
qed

lemma ins_room:
  assumes "invar c" "length (queue c) < cap c" "ins c k b i = Some c'"
  shows "fst (look t c' x) = (if x = k then Some b else map_of (queue c) x)"
  using ins_look [OF assms(1) _ assms(3), of t x] assms(2) by auto

text \<open>At capacity the oldest insertion goes, however recently it was looked up.\<close>

lemma look_ins_evicts_oldest:
  assumes "invar c" "queue c = (k, b) # q" "length (queue c) = cap c"
    and "look t c k = (r, c1)" "ins c1 k' b' i = Some c2" "k' \<noteq> k"
  shows "r = Some b" "fst (look t' c2 k) = None"
proof -
  have c1: "r = map_of (queue c) k" "invar c1" "cap c1 = cap c" "queue c1 = queue c"
    using look_ok [OF assms(1,4)] by auto
  then show "r = Some b" using assms(2) by simp
  have "distinct (map fst (queue c))" using queue_distinct assms(1) .
  then have "map_of q k = None" using assms(2) by (simp add: map_of_eq_None_iff)
  moreover have "0 < cap c" using assms(2,3) by (metis length_greater_0_conv list.discI)
  ultimately show "fst (look t' c2 k) = None"
    using ins_look [OF c1(2) _ assms(5), of t' k] c1 assms(2,3,6) by (simp del: length_Cons)
qed

end

definition cache_payload :: "cache \<Rightarrow> (cache_key \<times> bytes) list" where
  "cache_payload c = map (\<lambda>(k, e). (k, response_bytes e)) (contents c)"

definition cache_ins :: "cache \<Rightarrow> cache_key \<Rightarrow> bytes \<Rightarrow> nat \<times> nat \<Rightarrow> cache option" where
  "cache_ins c k b i = cache_insert c k b (fst i) (snd i)"

definition cache_look :: "nat \<Rightarrow> cache \<Rightarrow> cache_key \<Rightarrow> bytes option \<times> cache" where
  "cache_look now c k = (let (r, c') = cache_lookup c k now in (map_option fst r, c'))"

lemma map_of_map_snd: "map_of (map (\<lambda>(k, v). (k, f v)) q) x = map_option f (map_of q x)"
  by (induction q) auto

lemma cache_payload_lookup:
  assumes "cache_wf c" "cache_lookup c k now = (r, c')"
  shows "cache_payload c' = cache_payload c"
proof -
  have wf': "cache_wf c'" and ord: "access_order c' = access_order c"
    using cache_lookup_wf cache_lookup_frame assms by auto
  have "response_bytes (the (map_of (entries c') x)) = response_bytes (the (map_of (entries c) x))"
    if x: "x \<in> set (access_order c)" for x
  proof -
    obtain e where "map_of (entries c) x = Some e"
      using x cache_wf_dom [OF assms(1)] by (metis domD)
    then show ?thesis by (cases "x = k") (simp_all add: cache_lookup_entries [OF assms(2)])
  qed
  then show ?thesis by (simp add: cache_payload_def contents_def ord)
qed

interpretation resp_cache: fifo_cache cache_ins cache_look cache_payload
  "\<lambda>c. cache_size (cache_cfg c)" cache_inv
proof
  fix c k b i
  assume "cache_inv c" "0 < cache_size (cache_cfg c)"
  then obtain c' where "cache_insert c k b (fst i) (snd i) = Some c'" "cache_inv c'"
    "contents c' = fifo_insert (cache_size (cache_cfg c)) (contents c) k (new_entry b (fst i) (snd i))"
    "cache_cfg c' = cache_cfg c"
    using cache_insert_spec [of c k b "fst i" "snd i"] by (auto simp: cache_inv_def)
  then show "\<exists>c'. cache_ins c k b i = Some c' \<and> cache_inv c'
      \<and> cache_size (cache_cfg c') = cache_size (cache_cfg c)
      \<and> cache_payload c' = fifo_insert (cache_size (cache_cfg c)) (cache_payload c) k b"
    by (simp add: cache_ins_def cache_payload_def fifo_insert_map new_entry_def)
next
  fix c t k r c'
  assume inv: "cache_inv c" and look: "cache_look t c k = (r, c')"
  obtain r' where r': "cache_lookup c k t = (r', c')" "r = map_option fst r'"
    using look by (auto simp: cache_look_def split: prod.splits)
  have "r' = fst (cache_lookup c k t)" using r'(1) by simp
  then have "r = map_of (cache_payload c) k"
    using inv r'(2) by (simp add: cache_lookup_result cache_payload_def map_of_map_snd
        map_of_contents cache_inv_def option.map_comp comp_def)
  then show "r = map_of (cache_payload c) k \<and> cache_inv c'
      \<and> cache_size (cache_cfg c') = cache_size (cache_cfg c) \<and> cache_payload c' = cache_payload c"
    using cache_lookup_frame(1) [OF r'(1)] cache_lookup_inv [OF r'(1)]
      cache_payload_lookup [OF _ r'(1)] inv by (simp add: cache_inv_def)
next
  fix c
  assume inv: "cache_inv c"
  have fst: "map fst (cache_payload c) = access_order c"
    by (simp add: cache_payload_def contents_def comp_def)
  then show "distinct (map fst (cache_payload c))"
    using inv by (simp add: cache_inv_def cache_wf_def)
  show "length (cache_payload c) \<le> cache_size (cache_cfg c)"
    using inv cache_wf_length [of c] by (simp add: cache_payload_def cache_inv_def)
qed

subsection \<open>Persistence\<close>

definition restored :: "nat \<Rightarrow> saved_record \<Rightarrow> cache_key \<times> cache_entry" where
  "restored now r = (case r of (k, b, t, h) \<Rightarrow> (k, (new_entry b (from_secs t) now)\<lparr>hit_count := h\<rparr>))"

lemma fst_restored [simp]: "fst (restored now r) = fst r"
  by (simp add: restored_def split: prod.split)

lemma map_fst_restored [simp]: "map fst (map (restored now) snap) = map fst snap"
  by simp

lemma restored_None_iff: "map_of (map (restored now) snap) k = None \<longleftrightarrow> k \<notin> fst ` set snap"
  by (simp add: map_of_eq_None_iff image_image)

lemma load_entries_spec:
  assumes "cache_inv c" "length (entries c) + length snap \<le> cache_size (cache_cfg c)"
    and "distinct (map fst snap)" "fst ` set snap \<inter> set (access_order c) = {}"
  shows "\<exists>c'. load_entries now snap c = Some c' \<and> cache_inv c' \<and> cache_cfg c' = cache_cfg c
    \<and> access_order c' = access_order c @ map fst snap
    \<and> map_of (entries c') = map_of (entries c) ++ map_of (map (restored now) snap)"
  using assms
proof (induction snap arbitrary: c)
  case Nil
  then show ?case by simp
next
  case (Cons s snap)
  obtain k b t h where s: "s = (k, b, t, h)" by (cases s)
  have room: "length (entries c) < cache_size (cache_cfg c)" using Cons.prems(2) by simp
  have wf: "cache_wf c" using Cons.prems(1) by (simp add: cache_inv_def)
  have fresh: "k \<notin> set (access_order c)" using Cons.prems(4) s by simp
  let ?e = "new_entry b (from_secs t) now"
  let ?c1 = "put_entry c k ?e"
  have ins: "cache_insert c k b (from_secs t) now = Some ?c1"
    using room by (simp add: cache_insert_def evict_while_full.simps)
  let ?c2 = "?c1\<lparr>entries := update_entry k (\<lambda>e. e\<lparr>hit_count := h\<rparr>) (entries ?c1)\<rparr>"
  have ord2: "access_order ?c2 = access_order c @ [k]"
    using put_entry_order [OF wf] fresh by (simp add: filter_id_notin)
  have wf2: "cache_wf ?c2"
    using put_entry_wf [OF wf, of k ?e] by (simp add: cache_wf_def)
  have len2: "length (entries ?c2) \<le> Suc (length (entries c))"
    using put_entry_length [of c k ?e] by simp
  have inv2: "cache_inv ?c2" using wf2 len2 room by (simp add: cache_inv_def)
  have knew: "k \<notin> fst ` set snap" using Cons.prems(3) s by simp
  obtain c' where c': "load_entries now snap ?c2 = Some c'" "cache_inv c'" "cache_cfg c' = cache_cfg c"
    "access_order c' = access_order ?c2 @ map fst snap"
    "map_of (entries c') = map_of (entries ?c2) ++ map_of (map (restored now) snap)"
    using Cons.IH [of ?c2] inv2 len2 Cons.prems ord2 s by auto
  have "load_entries now (s # snap) c = Some c'" using c'(1) ins by (simp add: s)
  moreover have "access_order c' = access_order c @ map fst (s # snap)" using c'(4) ord2 by (simp add: s)
  moreover have "map_of (entries c') = map_of (entries c) ++ map_of (map (restored now) (s # snap))"
    using c'(5) restored_None_iff [of now snap k] knew
    by (auto simp: map_of_update_entry s restored_def map_add_def fun_eq_iff split: option.split)
  ultimately show ?case using c'(2,3) by blast
qed

lemma load_snapshot_spec:
  assumes "distinct (map fst snap)"
  shows "\<exists>c'. load_snapshot now snap = Some c' \<and> cache_inv c'
    \<and> cache_cfg c' = \<lparr>cache_size = max (length snap) 100, serve_stale = from_secs 30, prefetch = 0\<rparr>
    \<and> access_order c' = map fst snap
    \<and> map_of (entries c') = map_of (map (restored now) snap)"
proof -
  let ?cfg = "\<lparr>cache_size = max (length snap) 100, serve_stale = from_secs 30, prefetch = 0\<rparr>"
  have new: "entries (cache_new ?cfg) = []" "access_order (cache_new ?cfg) = []"
    "cache_cfg (cache_new ?cfg) = ?cfg"
    by (simp_all add: cache_new_def)
  have inv: "cache_inv (cache_new ?cfg)"
    by (simp add: cache_inv_def cache_wf_new new)
  show ?thesis
    using load_entries_spec [OF inv, of snap now] assms by (simp add: load_snapshot_def new)
qed

lemma is_snapshot_set:
  assumes "cache_wf c" "is_snapshot c snap"
  shows "set snap = set (snapshot c)"
proof -
  have sub: "set snap \<subseteq> set (snapshot c)" using assms(2) by (auto simp: is_snapshot_def list_all_iff)
  have "distinct snap" using assms(2) by (auto simp: is_snapshot_def distinct_map)
  moreover have "distinct (map fst (snapshot c))"
    using assms(1) by (simp add: snapshot_def save_entry_def cache_wf_def comp_def)
  then have "distinct (snapshot c)" by (simp add: distinct_map)
  ultimately have "card (set snap) = card (set (snapshot c))"
    using assms(2) by (simp add: is_snapshot_def distinct_card)
  with sub show ?thesis by (simp add: card_subset_eq)
qed

lemma snapshot_entry:
  assumes "cache_wf c" "is_snapshot c snap"
  shows "map_of (map (restored now) snap) k
    = map_option (\<lambda>e. (new_entry (response_bytes e) (from_secs (as_secs (original_ttl e))) now)
        \<lparr>hit_count := hit_count e\<rparr>) (map_of (entries c) k)"
proof -
  have set: "set snap = save_entry ` set (entries c)"
    using is_snapshot_set [OF assms] by (simp add: snapshot_def)
  have dl: "distinct (map fst (map (restored now) snap))"
    using assms(2) by (simp add: is_snapshot_def comp_def)
  show ?thesis
  proof (cases "map_of (entries c) k")
    case None
    then have "k \<notin> fst ` set snap"
      by (simp add: set image_image save_entry_def map_of_eq_None_iff)
    with None show ?thesis by (simp add: restored_None_iff)
  next
    case (Some e)
    then have "save_entry (k, e) \<in> set snap"
      using set map_of_SomeD by fast
    then have "(k, snd (restored now (save_entry (k, e)))) \<in> set (map (restored now) snap)"
      by (force simp: restored_def save_entry_def)
    then have "map_of (map (restored now) snap) k = Some (snd (restored now (save_entry (k, e))))"
      by (rule map_of_is_SomeI [OF dl])
    then show ?thesis
      using Some by (simp add: restored_def save_entry_def)
  qed
qed

subsection \<open>Sequences of counted lookups\<close>

fun lookups_with_metrics ::
  "cache \<Rightarrow> metrics_registry \<Rightarrow> (cache_key \<times> nat) list \<Rightarrow> cache \<times> metrics_registry" where
  "lookups_with_metrics c m [] = (c, m)"
| "lookups_with_metrics c m ((k, now) # ks) =
     (case lookup_with_metrics c m k now of (r, c', m') \<Rightarrow> lookups_with_metrics c' m' ks)"

lemma lookup_with_metrics_counts:
  assumes "metrics_populated m" "lookup_with_metrics c m k now = (r, c', m')"
  shows "metrics_populated m'"
    "cache_hits c' + cache_misses c' = cache_hits c + cache_misses c + 1"
    "metrics_read m' CacheHitsTotal - metrics_read m CacheHitsTotal = cache_hits c' - cache_hits c"
    "metrics_read m' CacheMissesTotal - metrics_read m CacheMissesTotal = cache_misses c' - cache_misses c"
    "dom (map_of (entries c')) = dom (map_of (entries c))"
  using assms by (auto simp: lookup_with_metrics_def cache_lookup_def record_miss_def Let_def
      registry.read_incr registry.invar_incr map_of_update_entry dom_def split: option.splits if_splits)

lemma lookups_with_metrics_counts:
  assumes "metrics_populated m" "lookups_with_metrics c m ks = (c', m')"
  shows "metrics_read m' CacheHitsTotal - metrics_read m CacheHitsTotal = cache_hits c' - cache_hits c"
    "metrics_read m' CacheMissesTotal - metrics_read m CacheMissesTotal = cache_misses c' - cache_misses c"
    "cache_hits c' + cache_misses c' = cache_hits c + cache_misses c + of_nat (length ks)"
proof -
  have "metrics_read m' CacheHitsTotal - metrics_read m CacheHitsTotal = cache_hits c' - cache_hits c
    \<and> metrics_read m' CacheMissesTotal - metrics_read m CacheMissesTotal = cache_misses c' - cache_misses c
    \<and> cache_hits c' + cache_misses c' = cache_hits c + cache_misses c + of_nat (length ks)"
    using assms
  proof (induction c m ks rule: lookups_with_metrics.induct)
    case (1 c m)
    then show ?case by simp
  next
    case (2 c m k now ks)
    obtain r c1 m1 where one: "lookup_with_metrics c m k now = (r, c1, m1)"
      using prod_cases3 by blast
    note step = lookup_with_metrics_counts [OF 2(2) one]
    have IH: "metrics_read m' CacheHitsTotal - metrics_read m1 CacheHitsTotal = cache_hits c' - cache_hits c1"
      "metrics_read m' CacheMissesTotal - metrics_read m1 CacheMissesTotal = cache_misses c' - cache_misses c1"
      "cache_hits c' + cache_misses c' = cache_hits c1 + cache_misses c1 + of_nat (length ks)"
      using 2(1) [OF one [symmetric] refl step(1)] 2(3) one by simp_all
    show ?case
      using IH step(2-4) by (simp add: diff_eq_eq)
  qed
  then show "metrics_read m' CacheHitsTotal - metrics_read m CacheHitsTotal = cache_hits c' - cache_hits c"
    "metrics_read m' CacheMissesTotal - metrics_read m CacheMissesTotal = cache_misses c' - cache_misses c"
    "cache_hits c' + cache_misses c' = cache_hits c + cache_misses c + of_nat (length ks)"
    by simp_all
qed

subsection \<open>Prefetching\<close>

lemma prefetch_product:
  assumes "unat (p :: u32) * unat (h :: u64) < 2 ^ 64"
  shows "unat ((ucast p :: u64) * h) = unat p * unat h"
proof -
  have "unat (ucast p :: u64) = unat p"
    using unsigned_less [where 'a = nat, of p] by (simp add: unsigned_ucast_eq take_bit_nat_eq_self)
  then show ?thesis using assms by (simp add: unat_word_ariths)
qed

subsection \<open>Correctness of the cache\<close>

text \<open>
  C6. Refinement: seen through \<open>contents\<close> (the entries in insertion order), an insertion
  into any reachable cache of positive size returns, and is the insertion into a bounded
  first-in first-out queue: the oldest entries beyond the capacity go, the key's old entry
  goes, and the new entry comes last.
\<close>

theorem cache_insert_refines_fifo:
  assumes "cache_reachable cfg c" "0 < cache_size cfg"
  shows "\<exists>c'. cache_insert c k bs ttl now = Some c' \<and> cache_reachable cfg c'
    \<and> contents c' = fifo_insert (cache_size cfg) (contents c) k (new_entry bs ttl now)
    \<and> cache_hits c' = cache_hits c \<and> cache_misses c' = cache_misses c"
proof -
  have inv: "cache_wf c" "cache_cfg c = cfg"
    using cache_reachable_inv [OF assms(1)] by (simp_all add: cache_inv_def)
  obtain c' where c': "cache_insert c k bs ttl now = Some c'"
    "contents c' = fifo_insert (cache_size cfg) (contents c) k (new_entry bs ttl now)"
    "cache_hits c' = cache_hits c" "cache_misses c' = cache_misses c"
    using cache_insert_spec [of c k bs ttl now] inv assms(2) by auto
  have "cache_reachable cfg c'" using reach_step [OF assms(1) step_insert [OF c'(1)]] .
  with c' show ?thesis by blast
qed

definition demo_key :: "string \<Rightarrow> cache_key" where
  "demo_key q = \<lparr>key_qname = q, key_qtype = 1, key_client_subnet = None\<rparr>"

definition demo_cfg :: "nat \<Rightarrow> cache_config" where
  "demo_cfg n = \<lparr>cache_size = n, serve_stale = from_secs 30, prefetch = 2\<rparr>"

definition demo_cache :: cache where
  "demo_cache = put_entry (put_entry (cache_new (demo_cfg 2)) (demo_key ''a'') (new_entry [1] 60 0))
     (demo_key ''b'') (new_entry [2] 60 1)"

lemma demo_cache_reachable: "cache_reachable (demo_cfg 2) demo_cache"
proof -
  let ?c0 = "cache_new (demo_cfg 2)"
  let ?c1 = "put_entry ?c0 (demo_key ''a'') (new_entry [1] 60 0)"
  have "cache_insert ?c0 (demo_key ''a'') [1] 60 0 = Some ?c1"
    by (simp add: cache_insert_def evict_while_full.simps cache_new_def demo_cfg_def)
  then have r1: "cache_reachable (demo_cfg 2) ?c1" by (rule reach_step [OF reach_new step_insert])
  have "cache_insert ?c1 (demo_key ''b'') [2] 60 1 = Some demo_cache"
    by (simp add: cache_insert_def evict_while_full.simps cache_new_def demo_cfg_def demo_cache_def
        put_entry_def)
  then show ?thesis by (rule reach_step [OF r1 step_insert])
qed

theorem cache_insert_refines_fifo_witness:
  "cache_reachable (demo_cfg 2) demo_cache \<and> 0 < cache_size (demo_cfg 2)
    \<and> (\<exists>c'. cache_insert demo_cache (demo_key ''c'') [3] 60 2 = Some c'
        \<and> map fst (contents c') = [demo_key ''b'', demo_key ''c''])"
  using cache_insert_refines_fifo [OF demo_cache_reachable, of "demo_key ''c''" "[3]" 60 2] demo_cache_reachable
  by (auto simp: fifo_insert_def demo_cfg_def demo_cache_def contents_def put_entry_def cache_new_def demo_key_def)

text \<open>
  C9. Invariant: in every cache that the operations can reach from a new one, no key occurs
  twice, the access order lists exactly the stored keys, and the configured size bounds
  the number of entries.
\<close>

theorem cache_reachable_bounded:
  assumes "cache_reachable cfg c"
  shows "cache_len c \<le> cache_size cfg \<and> distinct (map fst (entries c)) \<and> distinct (access_order c)
    \<and> set (access_order c) = fst ` set (entries c) \<and> cache_cfg c = cfg"
  using cache_reachable_inv [OF assms] by (auto simp: cache_inv_def cache_wf_def cache_len_def)

theorem cache_reachable_bounded_witness:
  "cache_reachable (demo_cfg 2) demo_cache \<and> cache_len demo_cache = 2 \<and> cache_len demo_cache \<le> cache_size (demo_cfg 2)"
  using cache_reachable_bounded [OF demo_cache_reachable] demo_cache_reachable
  by (simp add: demo_cache_def put_entry_def cache_new_def demo_key_def cache_len_def)

text \<open>
  C20. Termination: an insertion into a reachable cache returns exactly when the configured
  size is positive; with size zero the eviction loop never ends.
\<close>

theorem cache_insert_returns_iff:
  assumes "cache_reachable cfg c"
  shows "(\<exists>c'. cache_insert c k bs ttl now = Some c') \<longleftrightarrow> 0 < cache_size cfg"
  using cache_reachable_inv [OF assms] cache_insert_None_iff [of c k bs ttl now]
  by (auto simp: cache_inv_def)

theorem cache_insert_returns_iff_witness:
  "cache_reachable (demo_cfg 0) (cache_new (demo_cfg 0))
    \<and> cache_insert (cache_new (demo_cfg 0)) (demo_key ''a'') [1] 60 0 = None"
  using cache_insert_returns_iff [OF reach_new, of "demo_cfg 0" "demo_key ''a''" "[1]" 60 0] reach_new
  by (auto simp: demo_cfg_def)

text \<open>
  The eviction order is insertion order: at capacity, an entry that has just been looked
  up is still the one that the next insertion of another key evicts when it is the
  oldest insertion.
\<close>

theorem cache_lookup_does_not_protect:
  assumes "cache_reachable cfg c" "contents c = (k, e) # q" "cache_len c = cache_size cfg"
    and "cache_lookup c k now = (r, c1)" "cache_insert c1 k' bs ttl now' = Some c2" "k' \<noteq> k"
  shows "map_option fst r = Some (response_bytes e) \<and> fst (cache_lookup c2 k now'') = None"
proof -
  have inv: "cache_inv c" "cache_cfg c = cfg" using cache_reachable_inv [OF assms(1)] by auto
  have pay: "cache_payload c = (k, response_bytes e) # map (\<lambda>(k, e). (k, response_bytes e)) q"
    using assms(2) by (simp add: cache_payload_def)
  have len: "length (cache_payload c) = cache_size (cache_cfg c)"
    using assms(3) inv cache_wf_length [of c] by (simp add: cache_payload_def cache_len_def cache_inv_def)
  have look: "cache_look now c k = (map_option fst r, c1)" using assms(4) by (simp add: cache_look_def)
  have ins: "cache_ins c1 k' bs (ttl, now') = Some c2" using assms(5) by (simp add: cache_ins_def)
  have "map_option fst r = Some (response_bytes e)" "fst (cache_look now'' c2 k) = None"
    using resp_cache.look_ins_evicts_oldest [OF inv(1) pay len look ins assms(6)] by auto
  then show ?thesis by (simp add: cache_look_def split: prod.splits)
qed

theorem cache_lookup_does_not_protect_witness:
  "\<exists>r c1 c2. cache_lookup demo_cache (demo_key ''a'') 5 = (r, c1)
    \<and> cache_insert c1 (demo_key ''c'') [3] 60 6 = Some c2
    \<and> map_option fst r = Some [1] \<and> fst (cache_lookup c2 (demo_key ''a'') 7) = None"
proof -
  obtain r c1 where l: "cache_lookup demo_cache (demo_key ''a'') 5 = (r, c1)" by fastforce
  have r1: "cache_reachable (demo_cfg 2) c1" using reach_step [OF demo_cache_reachable step_lookup [OF l]] .
  obtain c2 where i: "cache_insert c1 (demo_key ''c'') [3] 60 6 = Some c2"
    using cache_insert_spec [of c1 "demo_key ''c''" "[3]" 60 6] cache_reachable_inv [OF r1]
    by (auto simp: cache_inv_def demo_cfg_def)
  have c: "contents demo_cache = [(demo_key ''a'', new_entry [1] 60 0), (demo_key ''b'', new_entry [2] 60 1)]"
    "cache_len demo_cache = cache_size (demo_cfg 2)"
    by (simp_all add: contents_def demo_cache_def put_entry_def cache_new_def demo_key_def cache_len_def demo_cfg_def)
  have "demo_key ''c'' \<noteq> demo_key ''a''" by (simp add: demo_key_def)
  then have "map_option fst r = Some [1] \<and> fst (cache_lookup c2 (demo_key ''a'') 7) = None"
    using cache_lookup_does_not_protect [OF demo_cache_reachable c l i, of 7] by (simp add: new_entry_def)
  with l i show ?thesis by blast
qed

text \<open>
  C21. Round trip: after an insertion at time \<open>t\<close> a lookup of the same key at any later time
  \<open>now\<close> returns the inserted bytes with hit count one, however old the entry is; the
  stale flag is set exactly within the serve-stale window after the time to live. An
  entry past that window is served too, with the flag clear.
\<close>

theorem cache_insert_lookup:
  assumes "cache_reachable cfg c" "cache_insert c k bs ttl t = Some c'"
  shows "fst (cache_lookup c' k now)
    = Some (bs, ttl \<le> now - t \<and> now - t \<le> ttl + serve_stale cfg, 1)"
proof -
  have inv: "cache_wf c" "cache_cfg c = cfg"
    using cache_reachable_inv [OF assms(1)] by (simp_all add: cache_inv_def)
  have "cache_cfg c' = cfg" using cache_insert_inv [OF inv(1) assms(2)] inv(2) by simp
  moreover have "map_of (entries c') k = Some (new_entry bs ttl t)"
    using assms(2) by (auto simp: cache_insert_def)
  ultimately show ?thesis
    by (auto simp: cache_lookup_result new_entry_def entry_is_stale_def entry_is_expired_def
        ttl_remaining_def elapsed_def)
qed

theorem cache_insert_lookup_witness:
  "\<exists>c'. cache_insert (cache_new (demo_cfg 2)) (demo_key ''a'') [1] (from_secs 60) 0 = Some c'
    \<and> fst (cache_lookup c' (demo_key ''a'') (from_secs 1000)) = Some ([1], False, 1)"
proof -
  obtain c' where "cache_insert (cache_new (demo_cfg 2)) (demo_key ''a'') [1] (from_secs 60) 0 = Some c'"
    using cache_insert_spec [OF cache_wf_new, of "demo_cfg 2" "demo_key ''a''" "[1]" "from_secs 60" 0]
    by (auto simp: demo_cfg_def cache_new_def)
  then show ?thesis
    using cache_insert_lookup [OF reach_new, of "demo_cfg 2" "demo_key ''a''" "[1]" "from_secs 60" 0 c' "from_secs 1000"]
    by (auto simp: from_secs_def demo_cfg_def)
qed

text \<open>
  Reaping removes exactly the entries older than their time to live plus the serve-stale
  window, keeps the others in their order and stays reachable.
\<close>

theorem cache_reap_exact:
  assumes "cache_reachable cfg c"
  shows "contents (reap_expired c now)
      = filter (\<lambda>(k, e). now - inserted_at e \<le> original_ttl e + serve_stale cfg) (contents c)
    \<and> cache_reachable cfg (reap_expired c now)"
proof -
  have "cache_wf c" "cache_cfg c = cfg" using cache_reachable_inv [OF assms] by (simp_all add: cache_inv_def)
  then show ?thesis
    using reap_expired_contents [of c now] reach_step [OF assms step_reap [OF refl]]
    by (simp add: elapsed_def)
qed

theorem cache_reap_exact_witness:
  "cache_reachable (demo_cfg 2) demo_cache
    \<and> map fst (contents (reap_expired demo_cache (from_secs 30 + 61))) = [demo_key ''b'']"
  using cache_reap_exact [OF demo_cache_reachable, of "from_secs 30 + 61"] demo_cache_reachable
  by (simp add: contents_def demo_cache_def put_entry_def cache_new_def demo_key_def demo_cfg_def new_entry_def)

text \<open>
  Saving and loading: whatever order the hash map lists the entries in, and whenever the
  JSON decoder inverts the encoder on that listing and the encoded text is well formed,
  loading the saved file gives back every key with its response and hit count, and with
  its time to live cut to whole seconds and started afresh at the time of loading; the
  configuration is not kept: the size is the number of entries (at least 100), the
  serve-stale window 30 seconds and prefetching is off.
\<close>

lemma cache_save_load:
  assumes "cache_reachable cfg c" "is_snapshot c snap"
    and codec: "to_json snap = Inr text" "from_json text = Inr snap" "utf8_valid (map code text)"
    and saved: "save_to_file to_json snap fs path = (Inr (), fs')"
  shows "\<exists>c'. load_from_file from_json now fs' path = Inr (Some c')
    \<and> cache_cfg c' = \<lparr>cache_size = max (cache_len c) 100, serve_stale = from_secs 30, prefetch = 0\<rparr>
    \<and> cache_reachable (cache_cfg c') c'
    \<and> (\<forall>k. map_of (entries c') k = map_option (\<lambda>e.
          \<lparr>response_bytes = response_bytes e, inserted_at = now,
           original_ttl = from_secs (as_secs (original_ttl e)), hit_count = hit_count e,
           last_access = now\<rparr>) (map_of (entries c) k))"
proof -
  have wf: "cache_wf c" using cache_reachable_inv [OF assms(1)] by (simp add: cache_inv_def)
  have "distinct (map fst snap)" using assms(2) by (simp add: is_snapshot_def)
  then obtain c' where c': "load_snapshot now snap = Some c'"
    "cache_cfg c' = \<lparr>cache_size = max (length snap) 100, serve_stale = from_secs 30, prefetch = 0\<rparr>"
    "map_of (entries c') = map_of (map (restored now) snap)"
    using load_snapshot_spec by blast
  have "read_to_string fs' path = Inr text"
    using saved codec read_after_write by (simp add: save_to_file_def)
  then have "load_from_file from_json now fs' path = Inr (Some c')"
    by (simp add: load_from_file_def codec c'(1))
  moreover have "length snap = cache_len c"
    using assms(2) by (simp add: is_snapshot_def snapshot_def cache_len_def)
  ultimately show ?thesis
    using c' reach_load [OF c'(1)] snapshot_entry [OF wf assms(2)]
    by (simp add: new_entry_def)
qed

text \<open>
  Counting: over any sequence of counted lookups the process-wide hit and miss counters
  grow by exactly what the cache's own counters grow, modulo \<open>2 ^ 64\<close>, and every
  lookup is counted once, as a hit or as a miss.
\<close>

theorem cache_metrics_in_sync:
  assumes "metrics_populated m" "lookups_with_metrics c m ks = (c', m')"
  shows "metrics_read m' CacheHitsTotal - metrics_read m CacheHitsTotal = cache_hits c' - cache_hits c
    \<and> metrics_read m' CacheMissesTotal - metrics_read m CacheMissesTotal = cache_misses c' - cache_misses c
    \<and> (cache_hits c' - cache_hits c) + (cache_misses c' - cache_misses c) = of_nat (length ks)"
  using lookups_with_metrics_counts [OF assms] by (simp add: algebra_simps)

theorem cache_metrics_in_sync_witness:
  "metrics_populated metrics_new
    \<and> (\<exists>c' m'. lookups_with_metrics demo_cache metrics_new [(demo_key ''a'', 3), (demo_key ''z'', 4)] = (c', m')
      \<and> (cache_hits c' - cache_hits demo_cache) + (cache_misses c' - cache_misses demo_cache) = 2)"
proof -
  obtain c' m' where r: "lookups_with_metrics demo_cache metrics_new
      [(demo_key ''a'', 3), (demo_key ''z'', 4)] = (c', m')" by fastforce
  then show ?thesis
    using cache_metrics_in_sync [OF metrics_new_populated r] metrics_new_populated by auto
qed

text \<open>
  C27. Prefetching: as long as the product of the prefetch factor and the hit count fits in
  64 bits, a key is due exactly when it is stored, both are positive, and fewer seconds
  than that product remain of its time to live.
\<close>

theorem cache_should_prefetch_iff:
  assumes "map_of (entries c) k = Some e"
    and "unat (prefetch (cache_cfg c)) * unat (hit_count e) < 2 ^ 64"
  shows "should_prefetch c k now \<longleftrightarrow> 0 < prefetch (cache_cfg c) \<and> 0 < hit_count e
    \<and> original_ttl e < (now - inserted_at e)
        + from_secs (unat (prefetch (cache_cfg c)) * unat (hit_count e))"
proof (cases "prefetch (cache_cfg c) = 0")
  case True
  then show ?thesis by (simp add: should_prefetch_def)
next
  case False
  let ?th = "from_secs (unat (prefetch (cache_cfg c)) * unat (hit_count e))"
  have "0 < ?th \<longleftrightarrow> hit_count e \<noteq> 0" using False by (simp add: from_secs_def unat_gt_0)
  moreover have "should_prefetch c k now \<longleftrightarrow> ttl_remaining now e < ?th"
    using False assms(1) prefetch_product [OF assms(2)] by (simp add: should_prefetch_def)
  moreover have "ttl_remaining now e < ?th \<longleftrightarrow> 0 < ?th \<and> original_ttl e < (now - inserted_at e) + ?th"
    by (auto simp: ttl_remaining_def elapsed_def)
  ultimately show ?thesis using False by (simp add: word_gt_0)
qed

theorem cache_should_prefetch_iff_witness:
  "let e = (new_entry [1] (from_secs 60) 0)\<lparr>hit_count := 3\<rparr>;
       c = put_entry (cache_new (demo_cfg 2)) (demo_key ''a'') e
   in should_prefetch c (demo_key ''a'') (from_secs 55) \<and> \<not> should_prefetch c (demo_key ''a'') (from_secs 54)"
proof -
  let ?e = "(new_entry [1] (from_secs 60) 0)\<lparr>hit_count := 3\<rparr>"
  let ?c = "put_entry (cache_new (demo_cfg 2)) (demo_key ''a'') ?e"
  have m: "map_of (entries ?c) (demo_key ''a'') = Some ?e" by simp
  have p: "unat (prefetch (cache_cfg ?c)) * unat (hit_count ?e) < 2 ^ 64"
    "unat (prefetch (cache_cfg ?c)) = 2" "0 < prefetch (cache_cfg ?c)"
    by (simp_all add: cache_new_def demo_cfg_def)
  show ?thesis
    using cache_should_prefetch_iff [OF m p(1), of "from_secs 55"]
      cache_should_prefetch_iff [OF m p(1), of "from_secs 54"] p
    by (simp add: new_entry_def from_secs_def word_gt_0)
qed

end
