(* ===== verification/Blocklist.thy ===== *)
theory Blocklist
  imports NetAddr FileSys
begin

text \<open>
  The blocklist loader and matcher of \<open>src/core/filter/blocklist.rs\<close>. The hash
  sets are sets of strings. Fetching a URL is the parameter \<open>fetch_url\<close>; the local
  files are those of the file system. A source is fetched at most once in a load, so a
  function from sources to texts loses nothing.
\<close>

subsection \<open>Normalisation and line syntax\<close>

definition normalize :: "string \<Rightarrow> string" where
  "normalize name = to_ascii_lowercase (trim_end_matches (CHR ''.'') name)"

definition is_url :: "string \<Rightarrow> bool" where
  "is_url s = (starts_with ''http://'' s \<or> starts_with ''https://'' s)"

definition is_meta_source :: "string \<Rightarrow> bool" where
  "is_meta_source s = (is_url s \<or> starts_with ''/'' s)"

definition rejected_name :: "string \<Rightarrow> bool" where
  "rejected_name name =
     (name = [] \<or> name = ''localhost'' \<or> name = ''localhost.localdomain'' \<or> CHR ''/'' \<in> set name)"

definition parse_hosts_line :: "string \<Rightarrow> string option" where
  "parse_hosts_line line =
     (let trimmed = trim line
      in if trimmed = [] \<or> starts_with ''#'' trimmed then None
         else case (case strip_prefix ''||'' trimmed of
                      Some s \<Rightarrow> Some s | None \<Rightarrow> strip_prefix ''@@||'' trimmed) of
             Some stripped \<Rightarrow>
               (case split_whitespace (trim_end_matches (CHR ''^'') stripped) of
                  [] \<Rightarrow> None
                | name # _ \<Rightarrow> if rejected_name name then None else Some (normalize name))
           | None \<Rightarrow>
               (case split_whitespace trimmed of
                  [] \<Rightarrow> None
                | first # parts \<Rightarrow>
                    if is_url first then None
                    else if parse_ip first = None then None
                    else (case parts of
                        [] \<Rightarrow> None
                      | name # _ \<Rightarrow> if rejected_name name then None else Some (normalize name))))"

subsection \<open>The two lists\<close>

record blocklist =
  bl_entries :: "string set"

record allowlist =
  al_entries :: "string set"

definition blocklist_new :: blocklist where
  "blocklist_new = \<lparr>bl_entries = {}\<rparr>"

definition blocklist_len :: "blocklist \<Rightarrow> nat" where
  "blocklist_len bl = card (bl_entries bl)"

definition blocklist_is_empty :: "blocklist \<Rightarrow> bool" where
  "blocklist_is_empty bl = (bl_entries bl = {})"

definition allowlist_new :: allowlist where
  "allowlist_new = \<lparr>al_entries = {}\<rparr>"

definition allowlist_len :: "allowlist \<Rightarrow> nat" where
  "allowlist_len al = card (al_entries al)"

definition allowlist_is_empty :: "allowlist \<Rightarrow> bool" where
  "allowlist_is_empty al = (al_entries al = {})"

definition blocklist_insert :: "blocklist \<Rightarrow> string \<Rightarrow> blocklist" where
  "blocklist_insert bl name =
     (let n = normalize name in if n \<noteq> [] then bl\<lparr>bl_entries := insert n (bl_entries bl)\<rparr> else bl)"

definition parse_hosts :: "blocklist \<Rightarrow> string \<Rightarrow> blocklist" where
  "parse_hosts bl text =
     foldl (\<lambda>bl line. case parse_hosts_line line of
              Some name \<Rightarrow> bl\<lparr>bl_entries := insert name (bl_entries bl)\<rparr>
            | None \<Rightarrow> bl) bl (lines text)"

text \<open>The matching loop: the name itself, then what follows its first dot, and so on.\<close>

function suffix_walk :: "string set \<Rightarrow> string \<Rightarrow> bool" where
  "suffix_walk es cur =
     (if cur \<in> es then True
      else (case split_once (CHR ''.'') cur of Some (_, rest) \<Rightarrow> suffix_walk es rest | None \<Rightarrow> False))"
  by pat_completeness auto
termination
  by (relation "measure (\<lambda>(es, cur). length cur)") (auto dest: split_once_Some)

declare suffix_walk.simps [simp del]

definition blocklist_is_blocked :: "blocklist \<Rightarrow> string \<Rightarrow> bool" where
  "blocklist_is_blocked bl qname =
     (if bl_entries bl = {} then False else suffix_walk (bl_entries bl) (normalize qname))"

definition is_allowed :: "allowlist \<Rightarrow> string \<Rightarrow> bool" where
  "is_allowed al qname =
     (if al_entries al = {} then False else suffix_walk (al_entries al) (normalize qname))"

definition blocked :: "blocklist \<Rightarrow> allowlist \<Rightarrow> string \<Rightarrow> bool" where
  "blocked bl al qname = (if is_allowed al qname then False else blocklist_is_blocked bl qname)"

subsection \<open>Loading\<close>

definition meta_counts :: "nat \<times> nat \<Rightarrow> string \<Rightarrow> nat \<times> nat" where
  "meta_counts = (\<lambda>(sources, hosts) line.
     let trimmed = trim line
     in if trimmed = [] \<or> starts_with ''#'' trimmed then (sources, hosts)
        else if is_meta_source trimmed then (sources + 1, hosts)
        else if starts_with ''||'' trimmed \<or> starts_with ''@@||'' trimmed
          \<or> (case split_whitespace trimmed of [] \<Rightarrow> False | t # _ \<Rightarrow> parse_ipv4 t \<noteq> None)
        then (sources, hosts + 1) else (sources, hosts))"

definition looks_like_meta_list :: "string \<Rightarrow> bool" where
  "looks_like_meta_list text =
     (let (sources, hosts) = foldl meta_counts (0, 0) (lines text)
      in 2 \<le> sources \<and> hosts < sources)"

definition META_MAX_DEPTH :: nat where
  "META_MAX_DEPTH = 4"

text \<open>
  Downloads: \<open>http_get\<close> is the call of ureq, which fails or gives a response whose body is
  read with a result of its own.
\<close>

definition fetch_url :: "(string \<Rightarrow> (string, (string, string) result) result) \<Rightarrow> string \<Rightarrow> (io_error, string) result" where
  "fetch_url http_get url =
     (case http_get url of
        Inr (Inr body) \<Rightarrow> Inr body
      | Inr (Inl e) \<Rightarrow> Inl \<lparr>io_kind = IoOther, io_msg = ''read body: '' @ e\<rparr>
      | Inl e \<Rightarrow> Inl \<lparr>io_kind = IoOther, io_msg = ''HTTP: '' @ e\<rparr>)"

definition fetch_text ::
  "(string \<Rightarrow> (string, (string, string) result) result) \<Rightarrow> file_system \<Rightarrow> string \<Rightarrow> (io_error, string) result" where
  "fetch_text http_get fs src = (if is_url src then fetch_url http_get src else read_to_string fs src)"

type_synonym load_state = "blocklist \<times> string set"

function load_source ::
  "(string \<Rightarrow> (io_error, string) result) \<Rightarrow> nat \<Rightarrow> string \<Rightarrow> load_state \<Rightarrow> load_state" where
  "load_source fetch depth src st =
     (let bl = fst st; visited = snd st; key = normalize src
      in if key \<in> visited then st
         else if META_MAX_DEPTH < depth then (bl, insert key visited)
         else (case fetch src of
             Inl e \<Rightarrow> (bl, insert key visited)
           | Inr text \<Rightarrow>
               if looks_like_meta_list text then
                 foldl (\<lambda>st line. let trimmed = trim line
                        in if is_meta_source trimmed then load_source fetch (Suc depth) trimmed st else st)
                   (bl, insert key visited) (lines text)
               else (parse_hosts bl text, insert key visited)))"
  by pat_completeness auto
termination
  by (relation "measure (\<lambda>(fetch, depth, src, st). Suc META_MAX_DEPTH - depth)") auto

declare load_source.simps [simp del]

definition blocklist_load_sources ::
  "(string \<Rightarrow> (io_error, string) result) \<Rightarrow> string list \<Rightarrow> blocklist" where
  "blocklist_load_sources fetch sources =
     fst (foldl (\<lambda>st src. load_source fetch 0 src st) (blocklist_new, {}) sources)"

definition allowlist_load_sources ::
  "(string \<Rightarrow> (io_error, string) result) \<Rightarrow> string list \<Rightarrow> allowlist" where
  "allowlist_load_sources fetch sources =
     \<lparr>al_entries = bl_entries (fst (foldl (\<lambda>st src. load_source fetch 0 src st) (blocklist_new, {}) sources))\<rparr>"

subsection \<open>Specification\<close>

text \<open>\<open>dot_suffix d n\<close>: the name \<open>n\<close> is \<open>d\<close> or a name below it.\<close>

definition dot_suffix :: "string \<Rightarrow> string \<Rightarrow> bool" where
  "dot_suffix d n \<longleftrightarrow> d = n \<or> (\<exists>p. n = p @ CHR ''.'' # d)"

text \<open>
  The sources a load may come to: the configured ones, and those listed in a
  meta-list it comes to; the number counts the meta-lists on the way.
\<close>

inductive source_reach ::
  "(string \<Rightarrow> (io_error, string) result) \<Rightarrow> string list \<Rightarrow> nat \<Rightarrow> string \<Rightarrow> bool"
  for fetch sources where
  reach_root: "src \<in> set sources \<Longrightarrow> source_reach fetch sources 0 src"
| reach_meta: "source_reach fetch sources d src \<Longrightarrow> fetch src = Inr text \<Longrightarrow> looks_like_meta_list text
    \<Longrightarrow> line \<in> set (lines text) \<Longrightarrow> is_meta_source (trim line)
    \<Longrightarrow> source_reach fetch sources (Suc d) (trim line)"

text \<open>The names a plain list contributes.\<close>

definition source_yields :: "(string \<Rightarrow> (io_error, string) result) \<Rightarrow> string \<Rightarrow> string \<Rightarrow> bool" where
  "source_yields fetch src n \<longleftrightarrow> (\<exists>text. fetch src = Inr text \<and> \<not> looks_like_meta_list text
     \<and> (\<exists>line \<in> set (lines text). parse_hosts_line line = Some n))"

text \<open>
  No source lies behind more meta-lists than the loader follows, and sources that the
  visited set identifies have the same content.
\<close>

definition sources_shallow :: "(string \<Rightarrow> (io_error, string) result) \<Rightarrow> string list \<Rightarrow> bool" where
  "sources_shallow fetch sources \<longleftrightarrow>
     (\<forall>d src. source_reach fetch sources d src \<longrightarrow> d \<le> META_MAX_DEPTH)"

definition sources_consistent :: "(string \<Rightarrow> (io_error, string) result) \<Rightarrow> string list \<Rightarrow> bool" where
  "sources_consistent fetch sources \<longleftrightarrow>
     (\<forall>d d' src src'. source_reach fetch sources d src \<longrightarrow> source_reach fetch sources d' src'
        \<longrightarrow> normalize src = normalize src' \<longrightarrow> fetch src = fetch src')"

subsection \<open>Normalisation\<close>

lemma lower_char_idem [simp]: "lower_char (lower_char c) = lower_char c"
  by (auto simp: lower_char_def)

lemma lower_upper_char [simp]: "lower_char (upper_char c) = lower_char c"
  by (auto simp: lower_char_def upper_char_def)

lemma lower_char_dot [simp]: "lower_char c = CHR ''.'' \<longleftrightarrow> c = CHR ''.''"
proof
  assume "lower_char c = CHR ''.''"
  moreover have "code (CHR ''.'') = 46" by (simp add: code_def)
  ultimately show "c = CHR ''.''"
    by (cases "65 \<le> code c \<and> code c \<le> 90") (auto simp: lower_char_def dest: arg_cong [of _ _ code])
qed (simp add: lower_char_def code_def)

lemma dropWhile_map_lower:
  "dropWhile (\<lambda>x. x = CHR ''.'') (map lower_char s) = map lower_char (dropWhile (\<lambda>x. x = CHR ''.'') s)"
  by (simp add: dropWhile_map comp_def)

lemma normalize_rev: "normalize s = rev (map lower_char (dropWhile (\<lambda>x. x = CHR ''.'') (rev s)))"
  by (simp add: normalize_def trim_end_matches_def to_ascii_lowercase_def rev_map)

lemma normalize_idem [simp]: "normalize (normalize s) = normalize s"
  by (simp add: normalize_rev dropWhile_map_lower)

lemma normalize_trailing_dot [simp]: "normalize (s @ ''.'') = normalize s"
  by (simp add: normalize_rev)

lemma normalize_upper [simp]: "normalize (map upper_char s) = normalize s"
proof -
  have "upper_char c = CHR ''.'' \<longleftrightarrow> c = CHR ''.''" for c
    using lower_char_dot [of "upper_char c"] lower_char_dot [of c] by (simp del: lower_char_dot)
  then show ?thesis
    by (simp add: normalize_rev rev_map dropWhile_map comp_def)
qed

lemma normalize_below:
  assumes "normalize q \<noteq> []"
  shows "normalize (p @ CHR ''.'' # q) = to_ascii_lowercase (p @ ''.'') @ normalize q"
proof -
  obtain x where "x \<in> set (rev q)" "x \<noteq> CHR ''.''"
    using assms by (auto simp: normalize_rev dropWhile_eq_Nil_conv)
  then have "dropWhile (\<lambda>x. x = CHR ''.'') (rev q @ r) = dropWhile (\<lambda>x. x = CHR ''.'') (rev q) @ r" for r
    by (rule dropWhile_append1)
  then show ?thesis by (simp add: normalize_rev to_ascii_lowercase_def rev_map)
qed

subsection \<open>Matching\<close>

lemma suffix_walk_iff: "suffix_walk es n \<longleftrightarrow> (\<exists>d \<in> es. dot_suffix d n)"
proof (induction es n rule: suffix_walk.induct)
  case (1 es n)
  show ?case
  proof (cases "split_once (CHR ''.'') n")
    case None
    then have "dot_suffix d n \<longleftrightarrow> d = n" for d
      by (auto simp: split_once_None dot_suffix_def)
    with None show ?thesis by (simp add: suffix_walk.simps [of es n])
  next
    case (Some ab)
    obtain a b where ab: "ab = (a, b)" by (cases ab)
    have n: "n = a @ CHR ''.'' # b" "CHR ''.'' \<notin> set a"
      using split_once_Some Some ab by auto
    have "dot_suffix d n \<longleftrightarrow> d = n \<or> dot_suffix d b" for d
      using n by (auto simp: dot_suffix_def append_eq_append_conv2 Cons_eq_append_conv append_eq_Cons_conv)
    with 1 Some ab show ?thesis by (auto simp: suffix_walk.simps [of es n])
  qed
qed

text \<open>Both lists are suffix matchers over their entries.\<close>

locale suffix_matcher =
  fixes ents :: "'l \<Rightarrow> string set"
    and matches :: "'l \<Rightarrow> string \<Rightarrow> bool"
  assumes matches_iff: "matches l q \<longleftrightarrow> (\<exists>d \<in> ents l. dot_suffix d (normalize q))"
begin

lemma matches_trailing_dot: "matches l (q @ ''.'') = matches l q"
  by (simp add: matches_iff)

lemma matches_upper: "matches l (map upper_char q) = matches l q"
  by (simp add: matches_iff)

lemma matches_below:
  assumes "normalize q \<noteq> []" "matches l q"
  shows "matches l (p @ CHR ''.'' # q)"
proof -
  obtain d where d: "d \<in> ents l" "dot_suffix d (normalize q)"
    using assms(2) by (auto simp: matches_iff)
  have "dot_suffix d (to_ascii_lowercase (p @ ''.'') @ normalize q)"
    using d(2) by (auto simp: dot_suffix_def to_ascii_lowercase_def)
  with d(1) show ?thesis by (auto simp: matches_iff normalize_below [OF assms(1)])
qed

lemma matches_entry: "e \<in> ents l \<Longrightarrow> normalize q = e \<Longrightarrow> matches l q"
  by (auto simp: matches_iff dot_suffix_def)

lemma matches_mono: "ents l \<subseteq> ents l' \<Longrightarrow> matches l q \<Longrightarrow> matches l' q"
  by (auto simp: matches_iff)

end

interpretation block_match: suffix_matcher bl_entries blocklist_is_blocked
  by unfold_locales (auto simp: blocklist_is_blocked_def suffix_walk_iff)

interpretation allow_match: suffix_matcher al_entries is_allowed
  by unfold_locales (auto simp: is_allowed_def suffix_walk_iff)

subsection \<open>Loading\<close>

lemma parse_hosts_entries:
  "bl_entries (parse_hosts bl text)
    = bl_entries bl \<union> {n. \<exists>line \<in> set (lines text). parse_hosts_line line = Some n}"
proof -
  have "bl_entries (foldl (\<lambda>bl line. case parse_hosts_line line of
              Some name \<Rightarrow> bl\<lparr>bl_entries := insert name (bl_entries bl)\<rparr> | None \<Rightarrow> bl) bl ls)
    = bl_entries bl \<union> {n. \<exists>line \<in> set ls. parse_hosts_line line = Some n}" for ls
    by (induction ls arbitrary: bl) (auto split: option.splits)
  then show ?thesis by (simp add: parse_hosts_def)
qed

lemma parse_hosts_line_normal: "parse_hosts_line line = Some n \<Longrightarrow> normalize n = n"
  by (auto simp: parse_hosts_line_def Let_def split: if_splits option.splits list.splits)

text \<open>
  What a source contributes once it is dealt with: a meta-list has all its members
  visited, a plain list all its names entered.
\<close>

definition source_closed :: "(string \<Rightarrow> (io_error, string) result) \<Rightarrow> string \<Rightarrow> load_state \<Rightarrow> bool" where
  "source_closed fetch src st \<longleftrightarrow>
     (\<forall>text. fetch src = Inr text \<longrightarrow> looks_like_meta_list text \<longrightarrow>
        (\<forall>line \<in> set (lines text). is_meta_source (trim line) \<longrightarrow> normalize (trim line) \<in> snd st))
   \<and> (\<forall>n. source_yields fetch src n \<longrightarrow> n \<in> bl_entries (fst st))"

text \<open>Progress of a load from one state to a later one, with respect to the reachable sources \<open>R\<close>.\<close>

definition load_progress ::
  "(string \<Rightarrow> (io_error, string) result) \<Rightarrow> (nat \<Rightarrow> string \<Rightarrow> bool) \<Rightarrow> load_state \<Rightarrow> load_state \<Rightarrow> bool" where
  "load_progress fetch R st st' \<longleftrightarrow>
     snd st \<subseteq> snd st' \<and> bl_entries (fst st) \<subseteq> bl_entries (fst st')
   \<and> (\<forall>k \<in> snd st' - snd st. \<exists>d s. R d s \<and> normalize s = k
        \<and> (d \<le> META_MAX_DEPTH \<longrightarrow> source_closed fetch s st'))
   \<and> (\<forall>n \<in> bl_entries (fst st') - bl_entries (fst st).
        \<exists>d s. R d s \<and> d \<le> META_MAX_DEPTH \<and> source_yields fetch s n)"

lemma source_closed_mono:
  "source_closed fetch s st \<Longrightarrow> snd st \<subseteq> snd st' \<Longrightarrow> bl_entries (fst st) \<subseteq> bl_entries (fst st')
    \<Longrightarrow> source_closed fetch s st'"
  by (fastforce simp: source_closed_def)

lemma load_progress_refl: "load_progress fetch R st st"
  by (simp add: load_progress_def)

lemma load_progress_trans:
  assumes "load_progress fetch R a b" "load_progress fetch R b c"
  shows "load_progress fetch R a c"
proof -
  have "\<exists>d s. R d s \<and> normalize s = k \<and> (d \<le> META_MAX_DEPTH \<longrightarrow> source_closed fetch s c)"
    if k: "k \<in> snd c - snd a" for k
  proof (cases "k \<in> snd b")
    case True
    then have "k \<in> snd b - snd a" using k by simp
    with assms(1) obtain d s where "R d s" "normalize s = k"
      "d \<le> META_MAX_DEPTH \<longrightarrow> source_closed fetch s b"
      unfolding load_progress_def by blast
    moreover have "source_closed fetch s b \<longrightarrow> source_closed fetch s c"
      using source_closed_mono assms(2) by (auto simp: load_progress_def)
    ultimately show ?thesis by blast
  next
    case False
    with k assms(2) show ?thesis by (auto simp: load_progress_def)
  qed
  moreover have "\<exists>d s. R d s \<and> d \<le> META_MAX_DEPTH \<and> source_yields fetch s n"
    if "n \<in> bl_entries (fst c) - bl_entries (fst a)" for n
    using that assms by (cases "n \<in> bl_entries (fst b)") (auto simp: load_progress_def)
  ultimately show ?thesis using assms by (auto simp: load_progress_def)
qed

lemma load_progress_visit:
  assumes "load_progress fetch R (fst st, insert (normalize src) (snd st)) e"
    and "source_closed fetch src e" "R d src"
  shows "load_progress fetch R st e"
proof -
  have "\<exists>d s. R d s \<and> normalize s = k \<and> (d \<le> META_MAX_DEPTH \<longrightarrow> source_closed fetch s e)"
    if "k \<in> snd e - snd st" for k
    using that assms by (cases "k = normalize src") (auto simp: load_progress_def)
  then show ?thesis using assms(1) by (auto simp: load_progress_def)
qed

lemma load_fold_progress:
  assumes "\<And>x st. x \<in> set xs \<Longrightarrow> load_progress fetch R st (f st x) \<and> (g x \<longrightarrow> h x \<in> snd (f st x))"
  shows "load_progress fetch R st (foldl f st xs)
    \<and> (\<forall>x \<in> set xs. g x \<longrightarrow> h x \<in> snd (foldl f st xs))"
  using assms
proof (induction xs arbitrary: st)
  case Nil
  show ?case by (simp add: load_progress_refl)
next
  case (Cons x xs)
  have one: "load_progress fetch R st (f st x)" "g x \<longrightarrow> h x \<in> snd (f st x)"
    using Cons.prems [of x st] by simp_all
  have rest: "load_progress fetch R (f st x) (foldl f (f st x) xs)"
    "\<forall>y \<in> set xs. g y \<longrightarrow> h y \<in> snd (foldl f (f st x) xs)"
    using Cons.IH [of "f st x"] Cons.prems by simp_all
  have "snd (f st x) \<subseteq> snd (foldl f (f st x) xs)" using rest(1) by (simp add: load_progress_def)
  with one rest show ?case using load_progress_trans by auto
qed

lemma load_source_progress:
  assumes "\<And>d s text line. R d s \<Longrightarrow> fetch s = Inr text \<Longrightarrow> looks_like_meta_list text
      \<Longrightarrow> line \<in> set (lines text) \<Longrightarrow> is_meta_source (trim line) \<Longrightarrow> R (Suc d) (trim line)"
    and "R depth src"
  shows "load_progress fetch R st (load_source fetch depth src st)
    \<and> normalize src \<in> snd (load_source fetch depth src st)"
  using assms(2)
proof (induction "Suc META_MAX_DEPTH - depth" arbitrary: depth src st rule: less_induct)
  case less
  let ?st = "(fst st, insert (normalize src) (snd st))"
  have frame: "load_progress fetch R st ?st"
    if "depth \<le> META_MAX_DEPTH \<longrightarrow> source_closed fetch src ?st"
    using that less.prems by (auto simp: load_progress_def)
  consider (seen) "normalize src \<in> snd st"
    | (deep) "normalize src \<notin> snd st" "META_MAX_DEPTH < depth"
    | (err) e where "normalize src \<notin> snd st" "depth \<le> META_MAX_DEPTH" "fetch src = Inl e"
    | (meta) tx where "normalize src \<notin> snd st" "depth \<le> META_MAX_DEPTH" "fetch src = Inr tx"
        "looks_like_meta_list tx"
    | (plain) tx where "normalize src \<notin> snd st" "depth \<le> META_MAX_DEPTH" "fetch src = Inr tx"
        "\<not> looks_like_meta_list tx"
    by (metis not_le_imp_less sum.exhaust)
  then show ?case
  proof cases
    case seen
    then show ?thesis by (simp add: load_source.simps load_progress_refl)
  next
    case deep
    then show ?thesis using frame by (simp add: load_source.simps)
  next
    case err
    then show ?thesis using frame
      by (simp add: load_source.simps source_closed_def source_yields_def)
  next
    case plain
    then have eq: "load_source fetch depth src st
        = (parse_hosts (fst st) tx, insert (normalize src) (snd st))"
      by (simp add: load_source.simps)
    have "source_closed fetch src (parse_hosts (fst st) tx, insert (normalize src) (snd st))"
      using plain by (auto simp: source_closed_def source_yields_def parse_hosts_entries)
    moreover have "source_yields fetch src n" if "line \<in> set (lines tx)" "parse_hosts_line line = Some n" for n line
      using that plain by (auto simp: source_yields_def)
    ultimately show ?thesis
      using plain less.prems by (fastforce simp: eq load_progress_def parse_hosts_entries)
  next
    case meta
    let ?f = "\<lambda>st line. let trimmed = trim line
        in if is_meta_source trimmed then load_source fetch (Suc depth) trimmed st else st"
    let ?fin = "foldl ?f ?st (lines tx)"
    have eq: "load_source fetch depth src st = ?fin"
      using meta by (simp add: load_source.simps)
    have step: "load_progress fetch R st (?f st line)
        \<and> (is_meta_source (trim line) \<longrightarrow> normalize (trim line) \<in> snd (?f st line))"
      if "line \<in> set (lines tx)" for line st
    proof (cases "is_meta_source (trim line)")
      case True
      then have "R (Suc depth) (trim line)" using assms(1) [OF less.prems] meta that by blast
      with less.hyps [of "Suc depth" "trim line" st] meta(2) True show ?thesis by simp
    qed (simp add: load_progress_refl)
    have fold: "load_progress fetch R ?st ?fin"
      "\<forall>line \<in> set (lines tx). is_meta_source (trim line) \<longrightarrow> normalize (trim line) \<in> snd ?fin"
      using load_fold_progress [of "lines tx" fetch R ?f "\<lambda>l. is_meta_source (trim l)"
          "\<lambda>l. normalize (trim l)" ?st] step by blast+
    have closed: "source_closed fetch src ?fin"
      using fold(2) meta by (auto simp: source_closed_def source_yields_def)
    have "normalize src \<in> snd ?fin" using fold(1) by (simp add: load_progress_def)
    moreover have "load_progress fetch R st ?fin"
      using load_progress_visit fold(1) closed less.prems .
    ultimately show ?thesis by (simp add: eq)
  qed
qed

lemma load_sources_progress:
  defines "st \<equiv> \<lambda>fetch sources. foldl (\<lambda>st src. load_source fetch 0 src st) (blocklist_new, {}) sources"
  shows "load_progress fetch (source_reach fetch sources) (blocklist_new, {}) (st fetch sources)
    \<and> (\<forall>src \<in> set sources. normalize src \<in> snd (st fetch sources))"
proof -
  have "load_progress fetch (source_reach fetch sources) st' (load_source fetch 0 src st')
      \<and> normalize src \<in> snd (load_source fetch 0 src st')" if "src \<in> set sources" for src st'
    using reach_root [OF that] reach_meta by (intro load_source_progress) blast+
  then show ?thesis
    using load_fold_progress [of sources fetch "source_reach fetch sources"
        "\<lambda>st src. load_source fetch 0 src st" "\<lambda>_. True" normalize "(blocklist_new, {})"]
    by (simp add: st_def)
qed

lemma source_yields_normal: "source_yields fetch src n \<Longrightarrow> normalize n = n"
  using parse_hosts_line_normal by (auto simp: source_yields_def)

lemma load_sources_sound:
  assumes "n \<in> bl_entries (blocklist_load_sources fetch sources)"
  shows "\<exists>d src. source_reach fetch sources d src \<and> d \<le> META_MAX_DEPTH \<and> source_yields fetch src n"
  using assms load_sources_progress [of fetch sources]
  by (auto simp: blocklist_load_sources_def load_progress_def blocklist_new_def)

lemma load_sources_complete:
  assumes shallow: "sources_shallow fetch sources" and keys: "sources_consistent fetch sources"
    and reach: "source_reach fetch sources d src" and "source_yields fetch src n"
  shows "n \<in> bl_entries (blocklist_load_sources fetch sources)"
proof -
  define st where "st = foldl (\<lambda>st src. load_source fetch 0 src st) (blocklist_new, {}) sources"
  note prog = load_sources_progress [of fetch sources, folded st_def]
  have closed: "source_closed fetch s st" if s: "source_reach fetch sources e s" "normalize s \<in> snd st" for s e
  proof -
    obtain d' s' where s': "source_reach fetch sources d' s'" "normalize s' = normalize s"
      "source_closed fetch s' st"
      using prog s(2) shallow unfolding load_progress_def sources_shallow_def snd_conv Diff_empty by blast
    then have "fetch s' = fetch s" using keys s(1) unfolding sources_consistent_def by blast
    with s'(3) show ?thesis by (simp add: source_closed_def source_yields_def)
  qed
  have "normalize src \<in> snd st" using reach
  proof induction
    case (reach_root src)
    then show ?case using prog by blast
  next
    case (reach_meta d src tx line)
    then show ?case using closed [OF reach_meta(1)] by (auto simp: source_closed_def)
  qed
  then show ?thesis
    using closed [OF reach] assms(4) by (auto simp: source_closed_def blocklist_load_sources_def st_def)
qed

subsection \<open>Correctness\<close>

text \<open>
  C17. A query name is blocked exactly when some blocklist entry is the name or one of its
  parents, after the name is lowercased and its trailing dots are removed, and no
  allowlist entry is.
\<close>

theorem blocked_iff:
  "blocked bl al q \<longleftrightarrow> (\<exists>d \<in> bl_entries bl. dot_suffix d (normalize q))
    \<and> \<not> (\<exists>d \<in> al_entries al. dot_suffix d (normalize q))"
  by (auto simp: blocked_def block_match.matches_iff allow_match.matches_iff)

text \<open>
  Inserting a name blocks it and every name below it, in any spelling (upper case, with or
  without the trailing dot), unless the allowlist has it.
\<close>

theorem blocklist_insert_blocks_below:
  assumes "normalize name \<noteq> []" and "\<not> is_allowed al (p @ CHR ''.'' # map upper_char name @ ''.'')"
  shows "blocklist_is_blocked (blocklist_insert bl name) (map upper_char name @ ''.'')
    \<and> blocked (blocklist_insert bl name) al (p @ CHR ''.'' # map upper_char name @ ''.'')"
proof -
  have n: "normalize (map upper_char name @ ''.'') = normalize name" by simp
  have "blocklist_is_blocked (blocklist_insert bl name) (map upper_char name @ ''.'')"
    by (rule block_match.matches_entry [OF _ n]) (simp add: blocklist_insert_def assms(1))
  then show ?thesis
    using block_match.matches_below [of "map upper_char name @ ''.''"] assms n by (simp add: blocked_def)
qed

theorem blocklist_insert_blocks_below_witness:
  "normalize ''Ads.example'' = ''ads.example''
    \<and> blocked (blocklist_insert blocklist_new ''Ads.example'') \<lparr>al_entries = {''good''}\<rparr> ''x.ADS.EXAMPLE.''"
proof -
  have n: "normalize ''Ads.example'' = ''ads.example''" by code_simp
  have "\<not> is_allowed \<lparr>al_entries = {''good''}\<rparr> (''x'' @ CHR ''.'' # map upper_char ''Ads.example'' @ ''.'')"
    by code_simp
  then have "blocked (blocklist_insert blocklist_new ''Ads.example'') \<lparr>al_entries = {''good''}\<rparr>
      (''x'' @ CHR ''.'' # map upper_char ''Ads.example'' @ ''.'')"
    using blocklist_insert_blocks_below [of "''Ads.example''" "\<lparr>al_entries = {''good''}\<rparr>" "''x''"] n by simp
  moreover have "''x'' @ CHR ''.'' # map upper_char ''Ads.example'' @ ''.'' = ''x.ADS.EXAMPLE.''" by code_simp
  ultimately show ?thesis using n by simp
qed

text \<open>
  A load is sound: every entry is normalised and comes from a line of a plain list that
  the configured sources reach through at most four meta-lists.
\<close>

theorem load_sources_only_reachable:
  "bl_entries (blocklist_load_sources fetch sources)
    \<subseteq> {n. normalize n = n \<and> (\<exists>d src. source_reach fetch sources d src \<and> d \<le> META_MAX_DEPTH
          \<and> source_yields fetch src n)}"
  using load_sources_sound [of _ fetch sources] source_yields_normal by blast

text \<open>
  C24. A load is complete whenever no reachable source lies behind more than four meta-lists
  and reachable sources whose names normalise alike have the same content: the entries
  are then exactly the names of all reachable plain lists, and each list is read once
  however often it is listed.
\<close>

theorem load_sources_exact:
  assumes "sources_shallow fetch sources" "sources_consistent fetch sources"
  shows "bl_entries (blocklist_load_sources fetch sources)
    = {n. \<exists>d src. source_reach fetch sources d src \<and> source_yields fetch src n}"
  using load_sources_complete [OF assms] load_sources_sound [of _ fetch sources] by blast

definition demo_fetch :: "string \<Rightarrow> (io_error, string) result" where
  "demo_fetch src =
     (if src = ''/meta'' then Inr (''/a'' @ [newline] @ ''/b'')
      else if src = ''/a'' then Inr ''0.0.0.0 ads.example''
      else Inl \<lparr>io_kind = NotFound, io_msg = ''no file''\<rparr>)"

lemma demo_reach: "source_reach demo_fetch [''/meta''] d src \<Longrightarrow>
    (d, src) \<in> {(0, ''/meta''), (1, ''/a''), (1, ''/b'')}"
proof (induction rule: source_reach.induct)
  case (reach_root src)
  then show ?case by simp
next
  case (reach_meta d src tx line)
  have "\<not> looks_like_meta_list ''0.0.0.0 ads.example''" by code_simp
  then have "src = ''/meta''" "tx = ''/a'' @ [newline] @ ''/b''"
    using reach_meta by (auto simp: demo_fetch_def split: if_splits)
  moreover have "lines (''/a'' @ [newline] @ ''/b'') = [''/a'', ''/b'']" by code_simp
  ultimately have "line = ''/a'' \<or> line = ''/b''" using reach_meta by auto
  moreover have "trim ''/a'' = ''/a''" "trim ''/b'' = ''/b''" by code_simp+
  ultimately show ?case using reach_meta \<open>src = ''/meta''\<close> by auto
qed

theorem load_sources_exact_witness:
  "''ads.example'' \<in> bl_entries (blocklist_load_sources demo_fetch [''/meta''])
    \<and> bl_entries (blocklist_load_sources demo_fetch [''/meta''])
      = {n. \<exists>d src. source_reach demo_fetch [''/meta''] d src \<and> source_yields demo_fetch src n}"
proof
  show "''ads.example'' \<in> bl_entries (blocklist_load_sources demo_fetch [''/meta''])" by code_simp
  have d: "sources_shallow demo_fetch [''/meta'']"
    using demo_reach by (fastforce simp: META_MAX_DEPTH_def sources_shallow_def)
  have n: "normalize ''/meta'' = ''/meta''" "normalize ''/a'' = ''/a''" "normalize ''/b'' = ''/b''"
    by code_simp+
  have k: "sources_consistent demo_fetch [''/meta'']"
    unfolding sources_consistent_def
  proof (intro allI impI)
    fix d d' src src'
    assume r: "source_reach demo_fetch [''/meta''] d src" "source_reach demo_fetch [''/meta''] d' src'"
      "normalize src = normalize src'"
    show "demo_fetch src = demo_fetch src'"
      using demo_reach [OF r(1)] demo_reach [OF r(2)] r(3) n by auto
  qed
  show "bl_entries (blocklist_load_sources demo_fetch [''/meta''])
      = {n. \<exists>d src. source_reach demo_fetch [''/meta''] d src \<and> source_yields demo_fetch src n}"
    by (rule load_sources_exact [OF d k])
qed

end
