(* ===== verification/Config.thy ===== *)
theory Config
  imports NetAddr FileSys
begin

text \<open>
  The configuration of \<open>src/config/mod.rs\<close>: the records of the TOML file, their
  default values, validation, and the values derived from a configuration. The TOML
  decoder (with its field defaults) is the parameter \<open>toml\<close> of \<open>from_file\<close>,
  hexadecimal decoding the parameter \<open>hex\<close>. The per-client table is a hash map:
  an association list in its iteration order.
\<close>

subsection \<open>Sections of the configuration\<close>

datatype qname_min_mode = Incremental | Aggressive | Strict

record qmin_config =
  qm_enable :: bool
  qm_mode :: qname_min_mode
  qm_max_iterations :: u8

record resolver_config =
  rs_forwarders :: "string list"
  rs_forward_protocol :: string
  rs_qname_minimization :: qmin_config
  rs_qname_randomization :: bool
  rs_ecs :: bool
  rs_concurrency :: u8
  rs_dns64_prefix :: "string option"
  rs_timeout_ms :: u64

record cache_section =
  cs_size :: nat
  cs_serve_stale :: bool
  cs_prefetch :: u8
  cs_persistent :: "string option"
  cs_persistent_max_age_days :: u64

record dnssec_config =
  ds_validation :: bool
  ds_anchors :: "string option"
  ds_signing :: bool
  ds_provider :: string

record per_client_filter =
  pc_block :: bool

record filter_config =
  fc_blocklists :: "string list"
  fc_allowlists :: "string list"
  fc_regex_blocklist :: "string list"
  fc_per_client :: "(string \<times> per_client_filter) list"
  fc_cname_cloaking :: bool
  fc_rebinding :: bool
  fc_cname_chain_limit :: "u8 option"
  fc_sinkhole_v4 :: string
  fc_sinkhole_v6 :: string

record proxy_config =
  px_enable :: bool
  px_allow :: "string list"
  px_protocol :: string

record api_config =
  api_listen :: string
  api_tls_cert :: "string option"
  api_tls_key :: "string option"

record auth_user =
  au_name :: string
  au_password_hash :: string

record auth_token =
  at_name :: string
  at_value :: string

record auth_config =
  ac_users :: "auth_user list"
  ac_tokens :: "auth_token list"
  ac_totp :: bool
  ac_oidc :: bool

record log_config =
  lg_level :: string
  lg_query_log :: "string option"
  lg_format :: string

record dhcp_range =
  dr_subnet :: string
  dr_start :: string
  dr_end :: string
  dr_router :: string

record dhcp_config =
  dh_enable :: bool
  dh_ranges :: "dhcp_range list"

record cluster_config =
  cl_enable :: bool
  cl_peers :: "string list"

record metrics_config =
  mt_enable :: bool
  mt_endpoint :: string
  mt_format :: string

record dns64_config =
  d64_prefix :: "string option"
  d64_always_synthesize :: bool

record nx_proof_config =
  nx_kind :: string
  nx_algorithm :: "string option"
  nx_salt :: "string option"
  nx_iterations :: "u16 option"
  nx_opt_out :: "bool option"

record zone_config =
  zc_name :: string
  zc_kind :: string
  zc_file :: "string option"
  zc_primaries :: "string list"
  zc_dnssec_signing :: bool
  zc_dnssec_algorithm :: string
  zc_dnssec_key :: "string option"
  zc_nx_proof :: "nx_proof_config option"

record dnssec_key_config =
  dk_keys_dir :: string
  dk_trust_anchor :: "string option"

record tls_config =
  tls_cert :: "string option"
  tls_key :: "string option"
  tls_letsencrypt_dir :: string
  tls_self_signed :: bool

record config =
  cfg_host :: string
  cfg_hostadmin :: "string option"
  cfg_listen :: "string list"
  cfg_listen_tls :: "string list"
  cfg_listen_quic :: "string list"
  cfg_listen_https :: "string list"
  cfg_tls :: tls_config
  cfg_dnssec_keys :: dnssec_key_config
  cfg_resolver :: resolver_config
  cfg_cache :: cache_section
  cfg_dnssec :: dnssec_config
  cfg_filter :: filter_config
  cfg_proxy :: proxy_config
  cfg_api :: api_config
  cfg_auth :: auth_config
  cfg_log :: log_config
  cfg_dhcp :: dhcp_config
  cfg_cluster :: cluster_config
  cfg_zones :: "zone_config list"
  cfg_zones_dir :: string
  cfg_metrics :: metrics_config
  cfg_dns64 :: dns64_config

subsection \<open>Defaults\<close>

definition default_qmin :: qmin_config where
  "default_qmin = \<lparr>qm_enable = False, qm_mode = Strict, qm_max_iterations = 7\<rparr>"

definition default_resolver :: resolver_config where
  "default_resolver =
     \<lparr>rs_forwarders = [''1.1.1.1:53'', ''8.8.8.8:53''], rs_forward_protocol = ''udp'',
      rs_qname_minimization = default_qmin, rs_qname_randomization = False, rs_ecs = False,
      rs_concurrency = 2, rs_dns64_prefix = None, rs_timeout_ms = 2000\<rparr>"

definition default_cache_section :: cache_section where
  "default_cache_section =
     \<lparr>cs_size = 50000, cs_serve_stale = True, cs_prefetch = 2, cs_persistent = None,
      cs_persistent_max_age_days = 7\<rparr>"

definition default_dnssec :: dnssec_config where
  "default_dnssec =
     \<lparr>ds_validation = True, ds_anchors = None, ds_signing = False, ds_provider = ''ring''\<rparr>"

definition default_filter :: filter_config where
  "default_filter =
     \<lparr>fc_blocklists = [], fc_allowlists = [], fc_regex_blocklist = [], fc_per_client = [],
      fc_cname_cloaking = True, fc_rebinding = True, fc_cname_chain_limit = Some 8,
      fc_sinkhole_v4 = ''0.0.0.0'', fc_sinkhole_v6 = ''::''\<rparr>"

definition default_proxy :: proxy_config where
  "default_proxy = \<lparr>px_enable = False, px_allow = [], px_protocol = ''v2''\<rparr>"

definition default_api :: api_config where
  "default_api = \<lparr>api_listen = ''127.0.0.1:5380'', api_tls_cert = None, api_tls_key = None\<rparr>"

definition default_auth :: auth_config where
  "default_auth = \<lparr>ac_users = [], ac_tokens = [], ac_totp = False, ac_oidc = False\<rparr>"

definition default_log :: log_config where
  "default_log = \<lparr>lg_level = ''info'', lg_query_log = None, lg_format = ''text''\<rparr>"

definition default_dhcp :: dhcp_config where
  "default_dhcp = \<lparr>dh_enable = False, dh_ranges = []\<rparr>"

definition default_cluster :: cluster_config where
  "default_cluster = \<lparr>cl_enable = False, cl_peers = []\<rparr>"

definition default_metrics :: metrics_config where
  "default_metrics = \<lparr>mt_enable = True, mt_endpoint = ''/metrics'', mt_format = ''openmetrics''\<rparr>"

definition default_dns64 :: dns64_config where
  "default_dns64 = \<lparr>d64_prefix = None, d64_always_synthesize = False\<rparr>"

definition default_dnssec_keys :: dnssec_key_config where
  "default_dnssec_keys = \<lparr>dk_keys_dir = ''/var/lib/heimdallr/keys'', dk_trust_anchor = None\<rparr>"

definition default_tls :: tls_config where
  "default_tls =
     \<lparr>tls_cert = None, tls_key = None, tls_letsencrypt_dir = ''/etc/letsencrypt/live'',
      tls_self_signed = False\<rparr>"

definition default_config :: config where
  "default_config =
     \<lparr>cfg_host = ''localhost'', cfg_hostadmin = None, cfg_listen = [''0.0.0.0:53'', ''[::]:53''],
      cfg_listen_tls = [], cfg_listen_quic = [], cfg_listen_https = [],
      cfg_tls = default_tls, cfg_dnssec_keys = default_dnssec_keys, cfg_resolver = default_resolver,
      cfg_cache = default_cache_section, cfg_dnssec = default_dnssec, cfg_filter = default_filter,
      cfg_proxy = default_proxy, cfg_api = default_api, cfg_auth = default_auth, cfg_log = default_log,
      cfg_dhcp = default_dhcp, cfg_cluster = default_cluster, cfg_zones = [],
      cfg_zones_dir = ''/etc/heimdallr/zones'', cfg_metrics = default_metrics,
      cfg_dns64 = default_dns64\<rparr>"

subsection \<open>Derived values\<close>

definition soa_rname :: "config \<Rightarrow> string" where
  "soa_rname c =
     (let email = unwrap_or ''hostadmin'' (cfg_hostadmin c)
      in if CHR ''@'' \<in> set email then map (\<lambda>x. if x = CHR ''@'' then CHR ''.'' else x) email
         else email @ ''.'' @ trim_end_matches (CHR ''.'') (cfg_host c))"

definition ns_name :: "string \<Rightarrow> string" where
  "ns_name zone_name = ''ns1.'' @ trim_end_matches (CHR ''.'') zone_name"

datatype nx_proof_kind_t = Nsec | Nsec3 bytes u16 bool

definition nx_proof_kind :: "(string \<Rightarrow> bytes option) \<Rightarrow> zone_config \<Rightarrow> nx_proof_kind_t option" where
  "nx_proof_kind hex z =
     (case zc_nx_proof z of
        None \<Rightarrow> Some Nsec
      | Some cfg \<Rightarrow>
          (if nx_kind cfg = ''nsec'' then Some Nsec
           else if nx_kind cfg = ''nsec3'' then
             (let salt = unwrap_or [] (case nx_salt cfg of None \<Rightarrow> None | Some s \<Rightarrow> hex s);
                  iterations = unwrap_or 0 (nx_iterations cfg);
                  opt_out = unwrap_or False (nx_opt_out cfg)
              in Some (Nsec3 salt iterations opt_out))
           else Some Nsec))"

definition resolve_paths :: "file_system \<Rightarrow> tls_config \<Rightarrow> string \<Rightarrow> (string, string \<times> string) result" where
  "resolve_paths fs t host =
     (let le = path_join (tls_letsencrypt_dir t) (trim_end_matches (CHR ''.'') host);
          cert = (case tls_cert t of Some c \<Rightarrow> c | None \<Rightarrow> path_join le ''fullchain.pem'');
          key = (case tls_key t of Some k \<Rightarrow> k | None \<Rightarrow> path_join le ''privkey.pem'')
      in if fs_exists fs cert \<and> fs_exists fs key then Inr (cert, key)
         else Inl (''TLS cert not found: '' @ cert))"

subsection \<open>Validation\<close>

definition valid_zone :: "zone_config \<Rightarrow> (string, unit) result" where
  "valid_zone z =
     (if zc_kind z \<notin> {''primary'', ''secondary'', ''stub'', ''conditional'', ''forwarder''} then
        Inl (''zone '' @ zc_name z
          @ '': kind must be primary|secondary|stub|conditional|forwarder, got '' @ zc_kind z)
      else if zc_kind z = ''primary'' \<and> zc_file z = None then
        Inl (''zone '' @ zc_name z @ '': primary requires '' @ quoted ''file'')
      else if zc_kind z = ''secondary'' \<and> zc_primaries z = [] then
        Inl (''zone '' @ zc_name z @ '': secondary requires '' @ quoted ''primaries'')
      else if zc_dnssec_signing z
        \<and> zc_dnssec_algorithm z \<notin> {''ecdsa-p256'', ''ecdsa-p384'', ''ed25519'', ''rsa-sha256''} then
        Inl (''zone '' @ zc_name z
          @ '': dnssec_algorithm must be ecdsa-p256|ecdsa-p384|ed25519|rsa-sha256, got ''
          @ zc_dnssec_algorithm z)
      else Inr ())"

fun valid_zones :: "zone_config list \<Rightarrow> (string, unit) result" where
  "valid_zones [] = Inr ()"
| "valid_zones (z # zs) = try_bind (valid_zone z) (\<lambda>_. valid_zones zs)"

fun valid_listen :: "string list \<Rightarrow> (string, unit) result" where
  "valid_listen [] = Inr ()"
| "valid_listen (a # as) =
     (if parse_socket_addr a = None then Inl (''bad listen address '' @ quoted a) else valid_listen as)"

definition validate :: "config \<Rightarrow> (string, unit) result" where
  "validate c =
     (if ds_provider (cfg_dnssec c) \<noteq> ''ring'' \<and> ds_provider (cfg_dnssec c) \<noteq> ''botan'' then
        Inl (''dnssec.provider must be ring|botan, got '' @ ds_provider (cfg_dnssec c))
      else if rs_forward_protocol (cfg_resolver c) \<notin> {''udp'', ''tcp'', ''dot'', ''doh'', ''doq''} then
        Inl (''resolver.forward_protocol must be udp|tcp|dot|doh|doq, got ''
          @ rs_forward_protocol (cfg_resolver c))
      else if rs_concurrency (cfg_resolver c) = 0 then Inl ''resolver.concurrency must be >= 1''
      else if rs_timeout_ms (cfg_resolver c) = 0 then Inl ''resolver.timeout_ms must be > 0''
      else if cs_size (cfg_cache c) = 0 then Inl ''cache.size must be > 0''
      else try_bind
        (valid_listen (cfg_listen c @ cfg_listen_tls c @ cfg_listen_quic c @ cfg_listen_https c)) (\<lambda>_.
        if parse_socket_addr (api_listen (cfg_api c)) = None then
          Inl (''bad api.listen address '' @ quoted (api_listen (cfg_api c)))
        else if px_protocol (cfg_proxy c) \<notin> {''v1'', ''v2''} then
          Inl (''proxy.protocol must be v1|v2, got '' @ px_protocol (cfg_proxy c))
        else if lg_level (cfg_log c) \<notin> {''trace'', ''debug'', ''info'', ''warn'', ''error''} then
          Inl (''log.level must be trace|debug|info|warn|error, got '' @ lg_level (cfg_log c))
        else if lg_format (cfg_log c) \<notin> {''json'', ''text''} then
          Inl (''log.format must be json|text, got '' @ lg_format (cfg_log c))
        else try_bind (valid_zones (cfg_zones c)) (\<lambda>_.
          if \<not> starts_with ''/'' (cfg_zones_dir c) then
            Inl (''zones_dir must be an absolute path, got '' @ quoted (cfg_zones_dir c))
          else Inr ())))"

definition from_file ::
  "(string \<Rightarrow> (string, config) result) \<Rightarrow> file_system \<Rightarrow> string \<Rightarrow> (string, config) result" where
  "from_file toml fs path =
     (case read_to_string fs path of
        Inl e \<Rightarrow> Inl (''read '' @ path)
      | Inr s \<Rightarrow>
          (case toml s of
             Inl e \<Rightarrow> Inl ''parse toml''
           | Inr cfg \<Rightarrow> try_bind (validate cfg) (\<lambda>_. Inr cfg)))"

subsection \<open>What validation accepts\<close>

definition zone_ok :: "zone_config \<Rightarrow> bool" where
  "zone_ok z \<longleftrightarrow>
     zc_kind z \<in> {''primary'', ''secondary'', ''stub'', ''conditional'', ''forwarder''}
   \<and> (zc_kind z = ''primary'' \<longrightarrow> zc_file z \<noteq> None)
   \<and> (zc_kind z = ''secondary'' \<longrightarrow> zc_primaries z \<noteq> [])
   \<and> (zc_dnssec_signing z \<longrightarrow>
        zc_dnssec_algorithm z \<in> {''ecdsa-p256'', ''ecdsa-p384'', ''ed25519'', ''rsa-sha256''})"

definition config_ok :: "config \<Rightarrow> bool" where
  "config_ok c \<longleftrightarrow>
     (ds_provider (cfg_dnssec c) = ''ring'' \<or> ds_provider (cfg_dnssec c) = ''botan'')
   \<and> rs_forward_protocol (cfg_resolver c) \<in> {''udp'', ''tcp'', ''dot'', ''doh'', ''doq''}
   \<and> 0 < rs_concurrency (cfg_resolver c) \<and> 0 < rs_timeout_ms (cfg_resolver c)
   \<and> 0 < cs_size (cfg_cache c)
   \<and> (\<forall>a \<in> set (cfg_listen c) \<union> set (cfg_listen_tls c) \<union> set (cfg_listen_quic c) \<union> set (cfg_listen_https c).
        parse_socket_addr a \<noteq> None)
   \<and> parse_socket_addr (api_listen (cfg_api c)) \<noteq> None
   \<and> px_protocol (cfg_proxy c) \<in> {''v1'', ''v2''}
   \<and> lg_level (cfg_log c) \<in> {''trace'', ''debug'', ''info'', ''warn'', ''error''}
   \<and> lg_format (cfg_log c) \<in> {''json'', ''text''}
   \<and> (\<forall>z \<in> set (cfg_zones c). zone_ok z)
   \<and> starts_with ''/'' (cfg_zones_dir c)"

lemma valid_zone_iff: "valid_zone z = Inr u \<longleftrightarrow> zone_ok z"
  by (simp add: valid_zone_def zone_ok_def del: insert_iff)

lemma valid_zones_iff: "valid_zones zs = Inr u \<longleftrightarrow> (\<forall>z \<in> set zs. zone_ok z)"
  by (induction zs) (auto simp: try_bind_Inr_iff valid_zone_iff)

lemma valid_listen_iff: "valid_listen as = Inr u \<longleftrightarrow> (\<forall>a \<in> set as. parse_socket_addr a \<noteq> None)"
  by (induction as) auto

lemma validate_iff: "validate c = Inr u \<longleftrightarrow> config_ok c"
  by (simp add: validate_def config_ok_def try_bind_Inr_iff valid_zones_iff valid_listen_iff
      word_gt_0 ball_Un del: insert_iff)

lemma catalog_not_ok: "zc_kind z = ''catalog'' \<Longrightarrow> \<not> zone_ok z"
  by (simp add: zone_ok_def)

subsection \<open>Correctness of the configuration\<close>

text \<open>
  C37. Loading a configuration file succeeds exactly when the file is readable, decodes and
  meets every constraint: known provider, protocols, log settings, zone kinds and signing
  algorithms, positive concurrency, timeout and cache size, parsable listen addresses,
  the files and primaries the zone kinds need, and an absolute zone directory.
\<close>

theorem from_file_ok_iff:
  "from_file toml fs path = Inr c \<longleftrightarrow>
    (\<exists>s. read_to_string fs path = Inr s \<and> toml s = Inr c) \<and> config_ok c"
  by (auto simp: from_file_def try_bind_Inr_iff validate_iff split: sum.splits)

text \<open>
  The built-in default configuration is valid, and a zone of kind \<open>catalog\<close> makes any
  configuration invalid.
\<close>

theorem default_config_valid:
  "validate default_config = Inr ()
    \<and> (zc_kind z = ''catalog'' \<and> z \<in> set (cfg_zones c) \<longrightarrow> validate c \<noteq> Inr ())"
proof
  show "validate default_config = Inr ()" by code_simp
  show "zc_kind z = ''catalog'' \<and> z \<in> set (cfg_zones c) \<longrightarrow> validate c \<noteq> Inr ()"
    using catalog_not_ok [of z] by (simp only: validate_iff config_ok_def) blast
qed

definition demo_catalog_zone :: zone_config where
  "demo_catalog_zone =
     \<lparr>zc_name = ''cat.example'', zc_kind = ''catalog'', zc_file = Some ''cat.zone'', zc_primaries = [],
      zc_dnssec_signing = False, zc_dnssec_algorithm = ''ed25519'', zc_dnssec_key = None, zc_nx_proof = None\<rparr>"

theorem default_config_valid_witness:
  "validate (default_config\<lparr>cfg_zones := [demo_catalog_zone]\<rparr>) \<noteq> Inr ()"
  using default_config_valid [of demo_catalog_zone "default_config\<lparr>cfg_zones := [demo_catalog_zone]\<rparr>"]
  by (simp add: demo_catalog_zone_def)

text \<open>
  The SOA mailbox name never contains an at sign; without a configured mailbox it is
  \<open>hostadmin\<close> below the host name without its trailing dots, and a configured
  \<open>user@domain\<close> becomes \<open>user.domain\<close>.
\<close>

theorem soa_rname_form:
  assumes "CHR ''@'' \<notin> set (cfg_host c)"
  shows "CHR ''@'' \<notin> set (soa_rname c)
    \<and> (cfg_hostadmin c = None \<longrightarrow> soa_rname c = ''hostadmin.'' @ trim_end_matches (CHR ''.'') (cfg_host c))
    \<and> (cfg_hostadmin c = Some (user @ CHR ''@'' # domain) \<and> CHR ''@'' \<notin> set user \<and> CHR ''@'' \<notin> set domain
        \<longrightarrow> soa_rname c = user @ CHR ''.'' # domain)"
proof -
  have id: "map (\<lambda>x. if x = CHR ''@'' then CHR ''.'' else x) s = s" if "CHR ''@'' \<notin> set s" for s
    using that by (induction s) auto
  have "CHR ''@'' \<notin> set (trim_end_matches (CHR ''.'') (cfg_host c))"
    using assms by (auto simp: trim_end_matches_def dest: set_dropWhileD)
  then show ?thesis
    by (auto simp: soa_rname_def Let_def unwrap_or_def id split: option.splits)
qed

theorem soa_rname_form_witness:
  "soa_rname (default_config\<lparr>cfg_hostadmin := Some ''ops@example.org''\<rparr>) = ''ops.example.org''"
  using soa_rname_form [of "default_config\<lparr>cfg_hostadmin := Some ''ops@example.org''\<rparr>" "''ops''" "''example.org''"]
  by (simp add: default_config_def)

end
