(* ===== verification/DnsData.thy ===== *)
theory DnsData
  imports NetAddr
begin

text \<open>
  The DNS data that the sources build and inspect. The types are those of
  \<open>hickory_proto\<close>, with the constructors that the sources name; data of other
  types is opaque. Domain names are hickory's \<open>Name\<close>, a type parameter here; what
  the program calls of hickory (names, message encoding) is the record \<open>hickory\<close>
  of functions, an argument of every definition that uses it.
\<close>

datatype record_type =
    T_A | T_AAAA | T_CNAME | T_MX | T_NS | T_SOA | T_TXT | T_SRV | T_PTR | T_TLSA | T_SSHFP
  | T_HTTPS | T_SVCB | T_CAA | T_DNSKEY | T_DS | T_RRSIG | T_NSEC | T_NSEC3 | T_NSEC3PARAM
  | T_ANAME | T_ANY | T_AXFR | T_Unknown u16

record 'n soa_data =
  soa_mname :: 'n
  soa_rname_field :: 'n
  soa_serial :: u32
  soa_refresh :: int
  soa_retry :: int
  soa_expire :: int
  soa_minimum :: u32

record tlsa_data =
  tlsa_usage :: u8
  tlsa_selector :: u8
  tlsa_matching :: u8
  tlsa_cert :: bytes

datatype 'n rdata =
    RD_A ipv4
  | RD_AAAA ipv6
  | RD_CNAME 'n
  | RD_NS 'n
  | RD_PTR 'n
  | RD_ANAME 'n
  | RD_MX u16 'n
  | RD_TXT "string list"
  | RD_SRV u16 u16 u16 'n
  | RD_SOA "'n soa_data"
  | RD_TLSA tlsa_data
  | RD_Opaque record_type string

fun rdata_type :: "'n rdata \<Rightarrow> record_type" where
  "rdata_type (RD_A _) = T_A"
| "rdata_type (RD_AAAA _) = T_AAAA"
| "rdata_type (RD_CNAME _) = T_CNAME"
| "rdata_type (RD_NS _) = T_NS"
| "rdata_type (RD_PTR _) = T_PTR"
| "rdata_type (RD_ANAME _) = T_ANAME"
| "rdata_type (RD_MX _ _) = T_MX"
| "rdata_type (RD_TXT _) = T_TXT"
| "rdata_type (RD_SRV _ _ _ _) = T_SRV"
| "rdata_type (RD_SOA _) = T_SOA"
| "rdata_type (RD_TLSA _) = T_TLSA"
| "rdata_type (RD_Opaque t _) = t"

record 'n rr =
  rr_name :: 'n
  rr_ttl :: u32
  rr_data :: "'n rdata"

definition rr_type :: "'n rr \<Rightarrow> record_type" where
  "rr_type r = rdata_type (rr_data r)"

definition from_rdata :: "'n \<Rightarrow> u32 \<Rightarrow> 'n rdata \<Rightarrow> 'n rr" where
  "from_rdata n ttl d = \<lparr>rr_name = n, rr_ttl = ttl, rr_data = d\<rparr>"

text \<open>A lookup is its query and the answer records.\<close>

record 'n lookup =
  lk_name :: 'n
  lk_type :: record_type
  lk_answers :: "'n rr list"

record 'n hickory =
  type_code :: "record_type \<Rightarrow> u16"
  type_from_code :: "u16 \<Rightarrow> record_type"
  name_utf8 :: "'n \<Rightarrow> string"
  name_from_ascii :: "string \<Rightarrow> (string, 'n) result"
  set_fqdn_false :: "'n \<Rightarrow> 'n"
  name_root :: 'n
  num_labels :: "'n \<Rightarrow> nat"
  base_name :: "'n \<Rightarrow> 'n"
  is_root :: "'n \<Rightarrow> bool"
  msg_to_vec :: "'n rr list \<Rightarrow> bytes option"
  msg_from_vec :: "bytes \<Rightarrow> 'n rr list option"

text \<open>
  The upstream resolver: every query moves the outside world \<open>'w\<close> on and answers
  with a lookup or an error.
\<close>

type_synonym ('n, 'w) upstream = "'n \<Rightarrow> record_type \<Rightarrow> 'w \<Rightarrow> (string, 'n lookup) result \<times> 'w"

text \<open>
  What the program relies on of hickory's names, given the list of labels of a name,
  leftmost first: \<open>base_name\<close> drops the first label, \<open>num_labels\<close> does not
  count a leading asterisk, and the root has no labels.
\<close>

definition counted_labels :: "string list \<Rightarrow> string list" where
  "counted_labels ls = (case ls of [] \<Rightarrow> [] | l # ls' \<Rightarrow> if l = ''*'' then ls' else ls)"

definition name_laws :: "'n hickory \<Rightarrow> ('n \<Rightarrow> string list) \<Rightarrow> bool" where
  "name_laws h labels \<longleftrightarrow> (\<forall>n. labels (base_name h n) = tl (labels n))
     \<and> (\<forall>n. num_labels h n = length (counted_labels (labels n)))
     \<and> labels (name_root h) = [] \<and> (\<forall>n. is_root h n \<longrightarrow> labels n = [])"

text \<open>What it relies on of the message codec: decoding inverts encoding.\<close>

definition codec_law :: "'n hickory \<Rightarrow> bool" where
  "codec_law h \<longleftrightarrow> (\<forall>rs bs. msg_to_vec h rs = Some bs \<longrightarrow> msg_from_vec h bs = Some rs)"

lemma rr_type_from_rdata [simp]: "rr_type (from_rdata n t d) = rdata_type d"
  by (simp add: rr_type_def from_rdata_def)

lemma from_rdata_simps [simp]:
  "rr_name (from_rdata n t d) = n" "rr_ttl (from_rdata n t d) = t" "rr_data (from_rdata n t d) = d"
  by (simp_all add: from_rdata_def)

subsection \<open>An instance\<close>

text \<open>
  Names as label lists and a codec for one answer: a concrete \<open>hickory\<close> on which the
  laws hold.
\<close>

definition list_hickory :: "string list rr list \<Rightarrow> string list hickory" where
  "list_hickory ans =
     \<lparr>type_code = (\<lambda>t. if t = T_A then 1 else if t = T_AAAA then 28 else 255),
      type_from_code = (\<lambda>c. if c = 1 then T_A else if c = 28 then T_AAAA else T_Unknown c),
      name_utf8 = (\<lambda>n. concat (map (\<lambda>l. l @ ''.'') n)),
      name_from_ascii = (\<lambda>s. Inr (filter (\<lambda>l. l \<noteq> []) (split_on (CHR ''.'') s))),
      set_fqdn_false = (\<lambda>n. n), name_root = [],
      num_labels = (\<lambda>n. length (counted_labels n)), base_name = tl, is_root = (\<lambda>n. n = []),
      msg_to_vec = (\<lambda>rs. if rs = ans then Some [1] else None),
      msg_from_vec = (\<lambda>bs. if bs = [1] then Some ans else None)\<rparr>"

lemma list_hickory_names: "name_laws (list_hickory ans) (\<lambda>n. n)"
  by (simp add: name_laws_def list_hickory_def)

lemma list_hickory_codec: "codec_law (list_hickory ans)"
  by (simp add: codec_law_def list_hickory_def)

end
