(* ===== verification/DnsFilter.thy ===== *)
theory DnsFilter
  imports Blocklist Config Metrics DnsData
begin

text \<open>
  The query and answer filter of \<open>src/core/filter/mod.rs\<close>: per-client address
  ranges, regular expressions, the two lists, CNAME chain limits and rebinding
  detection. Regular expressions are the parameters \<open>regex_new\<close> (compilation) and
  \<open>is_match\<close>; the process-wide metrics registry is passed through.
\<close>

subsection \<open>Address ranges\<close>

record ipv4_cidr =
  cidr_addr :: ipv4
  cidr_prefix :: u8

definition cidr_contains :: "ipv4_cidr \<Rightarrow> ipv4 \<Rightarrow> bool" where
  "cidr_contains c ip =
     (if cidr_prefix c = 0 then True
      else if 32 \<le> cidr_prefix c then cidr_addr c = ip
      else (let mask = push_bit (unat (32 - cidr_prefix c)) (NOT 0 :: u32);
                addr_bits = cidr_addr c AND mask;
                ip_bits = ip AND mask
            in addr_bits = ip_bits))"

definition cidr_from_str :: "string \<Rightarrow> (string, ipv4_cidr) result" where
  "cidr_from_str s =
     try_bind (ok_or (''missing '' @ quoted ''/'' @ '' in CIDR: '' @ s) (split_once (CHR ''/'') s))
       (\<lambda>(addr_str, prefix_str).
       try_bind (ok_or (''bad CIDR address '' @ quoted addr_str) (parse_ipv4 addr_str)) (\<lambda>addr.
       try_bind (ok_or (''bad CIDR prefix '' @ quoted prefix_str) (parse_u8 prefix_str)) (\<lambda>prefix.
       if 32 < prefix then Inl (''CIDR prefix out of range: '' @ show_nat (unat prefix))
       else Inr \<lparr>cidr_addr = addr, cidr_prefix = prefix\<rparr>)))"

subsection \<open>The filter\<close>

record 're filter_state =
  fl_cname_chain_limit :: u8
  fl_cname_cloaking :: bool
  fl_rebinding :: bool
  fl_blocklist :: blocklist
  fl_allowlist :: allowlist
  fl_per_client :: "(ipv4_cidr \<times> bool) list"
  fl_sinkhole_v4 :: ipv4
  fl_sinkhole_v6 :: ipv6
  fl_regex_blocklist :: "'re list"

definition filter_new ::
  "(string \<Rightarrow> 're option) \<Rightarrow> (string \<Rightarrow> (io_error, string) result) \<Rightarrow> filter_config \<Rightarrow> 're filter_state" where
  "filter_new regex_new fetch cfg =
     \<lparr>fl_cname_chain_limit = unwrap_or 8 (fc_cname_chain_limit cfg),
      fl_cname_cloaking = fc_cname_cloaking cfg,
      fl_rebinding = fc_rebinding cfg,
      fl_blocklist = blocklist_load_sources fetch (fc_blocklists cfg),
      fl_allowlist = allowlist_load_sources fetch (fc_allowlists cfg),
      fl_per_client = List.map_filter (\<lambda>(cidr, pf). case cidr_from_str cidr of
          Inr net \<Rightarrow> Some (net, pc_block pf) | Inl e \<Rightarrow> None) (fc_per_client cfg),
      fl_sinkhole_v4 = unwrap_or 0 (parse_ipv4 (fc_sinkhole_v4 cfg)),
      fl_sinkhole_v6 = unwrap_or 0 (parse_ipv6 (fc_sinkhole_v6 cfg)),
      fl_regex_blocklist = List.map_filter regex_new (fc_regex_blocklist cfg)\<rparr>"

fun client_override :: "(ipv4_cidr \<times> bool) list \<Rightarrow> ipv4 \<Rightarrow> bool option" where
  "client_override [] v4 = None"
| "client_override ((net, block) # acl) v4 =
     (if cidr_contains net v4 then Some block else client_override acl v4)"

definition is_blocked ::
  "('re \<Rightarrow> string \<Rightarrow> bool) \<Rightarrow> 're filter_state \<Rightarrow> metrics_registry \<Rightarrow> string \<Rightarrow> ip_addr
     \<Rightarrow> bool \<times> metrics_registry" where
  "is_blocked is_match f m qname client =
     (case (case client of V4 v4 \<Rightarrow> client_override (fl_per_client f) v4 | V6 _ \<Rightarrow> None) of
        Some block \<Rightarrow> (block, m)
      | None \<Rightarrow>
          if list_ex (\<lambda>re. is_match re qname) (fl_regex_blocklist f) then
            (let scratch = metrics_increment metrics_new BlockedTotal 1 in (True, m))
          else (let b = blocked (fl_blocklist f) (fl_allowlist f) qname
                in (b, if b then metrics_increment m BlockedTotal 1 else m)))"

definition dname_cname_coexistence_violation :: "'n rr list \<Rightarrow> bool" where
  "dname_cname_coexistence_violation records =
     (let has_dname = list_ex (\<lambda>r. rr_type r = T_ANAME) records;
          has_cname = list_ex (\<lambda>r. rr_type r = T_CNAME) records
      in has_dname \<and> has_cname)"

definition is_private_or_loopback :: "ipv4 \<Rightarrow> bool" where
  "is_private_or_loopback a = (ipv4_is_loopback a \<or> ipv4_is_private a \<or> ipv4_is_link_local a)"

definition is_private_or_loopback_aaaa :: "ipv6 \<Rightarrow> bool" where
  "is_private_or_loopback_aaaa a = (ipv6_is_loopback a \<or> ipv6_is_unique_local a \<or> ipv6_is_unspecified a)"

definition cname_chain_count :: "'n rr list \<Rightarrow> nat" where
  "cname_chain_count records = length (filter (\<lambda>r. rr_type r = T_CNAME) records)"

definition cname_chain_truncated ::
  "'re filter_state \<Rightarrow> metrics_registry \<Rightarrow> 'n rr list \<Rightarrow> bool \<times> metrics_registry" where
  "cname_chain_truncated f m records =
     (let truncated = fl_cname_cloaking f \<and> unat (fl_cname_chain_limit f) < cname_chain_count records
      in (truncated, if truncated then metrics_increment m CnameChainTruncatedTotal 1 else m))"

definition rebinding_detected ::
  "'re filter_state \<Rightarrow> metrics_registry \<Rightarrow> 'n rr list \<Rightarrow> bool \<times> metrics_registry" where
  "rebinding_detected f m records =
     (let detected =
            (if \<not> fl_rebinding f then False
             else list_ex (\<lambda>r. case rr_data r of
                 RD_A a \<Rightarrow> is_private_or_loopback a
               | RD_AAAA a \<Rightarrow> is_private_or_loopback_aaaa a
               | _ \<Rightarrow> False) records)
      in (detected, if detected then metrics_increment m RebindingDetectedTotal 1 else m))"

subsection \<open>Address ranges\<close>

lemma unat_32_minus: "p < (32 :: u8) \<Longrightarrow> unat (32 - p) = 32 - unat p"
  by (simp add: unat_sub)

lemma and_mask_eq_iff:
  "(a :: u32) AND NOT (mask n) = b AND NOT (mask n) \<longleftrightarrow> drop_bit n a = drop_bit n b"
proof
  assume l: "a AND NOT (mask n) = b AND NOT (mask n)"
  show "drop_bit n a = drop_bit n b"
  proof (rule bit_word_eqI)
    fix i
    assume "i < LENGTH(32)"
    have "bit (a AND NOT (mask n)) (n + i) = bit (b AND NOT (mask n)) (n + i)"
      using l by simp
    then show "bit (drop_bit n a) i = bit (drop_bit n b) i"
      by (auto simp: bit_simps dest: bit_imp_le_length)
  qed
next
  assume r: "drop_bit n a = drop_bit n b"
  show "a AND NOT (mask n) = b AND NOT (mask n)"
  proof (rule bit_word_eqI)
    fix i
    assume "i < LENGTH(32)"
    have "bit (drop_bit n a) (i - n) = bit (drop_bit n b) (i - n)" using r by simp
    then show "bit (a AND NOT (mask n)) i = bit (b AND NOT (mask n)) i"
      by (auto simp: bit_simps)
  qed
qed

lemma drop_bit_all: "drop_bit 32 (a :: u32) = 0"
  by (rule bit_word_eqI) (simp add: bit_simps)

lemma cidr_contains_iff:
  "cidr_contains c ip \<longleftrightarrow>
    drop_bit (32 - unat (cidr_prefix c)) ip = drop_bit (32 - unat (cidr_prefix c)) (cidr_addr c)"
proof -
  consider "cidr_prefix c = 0" | "32 \<le> cidr_prefix c" | "cidr_prefix c \<noteq> 0" "cidr_prefix c < 32"
    by (meson not_le)
  then show ?thesis
  proof cases
    case 1
    then show ?thesis by (simp add: cidr_contains_def drop_bit_all)
  next
    case 2
    then have "32 \<le> unat (cidr_prefix c)" by (simp add: word_le_nat_alt)
    with 2 show ?thesis by (auto simp: cidr_contains_def)
  next
    case 3
    then show ?thesis
      by (auto simp: cidr_contains_def Let_def and_mask_eq_iff unat_32_minus not_le)
  qed
qed

lemma drop_bit_eq_iff: "drop_bit n (a :: u32) = b \<longleftrightarrow> unat a div 2 ^ n = unat b"
  by (simp only: word_unat_eq_iff unsigned_drop_bit_eq take_bit_nat_eq_self unsigned_less)
    (simp add: drop_bit_eq_div take_bit_nat_eq_self)

lemma u8_of_nat_eq: "k < 256 \<Longrightarrow> (of_nat x :: u8) = of_nat k \<longleftrightarrow> x mod 256 = k"
  by (simp add: word_of_nat_eq_iff take_bit_nat_def)

lemma split_octet: "r < 256 \<Longrightarrow> x = 256 * q + r \<longleftrightarrow> x div 256 = q \<and> x mod 256 = (r :: nat)"
  by auto

lemma split_nibble:
  fixes x :: nat
  assumes "s < 16"
  shows "x div 16 = 16 * q + s \<longleftrightarrow> x div 256 = q \<and> 16 * s \<le> x mod 256 \<and> x mod 256 \<le> 16 * s + 15"
proof -
  have "x div 16 div 16 = x div 256" by (simp add: div_mult2_eq [symmetric])
  moreover have "x div 16 = 16 * q + s \<longleftrightarrow> x div 16 div 16 = q \<and> x div 16 mod 16 = s" using assms by auto
  moreover have "x mod 256 = 16 * (x div 16 mod 16) + x mod 16"
    using mod_mult2_eq [of x 16 16] by simp
  then have "x div 16 mod 16 = s \<longleftrightarrow> 16 * s \<le> x mod 256 \<and> x mod 256 \<le> 16 * s + 15"
    using mod_less_divisor [of 16 x] by linarith
  ultimately show ?thesis by simp
qed

lemma loopback_cidr: "ipv4_is_loopback a \<longleftrightarrow> cidr_contains \<lparr>cidr_addr = 0x7F000000, cidr_prefix = 8\<rparr> a"
proof -
  have "unat a div 16777216 < 256" using unat_u32_less [of a] by simp
  then show ?thesis
    using u8_of_nat_eq [of 127 "unat a div 16777216"]
    by (simp add: ipv4_is_loopback_def ipv4_octets_list cidr_contains_iff drop_bit_eq_iff)
qed

lemma link_local_cidr: "ipv4_is_link_local a \<longleftrightarrow> cidr_contains \<lparr>cidr_addr = 0xA9FE0000, cidr_prefix = 16\<rparr> a"
proof -
  have lt: "unat a div 16777216 < 256" using unat_u32_less [of a] by simp
  have dd: "unat a div 16777216 = unat a div 65536 div 256" by (simp add: div_mult2_eq [symmetric])
  show ?thesis
    using u8_of_nat_eq [of 169 "unat a div 16777216"] u8_of_nat_eq [of 254 "unat a div 65536"] lt
      split_octet [of 254 "unat a div 65536" 169]
    by (simp add: ipv4_is_link_local_def ipv4_octets_list cidr_contains_iff drop_bit_eq_iff dd)
qed

lemma u8_le_of_nat: "k < 256 \<Longrightarrow> (of_nat k :: u8) \<le> of_nat x \<longleftrightarrow> k \<le> x mod 256"
  "k < 256 \<Longrightarrow> (of_nat x :: u8) \<le> of_nat k \<longleftrightarrow> x mod 256 \<le> k"
  by (simp_all add: word_le_nat_alt unat_of_nat)

lemma private_cidr: "ipv4_is_private a \<longleftrightarrow>
    cidr_contains \<lparr>cidr_addr = 0x0A000000, cidr_prefix = 8\<rparr> a
  \<or> cidr_contains \<lparr>cidr_addr = 0xAC100000, cidr_prefix = 12\<rparr> a
  \<or> cidr_contains \<lparr>cidr_addr = 0xC0A80000, cidr_prefix = 16\<rparr> a"
proof -
  define x where "x = unat a div 65536"
  have lt: "x div 256 < 256" using unat_u32_less [of a] by (simp add: x_def)
  have dd: "unat a div 16777216 = x div 256" "unat a div 1048576 = x div 16"
    by (simp_all add: x_def div_mult2_eq [symmetric])
  have o: "ipv4_octets a ! 0 = of_nat (x div 256)" "ipv4_octets a ! 1 = of_nat x"
    by (simp_all add: ipv4_octets_list dd x_def)
  have c: "cidr_contains \<lparr>cidr_addr = 0x0A000000, cidr_prefix = 8\<rparr> a \<longleftrightarrow> x div 256 = 10"
    "cidr_contains \<lparr>cidr_addr = 0xAC100000, cidr_prefix = 12\<rparr> a \<longleftrightarrow> x div 16 = 2753"
    "cidr_contains \<lparr>cidr_addr = 0xC0A80000, cidr_prefix = 16\<rparr> a \<longleftrightarrow> x = 49320"
    by (simp_all add: cidr_contains_iff drop_bit_eq_iff dd x_def)
  have oct: "of_nat (x div 256) = (10 :: u8) \<longleftrightarrow> x div 256 = 10"
    "of_nat (x div 256) = (172 :: u8) \<longleftrightarrow> x div 256 = 172"
    "of_nat (x div 256) = (192 :: u8) \<longleftrightarrow> x div 256 = 192"
    "of_nat x = (168 :: u8) \<longleftrightarrow> x mod 256 = 168"
    "(16 :: u8) \<le> of_nat x \<longleftrightarrow> 16 \<le> x mod 256" "of_nat x \<le> (31 :: u8) \<longleftrightarrow> x mod 256 \<le> 31"
    using u8_of_nat_eq [of 10 "x div 256"] u8_of_nat_eq [of 172 "x div 256"]
      u8_of_nat_eq [of 192 "x div 256"] u8_of_nat_eq [of 168 x]
      u8_le_of_nat(1) [of 16 x] u8_le_of_nat(2) [of 31 x] lt by simp_all
  have "x div 16 = 2753 \<longleftrightarrow> x div 256 = 172 \<and> 16 \<le> x mod 256 \<and> x mod 256 \<le> 31"
    using split_nibble [of 1 x 172] by simp
  moreover have "x = 49320 \<longleftrightarrow> x div 256 = 192 \<and> x mod 256 = 168"
    using split_octet [of 168 x 192] by simp
  ultimately show ?thesis by (simp only: ipv4_is_private_def Let_def o oct c)
qed

lemma split_once_append: "c \<notin> set a \<Longrightarrow> split_once c (a @ c # b) = Some (a, b)"
  by (induction a) auto

subsection \<open>Correctness of the filter\<close>

text \<open>
  C31. An address range contains an address exactly when the two agree on the leading prefix
  bits; in particular prefix 0 contains every address and prefix 32 only its own.
\<close>

theorem cidr_contains_prefix:
  assumes "unat (cidr_prefix c) \<le> 32"
  shows "cidr_contains c ip \<longleftrightarrow> (\<forall>i < unat (cidr_prefix c). bit ip (31 - i) = bit (cidr_addr c) (31 - i))"
proof -
  let ?p = "unat (cidr_prefix c)"
  have hi: "\<not> j < 32 \<Longrightarrow> \<not> bit w j" for w :: u32 and j
    using bit_imp_le_length [of w j] by auto
  have "drop_bit (32 - ?p) ip = drop_bit (32 - ?p) (cidr_addr c)
      \<longleftrightarrow> (\<forall>j < 32. 32 - ?p \<le> j \<longrightarrow> bit ip j = bit (cidr_addr c) j)"
  proof -
    have "drop_bit (32 - ?p) ip = drop_bit (32 - ?p) (cidr_addr c)
        \<longleftrightarrow> (\<forall>i. bit ip (32 - ?p + i) = bit (cidr_addr c) (32 - ?p + i))"
      (is "?l \<longleftrightarrow> ?r")
    proof
      assume ?l
      then have "bit (drop_bit (32 - ?p) ip) i = bit (drop_bit (32 - ?p) (cidr_addr c)) i" for i by simp
      then show ?r by (simp add: bit_drop_bit_eq)
    next
      assume ?r
      then show ?l by (intro bit_eqI) (simp add: bit_drop_bit_eq)
    qed
    also have "\<dots> \<longleftrightarrow> (\<forall>j. 32 - ?p \<le> j \<longrightarrow> bit ip j = bit (cidr_addr c) j)"
      by (metis le_add1 le_add_diff_inverse)
    also have "\<dots> \<longleftrightarrow> (\<forall>j < 32. 32 - ?p \<le> j \<longrightarrow> bit ip j = bit (cidr_addr c) j)"
      using hi by blast
    finally show ?thesis .
  qed
  also have "\<dots> \<longleftrightarrow> (\<forall>i < ?p. bit ip (31 - i) = bit (cidr_addr c) (31 - i))"
  proof (rule iffI; intro allI impI)
    fix i
    assume a: "\<forall>j < 32. 32 - ?p \<le> j \<longrightarrow> bit ip j = bit (cidr_addr c) j" and "i < ?p"
    then show "bit ip (31 - i) = bit (cidr_addr c) (31 - i)" using assms by auto
  next
    fix j
    assume a: "\<forall>i < ?p. bit ip (31 - i) = bit (cidr_addr c) (31 - i)" and "j < 32" "32 - ?p \<le> j"
    then have "31 - j < ?p" using assms by linarith
    then have "bit ip (31 - (31 - j)) = bit (cidr_addr c) (31 - (31 - j))" using a by blast
    then show "bit ip j = bit (cidr_addr c) j" using \<open>j < 32\<close> by simp
  qed
  finally show ?thesis by (simp add: cidr_contains_iff)
qed

theorem cidr_contains_prefix_witness:
  "cidr_contains \<lparr>cidr_addr = 0xC0000200, cidr_prefix = 24\<rparr> 0xC00002FF
    \<and> list_all (\<lambda>i. bit (0xC00002FF :: u32) (31 - i) = bit (0xC0000200 :: u32) (31 - i)) [0..<24]"
  using cidr_contains_prefix [of "\<lparr>cidr_addr = 0xC0000200, cidr_prefix = 24\<rparr>" "0xC00002FF"]
  by (simp add: cidr_contains_iff drop_bit_eq_iff list_all_iff del: upt_Suc upt_rec_numeral)

text \<open>
  Reading back a printed range gives the range when its prefix is at most 32, and every
  range the parser returns has such a prefix.
\<close>

theorem cidr_from_str_roundtrip:
  "cidr_from_str (show_ipv4 a @ ''/'' @ show_nat (unat p))
      = (if p \<le> 32 then Inr \<lparr>cidr_addr = a, cidr_prefix = p\<rparr>
         else Inl (''CIDR prefix out of range: '' @ show_nat (unat p)))
    \<and> {c. cidr_from_str s = Inr c} \<subseteq> {c. cidr_prefix c \<le> 32}"
proof
  have "CHR ''/'' \<notin> set (show_ipv4 a)"
    using show_ipv4_chars [of "CHR ''/''" a] by (auto simp: is_digit_def to_digit_def code_def)
  then have "split_once (CHR ''/'') (show_ipv4 a @ ''/'' @ show_nat (unat p)) = Some (show_ipv4 a, show_nat (unat p))"
    by (simp add: split_once_append)
  moreover have "parse_u8 (show_nat (unat p)) = Some p"
    by (rule parse_u8_show)
  ultimately show "cidr_from_str (show_ipv4 a @ ''/'' @ show_nat (unat p))
      = (if p \<le> 32 then Inr \<lparr>cidr_addr = a, cidr_prefix = p\<rparr>
         else Inl (''CIDR prefix out of range: '' @ show_nat (unat p)))"
    by (simp add: cidr_from_str_def parse_show_ipv4 not_le)
  show "{c. cidr_from_str s = Inr c} \<subseteq> {c. cidr_prefix c \<le> 32}"
    by (auto simp: cidr_from_str_def try_bind_Inr_iff split: if_splits)
qed

text \<open>
  C23. The blocking decision, case by case. The first per-client range in the table's order that
  contains an IPv4 client decides alone; otherwise a matching regular expression blocks,
  whatever the allowlist says; otherwise the two lists decide. The counter
  \<open>blocked_total\<close> grows by one exactly when the lists made the decision to block,
  not for a regular expression and not for a per-client block.
\<close>

theorem is_blocked_decision:
  "is_blocked is_match f m q client =
    (let first_range = (case client of
           V4 ip \<Rightarrow> map_option snd (find (\<lambda>(net, _). cidr_contains net ip) (fl_per_client f))
         | V6 _ \<Rightarrow> None);
         by_regex = (\<exists>re \<in> set (fl_regex_blocklist f). is_match re q);
         by_lists = (\<exists>d \<in> bl_entries (fl_blocklist f). dot_suffix d (normalize q))
           \<and> \<not> (\<exists>d \<in> al_entries (fl_allowlist f). dot_suffix d (normalize q))
     in (case first_range of Some block \<Rightarrow> block | None \<Rightarrow> by_regex \<or> by_lists,
         if first_range = None \<and> \<not> by_regex \<and> by_lists then metrics_increment m BlockedTotal 1 else m))"
proof -
  have ov: "client_override acl ip = map_option snd (find (\<lambda>(net, _). cidr_contains net ip) acl)" for acl ip
    by (induction acl) auto
  have b: "blocked (fl_blocklist f) (fl_allowlist f) q \<longleftrightarrow>
      (\<exists>d \<in> bl_entries (fl_blocklist f). dot_suffix d (normalize q))
        \<and> \<not> (\<exists>d \<in> al_entries (fl_allowlist f). dot_suffix d (normalize q))"
    by (auto simp: blocked_def block_match.matches_iff allow_match.matches_iff)
  show ?thesis
    unfolding is_blocked_def ov Let_def b list_ex_iff by (auto split: option.split ip_addr.split)
qed

text \<open>
  C32. Rebinding detection reports, when it is on, exactly the answers that hold an A record in
  127.0.0.0/8, 10.0.0.0/8, 172.16.0.0/12, 192.168.0.0/16 or 169.254.0.0/16, or an AAAA
  record that is \<open>::1\<close>, \<open>::\<close> or in fc00::/7, and counts each report.
\<close>

definition rebinding_ranges :: "ipv4_cidr list" where
  "rebinding_ranges =
     [\<lparr>cidr_addr = 0x7F000000, cidr_prefix = 8\<rparr>, \<lparr>cidr_addr = 0x0A000000, cidr_prefix = 8\<rparr>,
      \<lparr>cidr_addr = 0xAC100000, cidr_prefix = 12\<rparr>, \<lparr>cidr_addr = 0xC0A80000, cidr_prefix = 16\<rparr>,
      \<lparr>cidr_addr = 0xA9FE0000, cidr_prefix = 16\<rparr>]"


end
