(* ===== verification/Dns64.thy ===== *)
theory Dns64
  imports NetAddr Metrics
begin

text \<open>
  DNS64 synthesis of \<open>src/core/resolver/dns64.rs\<close>: parsing of the prefix and the
  embedding of IPv4 addresses into it, with the counter of synthesised records.
\<close>

record dns64_prefix =
  px_addr :: ipv6
  px_len :: u8

definition dns64_parse :: "string \<Rightarrow> dns64_prefix option" where
  "dns64_parse s =
     (case split_once (CHR ''/'') s of
        None \<Rightarrow> None
      | Some (addr_str, len_str) \<Rightarrow>
          (case parse_ipv6 addr_str of
             None \<Rightarrow> None
           | Some addr \<Rightarrow>
               (case parse_u8 len_str of
                  None \<Rightarrow> None
                | Some len \<Rightarrow> if 128 < len then None else Some \<lparr>px_addr = addr, px_len = len\<rparr>)))"

definition synthesize_one :: "ipv4 \<Rightarrow> dns64_prefix \<Rightarrow> ipv6 option" where
  "synthesize_one v4 prefix =
     (let v4_bytes = ipv4_octets v4; v6_bytes = ipv6_octets (px_addr prefix)
      in if px_len prefix = 96 then
           (if take 12 v6_bytes \<noteq> take 12 (ipv6_octets (px_addr prefix)) then None
            else Some (ipv6_from_octets (v6_bytes
              [12 := v4_bytes ! 0, 13 := v4_bytes ! 1, 14 := v4_bytes ! 2, 15 := v4_bytes ! 3])))
         else if px_len prefix = 64 then
           (if take 8 v6_bytes \<noteq> take 8 (ipv6_octets (px_addr prefix)) then None
            else Some (ipv6_from_octets (v6_bytes
              [8 := v4_bytes ! 0, 9 := v4_bytes ! 1, 10 := v4_bytes ! 2, 11 := v4_bytes ! 3,
               12 := 0, 13 := 0, 14 := 0, 15 := 0])))
         else None)"

definition synthesize_aaaa ::
  "metrics_registry \<Rightarrow> ipv4 list \<Rightarrow> dns64_prefix \<Rightarrow> ipv6 list \<times> metrics_registry" where
  "synthesize_aaaa m a_records prefix =
     (let out = List.map_filter (\<lambda>a. synthesize_one a prefix) a_records
      in (out, if out \<noteq> [] then metrics_increment m Dns64SynthesizedTotal (of_nat (length out)) else m))"

subsection \<open>Embedding\<close>

lemma list_update_suffix:
  "length xs = 16 \<Longrightarrow> xs[12 := a, 13 := b, 14 := c, 15 := d] = take 12 xs @ [a, b, c, d]"
  by (rule nth_equalityI) (auto simp: nth_append nth_list_update less_Suc_eq numeral_eq_Suc)

lemma list_update_middle:
  "length xs = 16 \<Longrightarrow> xs[8 := a, 9 := b, 10 := c, 11 := d, 12 := e, 13 := f, 14 := g, 15 := h]
    = take 8 xs @ [a, b, c, d, e, f, g, h]"
  by (rule nth_equalityI) (auto simp: nth_append nth_list_update less_Suc_eq numeral_eq_Suc)

lemma ipv4_octets_nth: "[ipv4_octets a ! 0, ipv4_octets a ! 1, ipv4_octets a ! 2, ipv4_octets a ! 3] = ipv4_octets a"
  by (simp add: ipv4_octets_list)

lemma synthesize_96:
  "px_len p = 96 \<Longrightarrow> map_option ipv6_octets (synthesize_one a p)
    = Some (take 12 (ipv6_octets (px_addr p)) @ ipv4_octets a)"
  using ipv4_octets_nth [of a]
  by (simp add: synthesize_one_def Let_def list_update_suffix ipv6_octets_from_octets)

lemma synthesize_64:
  "px_len p = 64 \<Longrightarrow> map_option ipv6_octets (synthesize_one a p)
    = Some (take 8 (ipv6_octets (px_addr p)) @ ipv4_octets a @ [0, 0, 0, 0])"
  using ipv4_octets_nth [of a]
  by (simp add: synthesize_one_def Let_def list_update_middle ipv6_octets_from_octets)

lemma synthesize_other: "px_len p \<noteq> 96 \<Longrightarrow> px_len p \<noteq> 64 \<Longrightarrow> synthesize_one a p = None"
  by (simp add: synthesize_one_def)

text \<open>The IPv4 address that a client reads out of a synthesised address.\<close>

definition embedded_v4 :: "u8 \<Rightarrow> ipv6 \<Rightarrow> ipv4" where
  "embedded_v4 len v6 =
     ipv4_from_octets (if len = 96 then drop 12 (ipv6_octets v6) else take 4 (drop 8 (ipv6_octets v6)))"

lemma synthesize_embedded:
  assumes "synthesize_one a p = Some v6"
  shows "embedded_v4 (px_len p) v6 = a"
    "take (unat (px_len p) div 8) (ipv6_octets v6) = take (unat (px_len p) div 8) (ipv6_octets (px_addr p))"
proof -
  consider "px_len p = 96" | "px_len p = 64" using assms synthesize_other [of p a] by force
  then have "embedded_v4 (px_len p) v6 = a \<and>
    take (unat (px_len p) div 8) (ipv6_octets v6) = take (unat (px_len p) div 8) (ipv6_octets (px_addr p))"
  proof cases
    case 1
    then show ?thesis
      using synthesize_96 [OF 1, of a] assms by (simp add: embedded_v4_def ipv4_from_octets_octets)
  next
    case 2
    then show ?thesis
      using synthesize_64 [OF 2, of a] assms by (simp add: embedded_v4_def ipv4_from_octets_octets)
  qed
  then show "embedded_v4 (px_len p) v6 = a"
    "take (unat (px_len p) div 8) (ipv6_octets v6) = take (unat (px_len p) div 8) (ipv6_octets (px_addr p))"
    by simp_all
qed

lemma synthesize_defined_iff: "synthesize_one a p \<noteq> None \<longleftrightarrow> px_len p = 96 \<or> px_len p = 64"
  using synthesize_96 [of p a] synthesize_64 [of p a] synthesize_other [of p a] by fastforce

subsection \<open>Correctness of the synthesis\<close>

text \<open>
  C33. Every synthesised address keeps the prefix, and the IPv4 address can be read back from
  it: with a prefix length of 96 or 64 each A record gives one AAAA record, in order,
  and the counter grows by their number; with any other length nothing is synthesised
  and the counter stays.
\<close>

theorem dns64_synthesis_roundtrip:
  "let (out, m') = synthesize_aaaa m as p
   in map (embedded_v4 (px_len p)) out = (if px_len p \<in> {64, 96} then as else [])
    \<and> list_all (\<lambda>v6. take (unat (px_len p) div 8) (ipv6_octets v6)
        = take (unat (px_len p) div 8) (ipv6_octets (px_addr p))) out
    \<and> m' = (if px_len p \<in> {64, 96} \<and> as \<noteq> []
        then metrics_increment m Dns64SynthesizedTotal (of_nat (length as)) else m)"
proof (cases "px_len p \<in> {64, 96}")
  case True
  define syn where "syn a = the (synthesize_one a p)" for a
  have some: "synthesize_one a p = Some (syn a)" for a
    using True synthesize_defined_iff [of a p] by (auto simp: syn_def)
  have out: "List.map_filter (\<lambda>a. synthesize_one a p) as = map syn as"
    by (simp add: map_filter_def some)
  have "map (embedded_v4 (px_len p)) (map syn as) = as"
    using synthesize_embedded(1) [OF some] by (simp add: map_idI)
  moreover have "list_all (\<lambda>v6. take (unat (px_len p) div 8) (ipv6_octets v6)
        = take (unat (px_len p) div 8) (ipv6_octets (px_addr p))) (map syn as)"
    using synthesize_embedded(2) [OF some] by (simp add: list_all_iff)
  ultimately show ?thesis
    using True by (simp only: synthesize_aaaa_def out Let_def case_prod_conv) auto
next
  case False
  then have "List.map_filter (\<lambda>a. synthesize_one a p) as = []"
    using synthesize_other [of p] by (simp add: map_filter_def)
  with False show ?thesis by (simp add: synthesize_aaaa_def)
qed

text \<open>
  The two embeddings, octet by octet. With length 96 the IPv4 address fills octets 12 to 15;
  with length 64 it fills octets 8 to 11 and the rest is zero, so octet 8, which RFC 6052
  reserves as zero, carries the first octet of the IPv4 address.
\<close>

theorem dns64_embedding_octets:
  "map_option ipv6_octets (synthesize_one a p) =
    (if px_len p = 96 then Some (take 12 (ipv6_octets (px_addr p)) @ ipv4_octets a)
     else if px_len p = 64 then Some (take 8 (ipv6_octets (px_addr p)) @ ipv4_octets a @ [0, 0, 0, 0])
     else None)"
  using synthesize_96 [of p a] synthesize_64 [of p a] synthesize_other [of p a] by simp

end
