(* ===== verification/QnameMin.thy ===== *)
theory QnameMin
  imports DnsData Config Metrics
begin

text \<open>
  The query-name minimisation driver of \<open>src/core/resolver/qname_min.rs\<close>. The
  resolver it drives is a parameter that passes the outside world on; names are
  hickory's. \<open>None\<close> stands for a peel loop that never ends.
\<close>

type_synonym ('n, 'w) min_resolver = "'n \<Rightarrow> record_type \<Rightarrow> 'w \<Rightarrow> (string, 'n rr list) result \<times> 'w"

record 'n qmin_result =
  qr_records :: "'n rr list"
  qr_final_qname :: 'n
  qr_steps :: u8
  qr_fell_back :: bool

text \<open>The adapter for the hickory resolver keeps only the answers.\<close>

definition hickory_min_resolver :: "('n, 'w) upstream \<Rightarrow> ('n, 'w) min_resolver" where
  "hickory_min_resolver up n t w =
     (case up n t w of (Inl e, w') \<Rightarrow> (Inl e, w') | (Inr l, w') \<Rightarrow> (Inr (lk_answers l), w'))"

text \<open>The peel loop: the names it pushes, and the value of \<open>current\<close> when it ends.\<close>

partial_function (option) peel_loop :: "'n hickory \<Rightarrow> 'n \<Rightarrow> ('n list \<times> 'n) option" where
  "peel_loop h current =
     (if 1 < num_labels h current then
        Option.bind (peel_loop h (base_name h current))
          (\<lambda>(out, last). Some (base_name h current # out, last))
      else Some ([], current))"

definition peel_labels :: "'n hickory \<Rightarrow> 'n \<Rightarrow> 'n list option" where
  "peel_labels h original =
     map_option (\<lambda>(out, last). original # out @ (if \<not> is_root h last then [name_root h] else []))
       (peel_loop h original)"

record 'n qmin_state =
  last_records :: "'n rr list"
  last_qname :: 'n
  last_error :: "string option"
  steps_taken :: u8

definition qmin_step ::
  "('n, 'w) min_resolver \<Rightarrow> record_type \<Rightarrow> nat \<Rightarrow> 'n \<Rightarrow> 'n qmin_state \<Rightarrow> 'w \<Rightarrow> 'n qmin_state \<times> 'w" where
  "qmin_step res qtype i lbl s w =
     (let s1 = s\<lparr>steps_taken := of_nat (i + 1)\<rparr>
      in case res lbl qtype w of
           (Inr records, w') \<Rightarrow>
             ((if records \<noteq> [] then s1\<lparr>last_records := records, last_qname := lbl\<rparr> else s1)
                \<lparr>last_error := None\<rparr>, w')
         | (Inl e, w') \<Rightarrow> (s1\<lparr>last_error := Some e\<rparr>, w'))"

fun qmin_loop ::
  "('n, 'w) min_resolver \<Rightarrow> record_type \<Rightarrow> nat \<Rightarrow> 'n list \<Rightarrow> 'n qmin_state \<Rightarrow> 'w \<Rightarrow> 'n qmin_state \<times> 'w" where
  "qmin_loop res qtype i [] s w = (s, w)"
| "qmin_loop res qtype i (lbl # labels) s w =
     (let (s', w') = qmin_step res qtype i lbl s w in qmin_loop res qtype (Suc i) labels s' w')"

definition qmin_plan :: "qmin_config \<Rightarrow> 'n list \<Rightarrow> nat" where
  "qmin_plan cfg labels = min (max (unat (qm_max_iterations cfg)) 1) (length labels)"

definition resolve_with_minimization ::
  "'n hickory \<Rightarrow> ('n, 'w) min_resolver \<Rightarrow> 'n \<Rightarrow> record_type \<Rightarrow> qmin_config \<Rightarrow> metrics_registry \<Rightarrow> 'w
     \<Rightarrow> ((string, 'n qmin_result) result \<times> metrics_registry \<times> 'w) option" where
  "resolve_with_minimization h res original qtype cfg m w =
     (if num_labels h original = 0 then Some (Inl ''qname-min: cannot minimize root name'', m, w)
      else map_option (\<lambda>labels.
        let (s, w1) = qmin_loop res qtype 0 (take (qmin_plan cfg labels) labels)
               \<lparr>last_records = [], last_qname = original, last_error = None, steps_taken = 0\<rparr> w;
            m1 = metrics_increment m QminStepsTotal (ucast (steps_taken s))
        in if last_records s = [] then
             (case res original qtype w1 of
                (Inr records, w2) \<Rightarrow>
                  (Inr \<lparr>qr_records = records, qr_final_qname = original, qr_steps = steps_taken s,
                        qr_fell_back = True\<rparr>,
                   metrics_increment m1 QminStepsTotal 1, w2)
              | (Inl e, w2) \<Rightarrow> (Inl (unwrap_or e (last_error s)), m1, w2))
           else (Inr \<lparr>qr_records = last_records s, qr_final_qname = last_qname s,
                      qr_steps = steps_taken s, qr_fell_back = False\<rparr>, m1, w1))
        (peel_labels h original))"

subsection \<open>Specification\<close>

text \<open>What the resolver answers to a list of names asked in order.\<close>

fun responses ::
  "('n, 'w) min_resolver \<Rightarrow> record_type \<Rightarrow> 'n list \<Rightarrow> 'w \<Rightarrow> (string, 'n rr list) result list \<times> 'w" where
  "responses res qtype [] w = ([], w)"
| "responses res qtype (n # ns) w =
     (let (r, w') = res n qtype w; (rs, w'') = responses res qtype ns w' in (r # rs, w''))"

definition positives :: "('n \<times> (string, 'n rr list) result) list \<Rightarrow> ('n \<times> 'n rr list) list" where
  "positives xs = List.map_filter (\<lambda>(n, r). case r of
     Inr rs \<Rightarrow> if rs \<noteq> [] then Some (n, rs) else None | Inl e \<Rightarrow> None) xs"

subsection \<open>Peeling\<close>

lemma counted_length: "length (counted_labels ls) \<le> length ls"
  by (simp add: counted_labels_def split: list.split)

lemma peel_loop_spec:
  assumes "name_laws h labels"
  shows "\<exists>out last. peel_loop h n = Some (out, last) \<and> num_labels h last \<le> 1
    \<and> (\<exists>k. length out = k \<and> map labels (n # out) = map (\<lambda>i. drop i (labels n)) [0..<Suc k]
        \<and> labels last = drop k (labels n) \<and> (labels n \<noteq> [] \<longrightarrow> labels last \<noteq> []))"
proof (induction "length (labels n)" arbitrary: n rule: less_induct)
  case less
  show ?case
  proof (cases "1 < num_labels h n")
    case False
    then show ?thesis by (simp add: peel_loop.simps)
  next
    case True
    then have "1 < length (labels n)"
      using assms counted_length [of "labels n"] by (simp add: name_laws_def)
    moreover have b: "labels (base_name h n) = tl (labels n)"
      using assms by (simp add: name_laws_def)
    ultimately have "length (labels (base_name h n)) < length (labels n)" by simp
    from less [OF this] obtain out last k where IH: "peel_loop h (base_name h n) = Some (out, last)"
      "num_labels h last \<le> 1" "length out = k"
      "map labels (base_name h n # out) = map (\<lambda>i. drop i (tl (labels n))) [0..<Suc k]"
      "labels last = drop k (tl (labels n))" "tl (labels n) \<noteq> [] \<longrightarrow> labels last \<noteq> []"
      using b by auto
    have sh: "map (\<lambda>i. drop i (tl ls)) [0..<Suc k] = map (\<lambda>i. drop i ls) [Suc 0..<Suc (Suc k)]" for ls :: "string list"
      by (simp only: map_Suc_upt [symmetric] map_map comp_def drop_Suc)
    have "peel_loop h n = Some (base_name h n # out, last)"
      using True IH(1) by (simp add: peel_loop.simps [of h n])
    moreover have "map labels (n # base_name h n # out) = map (\<lambda>i. drop i (labels n)) [0..<Suc (Suc k)]"
    proof -
      have "[0..<Suc (Suc k)] = 0 # [Suc 0..<Suc (Suc k)]" by (simp add: upt_conv_Cons del: upt_Suc)
      then show ?thesis using IH(4) sh [of "labels n"] by (simp del: upt_Suc)
    qed
    moreover have "labels last = drop (Suc k) (labels n)" using IH(5) by (simp add: drop_Suc)
    moreover have "labels last \<noteq> []" using IH(6) \<open>1 < length (labels n)\<close> by (cases "labels n") auto
    ultimately show ?thesis using IH(2,3) by auto
  qed
qed

lemma peel_labels_returns:
  assumes "name_laws h labels"
  obtains ns where "peel_labels h n = Some ns" "hd ns = n" "ns \<noteq> []"
  using peel_loop_spec [OF assms, of n] by (auto simp: peel_labels_def)

lemma peel_labels_suffixes:
  assumes "name_laws h labels" "labels n \<noteq> []" "''*'' \<notin> set (labels n)"
  shows "map_option (map labels) (peel_labels h n)
    = Some (map (\<lambda>i. drop i (labels n)) [0..<Suc (length (labels n))])"
proof -
  obtain out last k where p: "peel_loop h n = Some (out, last)" "num_labels h last \<le> 1" "length out = k"
    "map labels (n # out) = map (\<lambda>i. drop i (labels n)) [0..<Suc k]" "labels last = drop k (labels n)"
    "labels last \<noteq> []"
    using peel_loop_spec [OF assms(1), of n] assms(2) by auto
  let ?L = "length (labels n)"
  have num: "num_labels h x = length (labels x)" if "''*'' \<notin> set (labels x)" for x
    using that assms(1) by (auto simp: name_laws_def counted_labels_def split: list.split)
  have "''*'' \<notin> set (labels last)" using p(5) assms(3) by (auto dest: in_set_dropD)
  then have "length (labels last) \<le> 1" using p(2) num by simp
  then have L: "?L = Suc k" using p(5,6) by (cases "labels last") auto
  have "\<not> is_root h last" using p(6) assms(1) by (auto simp: name_laws_def)
  moreover have "labels (name_root h) = []" using assms(1) by (simp add: name_laws_def)
  ultimately have "map_option (map labels) (peel_labels h n) = Some (map labels (n # out) @ [[]])"
    using p(1) by (simp add: peel_labels_def)
  also have "\<dots> = Some (map (\<lambda>i. drop i (labels n)) [0..<Suc k] @ [[]])" by (simp only: p(4))
  finally show ?thesis using L by simp
qed

subsection \<open>The loop\<close>

lemma qmin_loop_spec:
  "qmin_loop res qtype i ns s w =
    (let (rs, w') = responses res qtype ns w; ps = positives (zip ns rs)
     in (\<lparr>last_records = (if ps = [] then last_records s else snd (last ps)),
          last_qname = (if ps = [] then last_qname s else fst (last ps)),
          last_error = (if ns = [] then last_error s
            else case last rs of Inl e \<Rightarrow> Some e | Inr _ \<Rightarrow> None),
          steps_taken = (if ns = [] then steps_taken s else of_nat (i + length ns))\<rparr>, w'))"
proof (induction ns arbitrary: i s w)
  case Nil
  then show ?case by (simp add: positives_def)
next
  case (Cons n ns)
  obtain r w1 where r: "res n qtype w = (r, w1)" by fastforce
  obtain rs w2 where rs: "responses res qtype ns w1 = (rs, w2)" by fastforce
  have len: "length rs = length ns"
    using rs by (induction ns arbitrary: rs w1 w2) (auto split: prod.splits)
  show ?case
  proof (cases r)
    case (Inl e)
    then show ?thesis
      using r rs len by (auto simp: Cons.IH qmin_step_def Let_def positives_def)
  next
    case (Inr recs)
    then show ?thesis
      using r rs len by (auto simp: Cons.IH qmin_step_def Let_def positives_def)
  qed
qed

lemma qmin_plan_pos: "ns \<noteq> [] \<Longrightarrow> 0 < qmin_plan cfg ns"
  by (cases ns) (auto simp: qmin_plan_def)

lemma qmin_plan_le: "qmin_plan cfg ns \<le> length ns" "qmin_plan cfg ns \<le> 255"
proof -
  have "unat (qm_max_iterations cfg) \<le> 255"
    using unat_u8_less [of "qm_max_iterations cfg"] by (simp add: less_Suc_eq_le [symmetric] del: unat_u8_less)
  then show "qmin_plan cfg ns \<le> length ns" "qmin_plan cfg ns \<le> 255" by (auto simp: qmin_plan_def)
qed

lemma responses_snoc_world:
  "responses res qtype (ns @ [n]) w =
    (let (rs, w') = responses res qtype ns w; (r, w'') = res n qtype w' in (rs @ [r], w''))"
  by (induction ns arbitrary: w) (auto simp: Let_def split: prod.splits)

subsection \<open>Correctness of the driver\<close>

text \<open>
  Peeling a name whose labels hold no asterisk gives the name itself first, then the name
  without its first label, and so on down to the root: the longest query name comes first.
\<close>

theorem peel_labels_longest_first:
  assumes "name_laws h labels" "labels n \<noteq> []" "''*'' \<notin> set (labels n)"
  shows "map_option (map labels) (peel_labels h n)
    = Some (map (\<lambda>i. drop i (labels n)) [0..<Suc (length (labels n))])"
  by (rule peel_labels_suffixes [OF assms])

theorem peel_labels_longest_first_witness:
  "peel_labels (list_hickory []) [''www'', ''example'', ''com'']
    = Some [[''www'', ''example'', ''com''], [''example'', ''com''], [''com''], []]"
  using peel_labels_longest_first [OF list_hickory_names, of "[''www'', ''example'', ''com'']" "[]"]
  by (simp add: option.map_ident)

text \<open>
  C18. A minimised resolution of a name with at least one label always returns. It asks the
  planned names in the order of the peel list; the answer is the one to the last planned
  name, that is the shortest, whose answer is not empty; only when every planned query
  failed or came back empty is the full name asked again. If that fails too, the error is
  the one of the last planned query when that query failed, and the fallback's otherwise.
\<close>

theorem minimization_result:
  assumes "name_laws h labels" "num_labels h n \<noteq> 0"
  shows "\<exists>ns. peel_labels h n = Some ns \<and> hd ns = n \<and>
    (let plan = take (qmin_plan cfg ns) ns;
         (rs, w1) = responses res t plan w;
         ps = positives (zip plan rs);
         (r, w2) = res n t w1
     in plan \<noteq> [] \<and>
       map_option (\<lambda>(res, m', w'). (map_sum id (\<lambda>q. (qr_records q, qr_final_qname q, qr_fell_back q)) res, w'))
         (resolve_with_minimization h res n t cfg m w)
       = Some (if ps \<noteq> [] then (Inr (snd (last ps), fst (last ps), False), w1)
         else case r of
             Inr recs \<Rightarrow> (Inr (recs, n, True), w2)
           | Inl e \<Rightarrow> (Inl (case last rs of Inl e' \<Rightarrow> e' | Inr _ \<Rightarrow> e), w2)))"
proof -
  obtain ns where ns: "peel_labels h n = Some ns" "hd ns = n" "ns \<noteq> []"
    using peel_labels_returns [OF assms(1)] by blast
  let ?plan = "take (qmin_plan cfg ns) ns"
  have plan: "?plan \<noteq> []" using qmin_plan_pos [OF ns(3), of cfg] ns(3) by simp
  obtain rs w1 where rs: "responses res t ?plan w = (rs, w1)" by fastforce
  obtain r w2 where r: "res n t w1 = (r, w2)" by fastforce
  have ne: "positives xs \<noteq> [] \<Longrightarrow> snd (last (positives xs)) \<noteq> []" for xs :: "('a \<times> (string, 'a rr list) result) list"
  proof -
    assume "positives xs \<noteq> []"
    then have "last (positives xs) \<in> set (positives xs)" by simp
    then show ?thesis by (auto simp: positives_def map_filter_def split: sum.splits if_splits)
  qed
  show ?thesis
    using ns rs r plan ne assms(2)
    by (auto simp: resolve_with_minimization_def qmin_loop_spec Let_def unwrap_or_def split: sum.splits)
qed

definition demo_rr :: "string list \<Rightarrow> ipv4 \<Rightarrow> string list rr" where
  "demo_rr n a = from_rdata n 60 (RD_A a)"

text \<open>An upstream that knows an address for the full name and another for its parent.\<close>

definition demo_res :: "(string list, (string list) list) min_resolver" where
  "demo_res n t log =
     (if n = [''www'', ''corp''] then Inr [demo_rr n 1] else if n = [''corp''] then Inr [demo_rr n 2]
      else Inl ''no such name'', log @ [n])"

theorem minimization_result_witness:
  "num_labels (list_hickory []) [''www'', ''corp''] \<noteq> 0 \<and>
    map_option (\<lambda>(r, m', w'). (map_sum id (\<lambda>q. (qr_records q, qr_final_qname q, qr_fell_back q)) r, w'))
      (resolve_with_minimization (list_hickory []) demo_res [''www'', ''corp''] T_A default_qmin metrics_new [])
    = Some (Inr ([demo_rr [''corp''] 2], [''corp''], False), [[''www'', ''corp''], [''corp''], []])"
proof -
  have nl: "num_labels (list_hickory []) [''www'', ''corp''] \<noteq> 0" by code_simp
  have p: "peel_labels (list_hickory []) [''www'', ''corp''] = Some [[''www'', ''corp''], [''corp''], []]"
    using peel_labels_suffixes [OF list_hickory_names, of "[''www'', ''corp'']" "[]"] by simp
  have plan: "qmin_plan default_qmin [[''www'', ''corp''], [''corp''], []] = 3"
    by (simp add: qmin_plan_def default_qmin_def)
  show ?thesis
    using minimization_result [OF list_hickory_names nl, of default_qmin demo_res T_A "[]" metrics_new] nl
    by (simp add: p plan demo_res_def positives_def map_filter_def demo_rr_def from_rdata_def)
qed

text \<open>
  The step counter: a resolution of a name with labels adds the number of planned queries,
  which is at most 255 and at most the length of the peel list, and one more when it
  falls back successfully; a name without labels is refused without any query.
\<close>

theorem minimization_counts_steps:
  assumes "metrics_populated m" "resolve_with_minimization h res n t cfg m w = Some (r, m', w')"
  shows "if num_labels h n = 0 then r = Inl ''qname-min: cannot minimize root name'' \<and> m' = m \<and> w' = w
    else \<exists>ns. peel_labels h n = Some ns \<and>
      metrics_read m' QminStepsTotal = metrics_read m QminStepsTotal + of_nat (qmin_plan cfg ns)
        + (case r of Inr q \<Rightarrow> if qr_fell_back q then 1 else 0 | Inl e \<Rightarrow> 0)"
proof (cases "num_labels h n = 0")
  case True
  then show ?thesis using assms(2) by (simp add: resolve_with_minimization_def)
next
  case False
  then obtain ns where ns: "peel_labels h n = Some ns"
    using assms(2) by (auto simp: resolve_with_minimization_def)
  define k where "k = qmin_plan cfg ns"
  have len: "length (take k ns) = k" "k \<le> 255" using qmin_plan_le [of cfg ns] by (simp_all add: k_def)
  have "ns \<noteq> []" using ns by (auto simp: peel_labels_def)
  then have ne: "take k ns \<noteq> []" using qmin_plan_pos [of ns cfg] by (simp add: k_def)
  have up: "ucast (of_nat k :: u8) = (of_nat k :: u64)"
    using len(2) by (simp add: unsigned_ucast_eq word_unat_eq_iff take_bit_nat_def unat_of_nat)
  note inc = registry.read_incr [OF assms(1)] registry.read_incr [OF registry.invar_incr [OF assms(1)]]
  show ?thesis
    using assms(2) False ns ne len up
    by (auto simp: resolve_with_minimization_def qmin_loop_spec Let_def inc k_def [symmetric]
        split: prod.splits sum.splits if_splits)
qed

theorem minimization_counts_steps_witness:
  "\<exists>r m' w'. resolve_with_minimization (list_hickory []) demo_res [''www'', ''corp''] T_A default_qmin
      metrics_new [] = Some (r, m', w') \<and> metrics_read m' QminStepsTotal = 3"
proof -
  have p: "peel_labels (list_hickory []) [''www'', ''corp''] = Some [[''www'', ''corp''], [''corp''], []]"
    using peel_labels_suffixes [OF list_hickory_names, of "[''www'', ''corp'']" "[]"] by simp
  have n: "num_labels (list_hickory []) [''www'', ''corp''] = 2" by code_simp
  have plan: "qmin_plan default_qmin [[''www'', ''corp''], [''corp''], []] = 3"
    by (simp add: qmin_plan_def default_qmin_def)
  obtain r m' w' where r: "resolve_with_minimization (list_hickory []) demo_res [''www'', ''corp''] T_A
      default_qmin metrics_new [] = Some (r, m', w')" "\<exists>q. r = Inr q \<and> \<not> qr_fell_back q"
    by (auto simp: resolve_with_minimization_def n p plan qmin_loop_spec demo_res_def positives_def
        map_filter_def)
  then show ?thesis
    using minimization_counts_steps [OF metrics_new_populated r(1)] n p plan
    by (auto simp: metrics_read_new)
qed

end
