(* ===== verification/Forward.thy ===== *)
theory Forward
  imports Cache DnsFilter Dns64 QnameMin
begin

text \<open>
  The caching forwarder of \<open>src/core/resolver/forward.rs\<close>. The upstream resolver and
  hickory's names and message codec are parameters; the outside world that the upstream
  moves on also tells the time (\<open>clock\<close>). The state is the shared cache, the metrics,
  the world, and the background prefetches that were spawned and have not run yet. A
  result \<open>None\<close> is an operation that never returns. \<open>LowerName\<close> and
  \<open>Name\<close> are one type; a message of the cache carries its answer records.
\<close>

subsection \<open>State\<close>

record ('n, 're) forward_authority =
  fa_origin :: 'n
  fa_dnssec_enabled :: bool
  fa_qname_minimization :: qmin_config
  fa_filter :: "'re filter_state"
  fa_dns64_prefix :: "dns64_prefix option"
  fa_dns64_always_synthesize :: bool
  fa_ecs :: bool

record ('n, 'w) forward_state =
  fw_cache :: cache
  fw_metrics :: metrics_registry
  fw_world :: 'w
  fw_tasks :: "('n \<times> record_type) list"

subsection \<open>Helpers\<close>

definition STALE_ANSWER :: u16 where
  "STALE_ANSWER = 3"

definition CACHED_ERROR :: u16 where
  "CACHED_ERROR = 13"

definition encode_info :: "u16 \<Rightarrow> string \<Rightarrow> bytes" where
  "encode_info ede extra = u16_to_be_bytes ede @ str_to_bytes extra"

definition scope_zero_subnet :: "ip_addr \<Rightarrow> u8 \<Rightarrow> ip_addr \<times> u8" where
  "scope_zero_subnet addr source_prefix =
     (case addr of
        V4 v4 \<Rightarrow>
          (let mask = (if source_prefix = 0 then 0 :: u32
                       else if 32 \<le> source_prefix then 0xFFFFFFFF
                       else push_bit (unat (32 - source_prefix)) (NOT 0));
               ip = ipv4_from_octets (ipv4_octets v4) AND mask
           in (V4 ip, source_prefix))
      | V6 v6 \<Rightarrow>
          (let mask = (if source_prefix = 0 then 0 :: u128
                       else if 128 \<le> source_prefix then NOT 0
                       else push_bit (unat (128 - source_prefix)) (NOT 0));
               ip = v6 AND mask
           in (V6 ip, source_prefix)))"

definition extract_ecs_scope :: "'q option \<Rightarrow> (ip_addr \<times> u8) option" where
  "extract_ecs_scope request_info = None"

definition synthesize_dname_cnames :: "'n rr list \<Rightarrow> 'n \<Rightarrow> 'n rr list" where
  "synthesize_dname_cnames records original =
     List.map_filter (\<lambda>r. case rr_data r of
         RD_ANAME target \<Rightarrow>
           if target = original then None else Some (from_rdata original (rr_ttl r) (RD_CNAME target))
       | _ \<Rightarrow> None) records"

definition min_ttl :: "'n rr list \<Rightarrow> nat" where
  "min_ttl records =
     (case map (\<lambda>r. from_secs (unat (rr_ttl r))) records of
        [] \<Rightarrow> from_secs 300
      | t # ts \<Rightarrow> foldl min t ts)"

definition cache_key_of ::
  "'n hickory \<Rightarrow> 'n \<Rightarrow> record_type \<Rightarrow> (ip_addr \<times> u8) option \<Rightarrow> cache_key" where
  "cache_key_of h name rtype subnet =
     \<lparr>key_qname = name_utf8 h name, key_qtype = type_code h rtype, key_client_subnet = subnet\<rparr>"

definition new_lookup :: "'n \<Rightarrow> record_type \<Rightarrow> 'n rr list \<Rightarrow> 'n lookup" where
  "new_lookup n t rs = \<lparr>lk_name = n, lk_type = t, lk_answers = rs\<rparr>"

text \<open>The counted cache lookup, and the storing of answers under a key.\<close>

definition cached_bytes ::
  "('w \<Rightarrow> nat) \<Rightarrow> cache_key \<Rightarrow> ('n, 'w) forward_state \<Rightarrow> bytes option \<times> ('n, 'w) forward_state" where
  "cached_bytes clock key st =
     (case lookup_with_metrics (fw_cache st) (fw_metrics st) key (clock (fw_world st)) of
        (r, c, m) \<Rightarrow> (map_option fst r, st\<lparr>fw_cache := c, fw_metrics := m\<rparr>))"

definition store_records ::
  "'n hickory \<Rightarrow> ('w \<Rightarrow> nat) \<Rightarrow> cache_key \<Rightarrow> 'n rr list \<Rightarrow> ('n, 'w) forward_state
     \<Rightarrow> ('n, 'w) forward_state option" where
  "store_records h clock key records st =
     (case msg_to_vec h records of
        None \<Rightarrow> Some st
      | Some bs \<Rightarrow>
          map_option (\<lambda>c. st\<lparr>fw_cache := c\<rparr>)
            (cache_insert (fw_cache st) key bs (min_ttl records) (clock (fw_world st))))"

definition ask ::
  "('n, 'w) upstream \<Rightarrow> 'n \<Rightarrow> record_type \<Rightarrow> ('n, 'w) forward_state
     \<Rightarrow> (string, 'n lookup) result \<times> ('n, 'w) forward_state" where
  "ask up n t st = (case up n t (fw_world st) of (r, w) \<Rightarrow> (r, st\<lparr>fw_world := w\<rparr>))"

subsection \<open>Queries of type ANY\<close>

definition try_any ::
  "'n hickory \<Rightarrow> ('w \<Rightarrow> nat) \<Rightarrow> ('n, 'w) upstream \<Rightarrow> 'n \<Rightarrow> record_type \<Rightarrow> ('n, 'w) forward_state
     \<Rightarrow> ('n lookup option \<times> ('n, 'w) forward_state) option" where
  "try_any h clock up name rtype st =
     (let key = cache_key_of h name rtype None;
          (hit, st1) = cached_bytes clock key st;
          cached = (case hit of None \<Rightarrow> None | Some bs \<Rightarrow> msg_from_vec h bs)
      in case cached of
           Some (r # rs) \<Rightarrow> Some (Some (new_lookup name rtype (r # rs)), st1)
         | _ \<Rightarrow>
             (case ask up (set_fqdn_false h name) rtype st1 of
                (Inl e, st2) \<Rightarrow> Some (None, st2)
              | (Inr lk, st2) \<Rightarrow>
                  if lk_answers lk = [] then Some (None, st2)
                  else map_option (\<lambda>st3. (Some (new_lookup name rtype (lk_answers lk)), st3))
                    (store_records h clock key (lk_answers lk) st2)))"

fun lookup_any_loop ::
  "'n hickory \<Rightarrow> ('w \<Rightarrow> nat) \<Rightarrow> ('n, 'w) upstream \<Rightarrow> 'n \<Rightarrow> record_type list \<Rightarrow> ('n, 'w) forward_state
     \<Rightarrow> ((string, 'n lookup) result \<times> ('n, 'w) forward_state) option" where
  "lookup_any_loop h clock up name [] st = Some (Inl ''RFC 8482: no address records for ANY query'', st)"
| "lookup_any_loop h clock up name (rtype # ts) st =
     Option.bind (try_any h clock up name rtype st) (\<lambda>(r, st').
       case r of Some lk \<Rightarrow> Some (Inr lk, st') | None \<Rightarrow> lookup_any_loop h clock up name ts st')"

definition lookup_any ::
  "'n hickory \<Rightarrow> ('w \<Rightarrow> nat) \<Rightarrow> ('n, 'w) upstream \<Rightarrow> 'n \<Rightarrow> ('n, 'w) forward_state
     \<Rightarrow> ((string, 'n lookup) result \<times> ('n, 'w) forward_state) option" where
  "lookup_any h clock up name st = lookup_any_loop h clock up name [T_A, T_AAAA] st"

subsection \<open>The stages of a lookup\<close>

text \<open>Stage 1: the cache. A hit may also spawn a prefetch.\<close>

definition check_cache ::
  "'n hickory \<Rightarrow> ('w \<Rightarrow> nat) \<Rightarrow> cache_key \<Rightarrow> 'n \<Rightarrow> record_type \<Rightarrow> ('n, 'w) forward_state
     \<Rightarrow> 'n lookup option \<times> ('n, 'w) forward_state" where
  "check_cache h clock key name rtype st =
     (let (hit, st1) = cached_bytes clock key st
      in case hit of
           None \<Rightarrow> (None, st1)
         | Some bs \<Rightarrow>
             (let st2 = (if should_prefetch (fw_cache st1) key (clock (fw_world st1))
                         then st1\<lparr>fw_tasks := fw_tasks st1 @ [(name, rtype)]\<rparr> else st1)
              in (map_option (new_lookup name rtype) (msg_from_vec h bs), st2)))"

text \<open>Stage 2: the upstream, directly or minimised.\<close>

definition forward_query ::
  "'n hickory \<Rightarrow> ('n, 'w) upstream \<Rightarrow> ('n, 're) forward_authority \<Rightarrow> 'n \<Rightarrow> record_type \<Rightarrow> ('n, 'w) forward_state
     \<Rightarrow> ((string, 'n lookup) result \<times> ('n, 'w) forward_state) option" where
  "forward_query h up fa fwd_name rtype st =
     (if qm_enable (fa_qname_minimization fa) then
        map_option (\<lambda>(r, m, w). (map_sum id (\<lambda>q. new_lookup fwd_name rtype (qr_records q)) r,
            st\<lparr>fw_metrics := m, fw_world := w\<rparr>))
          (resolve_with_minimization h (hickory_min_resolver up) fwd_name rtype
             (fa_qname_minimization fa) (fw_metrics st) (fw_world st))
      else Some (ask up fwd_name rtype st))"

text \<open>DNS64: the synthesised records, from a chained A query.\<close>

definition min_a_ttl :: "'n rr list \<Rightarrow> u32" where
  "min_a_ttl records =
     (case List.map_filter (\<lambda>r. if rr_type r = T_A then Some (rr_ttl r) else None) records of
        [] \<Rightarrow> 300 | t # ts \<Rightarrow> foldl min t ts)"

definition dns64_stage ::
  "'n hickory \<Rightarrow> ('n, 'w) upstream \<Rightarrow> ('n, 're) forward_authority \<Rightarrow> 'n \<Rightarrow> record_type \<Rightarrow> 'n rr list
     \<Rightarrow> ('n, 'w) forward_state \<Rightarrow> 'n rr list \<times> ('n, 'w) forward_state" where
  "dns64_stage h up fa fwd_name rtype answers st =
     (case fa_dns64_prefix fa of
        None \<Rightarrow> ([], st)
      | Some prefix \<Rightarrow>
          if rtype \<noteq> T_AAAA then ([], st)
          else
            (let upstream_aaaa = list_ex (\<lambda>r. rr_type r = T_AAAA) answers;
                 do_synth = (\<not> upstream_aaaa \<or> fa_dns64_always_synthesize fa)
             in if \<not> do_synth then ([], st)
                else case ask up (set_fqdn_false h fwd_name) T_A st of
                    (Inl e, st1) \<Rightarrow> ([], st1)
                  | (Inr a_lookup, st1) \<Rightarrow>
                      (let a_records = List.map_filter (\<lambda>r. case rr_data r of RD_A a \<Rightarrow> Some a | _ \<Rightarrow> None)
                             (lk_answers a_lookup)
                       in if a_records = [] then ([], st1)
                          else let (aaaa_list, m) = synthesize_aaaa (fw_metrics st1) a_records prefix
                            in (map (\<lambda>v6. from_rdata fwd_name (min_a_ttl (lk_answers a_lookup)) (RD_AAAA v6)) aaaa_list,
                                st1\<lparr>fw_metrics := m\<rparr>))))"

text \<open>Redirection records: synthetic CNAMEs for the ANAME records of an answer.\<close>

definition dname_stage :: "'n rr list \<Rightarrow> 'n \<Rightarrow> 'n rr list" where
  "dname_stage records fwd_name =
     (if list_ex (\<lambda>r. rr_type r = T_ANAME) records
      then records @ synthesize_dname_cnames records fwd_name else records)"

text \<open>Flattening: the addresses of the first CNAME target.\<close>

definition cname_target :: "'n rr list \<Rightarrow> 'n option" where
  "cname_target records =
     (case List.map_filter (\<lambda>r. case rr_data r of RD_CNAME t \<Rightarrow> Some t | _ \<Rightarrow> None) records of
        [] \<Rightarrow> None | t # _ \<Rightarrow> Some t)"

definition flatten_stage ::
  "'n hickory \<Rightarrow> ('n, 'w) upstream \<Rightarrow> 'n rr list \<Rightarrow> ('n, 'w) forward_state
     \<Rightarrow> 'n rr list \<times> ('n, 'w) forward_state" where
  "flatten_stage h up records st =
     (case cname_target records of
        None \<Rightarrow> (records, st)
      | Some target \<Rightarrow>
          (let tn = (case name_from_ascii h (name_utf8 h target) of Inr n \<Rightarrow> n | Inl e \<Rightarrow> name_root h);
               (ra, st1) = ask up tn T_A st;
               (raaaa, st2) = ask up tn T_AAAA st1;
               got = (\<lambda>r. case r of Inr l \<Rightarrow> lk_answers l | Inl e \<Rightarrow> [])
           in (records @ got ra @ got raaaa, st2)))"

subsection \<open>The lookup\<close>

definition finish_lookup ::
  "'n hickory \<Rightarrow> ('w \<Rightarrow> nat) \<Rightarrow> ('n, 'w) upstream \<Rightarrow> ('n, 're) forward_authority \<Rightarrow> cache_key \<Rightarrow> 'n \<Rightarrow> record_type
     \<Rightarrow> 'n lookup \<Rightarrow> ('n, 'w) forward_state
     \<Rightarrow> ((string, 'n lookup) result \<times> ('n, 'w) forward_state) option" where
  "finish_lookup h clock up fa key fwd_name rtype lk st =
     (let (dns64, st1) = dns64_stage h up fa fwd_name rtype (lk_answers lk) st;
          records = dname_stage (lk_answers lk @ dns64) fwd_name;
          (truncated, m2) =
            (if fl_cname_cloaking (fa_filter fa) then cname_chain_truncated (fa_filter fa) (fw_metrics st1) records
             else (False, fw_metrics st1));
          st2 = st1\<lparr>fw_metrics := m2\<rparr>
      in if truncated then Some (Inl ''CNAME chain truncated (limit exceeded)'', st2)
         else
           (let m3 = (if fl_rebinding (fa_filter fa) then snd (rebinding_detected (fa_filter fa) m2 records) else m2);
                st3 = st2\<lparr>fw_metrics := m3\<rparr>
            in map_option (\<lambda>st4.
                 let (records', st5) = flatten_stage h up records st4
                 in (if dns64 \<noteq> [] then Inr (new_lookup fwd_name rtype records') else Inr lk, st5))
               (store_records h clock key records st3)))"

definition forward_lookup ::
  "'n hickory \<Rightarrow> ('w \<Rightarrow> nat) \<Rightarrow> ('n, 'w) upstream \<Rightarrow> ('n, 're) forward_authority \<Rightarrow> 'n \<Rightarrow> record_type \<Rightarrow> 'q option
     \<Rightarrow> ('n, 'w) forward_state \<Rightarrow> ((string, 'n lookup) result \<times> ('n, 'w) forward_state) option" where
  "forward_lookup h clock up fa name rtype request_info st =
     (if rtype = T_ANY then lookup_any h clock up name st
      else
        (let client_subnet = (if fa_ecs fa then extract_ecs_scope request_info else None);
             key = cache_key_of h name rtype client_subnet
         in case check_cache h clock key name rtype st of
              (Some lk, st1) \<Rightarrow> Some (Inr lk, st1)
            | (None, st1) \<Rightarrow>
                (let fwd_name = set_fqdn_false h name
                 in Option.bind (forward_query h up fa fwd_name rtype st1) (\<lambda>(r, st2).
                      case r of
                        Inl e \<Rightarrow> Some (Inl e, st2)
                      | Inr lk \<Rightarrow> finish_lookup h clock up fa key fwd_name rtype lk st2))))"

text \<open>A spawned prefetch: it forwards and stores without any of the later stages.\<close>

definition prefetch_task ::
  "'n hickory \<Rightarrow> ('w \<Rightarrow> nat) \<Rightarrow> ('n, 'w) upstream \<Rightarrow> 'n \<Rightarrow> record_type \<Rightarrow> ('n, 'w) forward_state
     \<Rightarrow> ('n, 'w) forward_state option" where
  "prefetch_task h clock up name rtype st =
     (case ask up (set_fqdn_false h name) rtype st of
        (Inl e, st1) \<Rightarrow> Some st1
      | (Inr lk, st1) \<Rightarrow> store_records h clock (cache_key_of h name rtype None) (lk_answers lk) st1)"

definition run_next_task ::
  "'n hickory \<Rightarrow> ('w \<Rightarrow> nat) \<Rightarrow> ('n, 'w) upstream \<Rightarrow> ('n, 'w) forward_state
     \<Rightarrow> ('n, 'w) forward_state option" where
  "run_next_task h clock up st =
     (case fw_tasks st of
        [] \<Rightarrow> Some st
      | (n, t) # ts \<Rightarrow> prefetch_task h clock up n t (st\<lparr>fw_tasks := ts\<rparr>))"

text \<open>The request entry point; \<open>None\<close> is a request whose query cannot be read.\<close>

definition forward_search ::
  "'n hickory \<Rightarrow> ('w \<Rightarrow> nat) \<Rightarrow> ('n, 'w) upstream \<Rightarrow> ('n, 're) forward_authority
     \<Rightarrow> ('n \<times> record_type) option \<Rightarrow> ('n, 'w) forward_state
     \<Rightarrow> ((string, 'n lookup) result \<times> ('n, 'w) forward_state) option" where
  "forward_search h clock up fa request st =
     (case request of
        Some (name, rtype) \<Rightarrow> forward_lookup h clock up fa name rtype (Some (name, rtype)) st
      | None \<Rightarrow> Some (Inl ''invalid request'', st))"

subsection \<open>The forwarder as a zone handler\<close>

datatype zone_type = ZoneExternal
datatype axfr_policy = AxfrDeny

definition fwd_with_dns64_always_synthesize ::
  "'n \<Rightarrow> bool \<Rightarrow> qmin_config \<Rightarrow> 're filter_state \<Rightarrow> dns64_prefix option \<Rightarrow> bool \<Rightarrow> bool
     \<Rightarrow> ('n, 're) forward_authority" where
  "fwd_with_dns64_always_synthesize origin dnssec qmin flt prefix always ecs =
     \<lparr>fa_origin = origin, fa_dnssec_enabled = dnssec, fa_qname_minimization = qmin, fa_filter = flt,
      fa_dns64_prefix = prefix, fa_dns64_always_synthesize = always, fa_ecs = ecs\<rparr>"

definition fwd_new ::
  "'n \<Rightarrow> bool \<Rightarrow> qmin_config \<Rightarrow> 're filter_state \<Rightarrow> dns64_prefix option \<Rightarrow> ('n, 're) forward_authority" where
  "fwd_new origin dnssec qmin flt prefix =
     fwd_with_dns64_always_synthesize origin dnssec qmin flt prefix False False"

definition fwd_zone_type :: "('n, 're) forward_authority \<Rightarrow> zone_type" where
  "fwd_zone_type fa = ZoneExternal"

definition fwd_axfr_policy :: "('n, 're) forward_authority \<Rightarrow> axfr_policy" where
  "fwd_axfr_policy fa = AxfrDeny"

definition fwd_can_validate_dnssec :: "('n, 're) forward_authority \<Rightarrow> bool" where
  "fwd_can_validate_dnssec fa = fa_dnssec_enabled fa"

text \<open>A dynamic update is refused with the code of an operation that is not implemented.\<close>

datatype update_refusal = UpdateNotImp

definition fwd_update :: "('n, 're) forward_authority \<Rightarrow> 'q \<Rightarrow> nat \<Rightarrow> (update_refusal, bool) result" where
  "fwd_update fa request now = Inl UpdateNotImp"

definition fwd_nsec_records :: "('n, 're) forward_authority \<Rightarrow> 'n \<Rightarrow> (string, 'n lookup) result" where
  "fwd_nsec_records fa name = Inl ''NSEC records not supported for forwarding authority''"

definition fwd_nsec3_records :: "('n, 're) forward_authority \<Rightarrow> 'q \<Rightarrow> (string, 'n lookup) result" where
  "fwd_nsec3_records fa info = Inl ''NSEC3 records not supported for forwarding authority''"

definition fwd_nx_proof_kind :: "('n, 're) forward_authority \<Rightarrow> string option" where
  "fwd_nx_proof_kind fa = None"

subsection \<open>Frames\<close>

lemma lookup_with_metrics_reachable:
  assumes "cache_reachable cfg c" "lookup_with_metrics c m k now = (r, c', m')"
  shows "cache_reachable cfg c'"
proof -
  obtain r1 c1 where l: "cache_lookup c k now = (r1, c1)" by fastforce
  have "cache_reachable cfg c1" using reach_step [OF assms(1) step_lookup [OF l]] .
  then show ?thesis
    using assms(2) l reach_step step_miss
    by (cases r1) (fastforce simp: lookup_with_metrics_def)+
qed

lemma lookup_with_metrics_miss:
  "map_of (entries c) k = None \<Longrightarrow> lookup_with_metrics c m k now = (None, record_miss c m)"
  by (simp add: lookup_with_metrics_def cache_lookup_def)

lemma lookup_with_metrics_hit:
  "map_of (entries c) k = Some e \<Longrightarrow> map_option fst (fst (lookup_with_metrics c m k now)) = Some (response_bytes e)"
  by (simp add: lookup_with_metrics_def cache_lookup_def Let_def)

lemma cached_bytes_frame:
  assumes "cached_bytes clock key st = (hit, st')"
  shows "fw_world st' = fw_world st" "fw_tasks st' = fw_tasks st"
    "cache_reachable cfg (fw_cache st) \<Longrightarrow> cache_reachable cfg (fw_cache st')"
  using assms lookup_with_metrics_reachable [of cfg "fw_cache st"]
  by (auto simp: cached_bytes_def split: prod.splits)

lemma cached_bytes_miss:
  assumes "map_of (entries (fw_cache st)) key = None" "cached_bytes clock key st = (hit, st')"
  shows "hit = None" "entries (fw_cache st') = entries (fw_cache st)" "cache_cfg (fw_cache st') = cache_cfg (fw_cache st)"
    "access_order (fw_cache st') = access_order (fw_cache st)"
  using assms by (auto simp: cached_bytes_def lookup_with_metrics_miss record_miss_def)

lemma cached_bytes_hit:
  assumes "map_of (entries (fw_cache st)) key = Some e"
  shows "fst (cached_bytes clock key st) = Some (response_bytes e)"
  using lookup_with_metrics_hit [OF assms, of "fw_metrics st" "clock (fw_world st)"]
  by (cases "lookup_with_metrics (fw_cache st) (fw_metrics st) key (clock (fw_world st))")
    (simp add: cached_bytes_def)

lemma ask_frame:
  assumes "ask up n t st = (r, st')"
  shows "fw_cache st' = fw_cache st" "fw_metrics st' = fw_metrics st" "fw_tasks st' = fw_tasks st"
  using assms by (auto simp: ask_def split: prod.splits)

lemma store_records_spec:
  assumes "cache_reachable cfg (fw_cache st)" "0 < cache_size cfg"
  shows "\<exists>c. store_records h clock key rs st = Some (st\<lparr>fw_cache := c\<rparr>) \<and> cache_reachable cfg c
    \<and> (\<forall>bs. msg_to_vec h rs = Some bs \<longrightarrow>
        map_of (entries c) key = Some (new_entry bs (min_ttl rs) (clock (fw_world st))))"
proof (cases "msg_to_vec h rs")
  case None
  have "st\<lparr>fw_cache := fw_cache st\<rparr> = st" by simp
  with None assms show ?thesis by (auto simp: store_records_def intro!: exI [of _ "fw_cache st"])
next
  case (Some bs)
  have inv: "cache_wf (fw_cache st)" "cache_cfg (fw_cache st) = cfg"
    using cache_reachable_inv [OF assms(1)] by (auto simp: cache_inv_def)
  obtain c where c: "cache_insert (fw_cache st) key bs (min_ttl rs) (clock (fw_world st)) = Some c"
    using cache_insert_spec [OF inv(1)] inv(2) assms(2) by blast
  have "cache_reachable cfg c" using reach_step [OF assms(1) step_insert [OF c]] .
  moreover have "map_of (entries c) key = Some (new_entry bs (min_ttl rs) (clock (fw_world st)))"
    using c by (auto simp: cache_insert_def)
  ultimately show ?thesis using Some c by (intro exI [of _ c]) (simp add: store_records_def)
qed

lemma dns64_stage_frame:
  "dns64_stage h up fa n t rs st = (out, st') \<Longrightarrow> fw_cache st' = fw_cache st \<and> fw_tasks st' = fw_tasks st"
  by (auto simp: dns64_stage_def Let_def dest: ask_frame split: option.splits if_splits prod.splits sum.splits)

lemma flatten_stage_frame:
  "flatten_stage h up rs st = (out, st') \<Longrightarrow> fw_cache st' = fw_cache st \<and> fw_tasks st' = fw_tasks st"
  by (auto simp: flatten_stage_def Let_def ask_frame split: option.splits prod.splits)

lemma forward_query_spec:
  assumes "name_laws h labels"
  shows "\<exists>r st'. forward_query h up fa n t st = Some (r, st') \<and> fw_cache st' = fw_cache st
    \<and> fw_tasks st' = fw_tasks st"
proof (cases "qm_enable (fa_qname_minimization fa)")
  case True
  obtain ns where "peel_labels h n = Some ns" using peel_labels_returns [OF assms] by blast
  then obtain q where "resolve_with_minimization h (hickory_min_resolver up) n t
      (fa_qname_minimization fa) (fw_metrics st) (fw_world st) = Some q"
    by (cases "num_labels h n = 0") (auto simp: resolve_with_minimization_def)
  with True show ?thesis by (cases q) (simp add: forward_query_def)
next
  case False
  then show ?thesis
    using ask_frame [of up n t st] by (cases "ask up n t st") (simp add: forward_query_def)
qed

lemma check_cache_frame:
  assumes "check_cache h clock key n t st = (r, st')"
  shows "fw_world st' = fw_world st"
    "cache_reachable cfg (fw_cache st) \<Longrightarrow> cache_reachable cfg (fw_cache st')"
proof -
  obtain hit st1 where cb: "cached_bytes clock key st = (hit, st1)" by fastforce
  have "fw_world st' = fw_world st1 \<and> fw_cache st' = fw_cache st1"
    using assms cb by (auto simp: check_cache_def Let_def split: option.splits)
  then show "fw_world st' = fw_world st"
    "cache_reachable cfg (fw_cache st) \<Longrightarrow> cache_reachable cfg (fw_cache st')"
    using cached_bytes_frame [OF cb] by auto
qed

lemma forward_lookup_eq:
  assumes "t \<noteq> T_ANY"
  shows "forward_lookup h clock up fa n t info s =
     (case check_cache h clock (cache_key_of h n t None) n t s of
        (Some lk, st1) \<Rightarrow> Some (Inr lk, st1)
      | (None, st1) \<Rightarrow> Option.bind (forward_query h up fa (set_fqdn_false h n) t st1) (\<lambda>(r, st2).
          case r of Inl e \<Rightarrow> Some (Inl e, st2)
          | Inr lk \<Rightarrow> finish_lookup h clock up fa (cache_key_of h n t None) (set_fqdn_false h n) t lk st2))"
  unfolding forward_lookup_def extract_ecs_scope_def Let_def if_cancel using assms by simp

lemma check_cache_miss:
  assumes "map_of (entries (fw_cache st)) key = None"
  shows "\<exists>st1. check_cache h clock key n t st = (None, st1)"
proof -
  obtain hit st1 where cb: "cached_bytes clock key st = (hit, st1)" by fastforce
  then have "hit = None" by (rule cached_bytes_miss(1) [OF assms])
  with cb show ?thesis by (simp add: check_cache_def Let_def)
qed

lemma check_cache_hit:
  assumes "map_of (entries (fw_cache st)) key = Some e" "msg_from_vec h (response_bytes e) = Some rs"
  shows "\<exists>st'. check_cache h clock key n t st = (Some (new_lookup n t rs), st') \<and> fw_world st' = fw_world st"
proof -
  obtain st1 where cb: "cached_bytes clock key st = (Some (response_bytes e), st1)"
    using cached_bytes_hit [OF assms(1), of clock] by (cases "cached_bytes clock key st") simp
  then have "fst (check_cache h clock key n t st) = Some (new_lookup n t rs)"
    by (simp add: check_cache_def Let_def assms(2))
  then show ?thesis
    using check_cache_frame(1) by (cases "check_cache h clock key n t st") fastforce
qed

lemma finish_lookup_spec:
  assumes "cache_reachable cfg (fw_cache st)" "0 < cache_size cfg"
  shows "\<exists>r st'. finish_lookup h clock up fa key n t lk st = Some (r, st') \<and> cache_reachable cfg (fw_cache st')"
proof -
  obtain d st1 where d: "dns64_stage h up fa n t (lk_answers lk) st = (d, st1)" by fastforce
  then have r1: "cache_reachable cfg (fw_cache st1)" using dns64_stage_frame [OF d] assms(1) by simp
  let ?rs = "dname_stage (lk_answers lk @ d) n"
  obtain tr m2 where tr: "(if fl_cname_cloaking (fa_filter fa)
      then cname_chain_truncated (fa_filter fa) (fw_metrics st1) ?rs else (False, fw_metrics st1)) = (tr, m2)"
    by fastforce
  show ?thesis
  proof (cases tr)
    case True
    then show ?thesis using d tr r1 by (simp add: finish_lookup_def Let_def)
  next
    case False
    let ?m3 = "if fl_rebinding (fa_filter fa) then snd (rebinding_detected (fa_filter fa) m2 ?rs) else m2"
    let ?st3 = "st1\<lparr>fw_metrics := m2\<rparr>\<lparr>fw_metrics := ?m3\<rparr>"
    obtain c where c: "store_records h clock key ?rs ?st3 = Some (?st3\<lparr>fw_cache := c\<rparr>)" "cache_reachable cfg c"
      using store_records_spec [of cfg ?st3 h clock key ?rs] r1 assms(2) by auto
    obtain rs' st5 where f: "flatten_stage h up ?rs (?st3\<lparr>fw_cache := c\<rparr>) = (rs', st5)" by fastforce
    then have "cache_reachable cfg (fw_cache st5)" using flatten_stage_frame [OF f] c(2) by simp
    with False show ?thesis using d tr c(1) f by (simp add: finish_lookup_def Let_def)
  qed
qed

text \<open>Without DNS64, what a lookup that got past the chain limit returned and stored.\<close>

lemma finish_lookup_stored:
  assumes "fa_dns64_prefix fa = None" "finish_lookup h clock up fa key n t lk st = Some (Inr lk', st')"
  shows "lk' = lk" "fl_cname_cloaking (fa_filter fa) \<Longrightarrow>
      cname_chain_count (dname_stage (lk_answers lk) n) \<le> unat (fl_cname_chain_limit (fa_filter fa))"
    "msg_to_vec h (dname_stage (lk_answers lk) n) = Some bs \<Longrightarrow>
      \<exists>e. map_of (entries (fw_cache st')) key = Some e \<and> response_bytes e = bs"
proof -
  have d: "dns64_stage h up fa n t (lk_answers lk) st = ([], st)" using assms(1) by (simp add: dns64_stage_def)
  let ?rs = "dname_stage (lk_answers lk) n"
  obtain tr m2 where tr: "(if fl_cname_cloaking (fa_filter fa)
      then cname_chain_truncated (fa_filter fa) (fw_metrics st) ?rs else (False, fw_metrics st)) = (tr, m2)"
    by fastforce
  let ?m3 = "if fl_rebinding (fa_filter fa) then snd (rebinding_detected (fa_filter fa) m2 ?rs) else m2"
  let ?st3 = "st\<lparr>fw_metrics := m2\<rparr>\<lparr>fw_metrics := ?m3\<rparr>"
  have eq: "finish_lookup h clock up fa key n t lk st =
      (if tr then Some (Inl ''CNAME chain truncated (limit exceeded)'', st\<lparr>fw_metrics := m2\<rparr>)
       else map_option (\<lambda>st4. (Inr lk, snd (flatten_stage h up ?rs st4))) (store_records h clock key ?rs ?st3))"
    by (simp only: finish_lookup_def d tr Let_def case_prod_conv append_Nil2) (simp add: case_prod_beta)
  then have ntr: "\<not> tr" using assms(2) by auto
  then obtain st4 where st4: "store_records h clock key ?rs ?st3 = Some st4"
    "lk' = lk" "st' = snd (flatten_stage h up ?rs st4)"
    using assms(2) eq by auto
  show "lk' = lk" by (rule st4(2))
  show "fl_cname_cloaking (fa_filter fa) \<Longrightarrow>
      cname_chain_count ?rs \<le> unat (fl_cname_chain_limit (fa_filter fa))"
    using ntr tr by (auto simp: cname_chain_truncated_def Let_def)
  have "fw_cache st' = fw_cache st4"
    using flatten_stage_frame [of h up ?rs st4] st4(3) by (cases "flatten_stage h up ?rs st4") simp
  then show "\<exists>e. map_of (entries (fw_cache st')) key = Some e \<and> response_bytes e = bs"
    if "msg_to_vec h ?rs = Some bs"
    using that st4(1) by (auto simp: store_records_def cache_insert_def new_entry_def)
qed

lemma try_any_returns:
  assumes "cache_reachable cfg (fw_cache st)" "0 < cache_size cfg"
  shows "\<exists>r st'. try_any h clock up n t st = Some (r, st') \<and> cache_reachable cfg (fw_cache st')
    \<and> (\<forall>lk. r = Some lk \<longrightarrow> lk_type lk = t \<and> lk_answers lk \<noteq> [] \<and> lk_name lk = n)"
proof -
  let ?key = "cache_key_of h n t None"
  obtain hit st1 where cb: "cached_bytes clock ?key st = (hit, st1)" by fastforce
  have r1: "cache_reachable cfg (fw_cache st1)" using cached_bytes_frame(3) [OF cb assms(1)] .
  obtain r st2 where a: "ask up (set_fqdn_false h n) t st1 = (r, st2)" by fastforce
  have r2: "cache_reachable cfg (fw_cache st2)" using ask_frame(1) [OF a] r1 by simp
  define cached where "cached = (case hit of None \<Rightarrow> None | Some bs \<Rightarrow> msg_from_vec h bs)"
  have eq: "try_any h clock up n t st = (case cached of
       Some (x # xs) \<Rightarrow> Some (Some (new_lookup n t (x # xs)), st1)
     | _ \<Rightarrow> (case r of Inl e \<Rightarrow> Some (None, st2)
        | Inr lk \<Rightarrow> if lk_answers lk = [] then Some (None, st2)
            else map_option (\<lambda>st3. (Some (new_lookup n t (lk_answers lk)), st3))
              (store_records h clock ?key (lk_answers lk) st2)))"
    by (simp add: try_any_def cb a cached_def Let_def split: option.split list.split sum.split)
  show ?thesis
  proof (cases "\<exists>x xs. cached = Some (x # xs)")
    case True
    then show ?thesis using r1 by (auto simp: eq new_lookup_def)
  next
    case False
    then have "try_any h clock up n t st = (case r of Inl e \<Rightarrow> Some (None, st2)
        | Inr lk \<Rightarrow> if lk_answers lk = [] then Some (None, st2)
            else map_option (\<lambda>st3. (Some (new_lookup n t (lk_answers lk)), st3))
              (store_records h clock ?key (lk_answers lk) st2))"
      by (auto simp: eq split: option.split list.split)
    moreover have "\<exists>st3. store_records h clock ?key rs st2 = Some st3 \<and> cache_reachable cfg (fw_cache st3)" for rs
      using store_records_spec [OF r2 assms(2), of h clock ?key rs] by force
    ultimately show ?thesis using r2 by (cases r) (auto simp: new_lookup_def)
  qed
qed

lemma lookup_any_returns:
  assumes "cache_reachable cfg (fw_cache st)" "0 < cache_size cfg"
  shows "\<exists>r st'. lookup_any_loop h clock up n ts st = Some (r, st') \<and> cache_reachable cfg (fw_cache st')
    \<and> (\<forall>lk. r = Inr lk \<longrightarrow> lk_type lk \<in> set ts \<and> lk_answers lk \<noteq> [] \<and> lk_name lk = n)"
  using assms(1)
proof (induction ts arbitrary: st)
  case Nil
  then show ?case by simp
next
  case (Cons t ts)
  obtain r st' where "try_any h clock up n t st = Some (r, st')" "cache_reachable cfg (fw_cache st')"
    "\<forall>lk. r = Some lk \<longrightarrow> lk_type lk = t \<and> lk_answers lk \<noteq> [] \<and> lk_name lk = n"
    using try_any_returns [OF Cons.prems assms(2)] by blast
  then show ?case using Cons.IH [of st'] by (cases r) auto
qed

subsection \<open>Correctness of the forwarder\<close>

text \<open>
  Every lookup returns and leaves a cache that the cache's own operations can reach,
  whatever the upstream answers, for every query type, with and without minimisation,
  DNS64 and filtering, as long as the cache has a positive size.
\<close>

lemma forward_lookup_returns:
  assumes "name_laws h labels" "cache_reachable cfg (fw_cache st)" "0 < cache_size cfg"
  shows "\<exists>r st'. forward_lookup h clock up fa n t info st = Some (r, st') \<and> cache_reachable cfg (fw_cache st')"
proof (cases "t = T_ANY")
  case True
  then show ?thesis
    using lookup_any_returns [OF assms(2,3), of h clock up n "[T_A, T_AAAA]"]
    by (auto simp: forward_lookup_def lookup_any_def simp del: lookup_any_loop.simps)
next
  case False
  let ?key = "cache_key_of h n t (if fa_ecs fa then extract_ecs_scope info else None)"
  obtain hit st1 where cc: "check_cache h clock ?key n t st = (hit, st1)" by fastforce
  have r1: "cache_reachable cfg (fw_cache st1)" using check_cache_frame(2) [OF cc assms(2)] .
  obtain r st2 where q: "forward_query h up fa (set_fqdn_false h n) t st1 = Some (r, st2)"
    "fw_cache st2 = fw_cache st1"
    using forward_query_spec [OF assms(1)] by blast
  show ?thesis
    using False cc q r1 finish_lookup_spec [of cfg st2 h clock up fa ?key "set_fqdn_false h n" t] assms(3)
    by (cases hit; cases r) (simp_all add: forward_lookup_def)
qed

definition demo_filter :: "string filter_state" where
  "demo_filter =
     \<lparr>fl_cname_chain_limit = 8, fl_cname_cloaking = True, fl_rebinding = True,
      fl_blocklist = \<lparr>bl_entries = {''ads''}\<rparr>, fl_allowlist = \<lparr>al_entries = {}\<rparr>, fl_per_client = [],
      fl_sinkhole_v4 = 0, fl_sinkhole_v6 = 0, fl_regex_blocklist = []\<rparr>"

definition demo_authority :: "(string list, string) forward_authority" where
  "demo_authority =
     \<lparr>fa_origin = [], fa_dnssec_enabled = False, fa_qname_minimization = default_qmin,
      fa_filter = demo_filter, fa_dns64_prefix = None, fa_dns64_always_synthesize = False, fa_ecs = False\<rparr>"

text \<open>An upstream that answers every A query, and whose world counts the queries.\<close>

definition demo_answer :: "string list \<Rightarrow> string list rr list" where
  "demo_answer n = [from_rdata n 60 (RD_A 0x0A000001)]"

definition demo_up :: "(string list, nat) upstream" where
  "demo_up n t w = (if t = T_A then Inr (new_lookup n t (demo_answer n)) else Inl ''no data'', Suc w)"

definition demo_state :: "(string list, nat) forward_state" where
  "demo_state = \<lparr>fw_cache = cache_new (demo_cfg 2), fw_metrics = metrics_new, fw_world = 0, fw_tasks = []\<rparr>"

lemma demo_state_reachable: "cache_reachable (demo_cfg 2) (fw_cache demo_state)" "0 < cache_size (demo_cfg 2)"
  by (simp_all add: demo_state_def reach_new) (simp add: demo_cfg_def)

text \<open>
  A query of type ANY is answered with the non-empty records of a single address type, A or
  AAAA, under the queried name, or with an error; and it always returns.
\<close>

theorem any_answers_one_address_type:
  assumes "cache_reachable cfg (fw_cache st)" "0 < cache_size cfg"
  shows "\<exists>r st'. forward_lookup h clock up fa n T_ANY info st = Some (r, st')
    \<and> (r = Inl ''RFC 8482: no address records for ANY query''
       \<or> (\<exists>lk. r = Inr lk \<and> lk_name lk = n \<and> lk_type lk \<in> {T_A, T_AAAA} \<and> lk_answers lk \<noteq> []))"
proof -
  obtain r st' where r: "lookup_any_loop h clock up n [T_A, T_AAAA] st = Some (r, st')"
    "\<forall>lk. r = Inr lk \<longrightarrow> lk_type lk \<in> set [T_A, T_AAAA] \<and> lk_answers lk \<noteq> [] \<and> lk_name lk = n"
    using lookup_any_returns [OF assms, of h clock up n "[T_A, T_AAAA]"] by blast
  have "r = Inl ''RFC 8482: no address records for ANY query''" if "r = Inl e" for e
    using r(1) that by (auto split: option.splits bind_splits)
  with r show ?thesis
    by (cases r) (simp_all add: forward_lookup_def lookup_any_def del: lookup_any_loop.simps)
qed

theorem any_answers_one_address_type_witness:
  "\<exists>r st'. forward_lookup (list_hickory (demo_answer [''ads''])) (\<lambda>w. w) demo_up demo_authority [''ads''] T_ANY
      (None :: unit option) demo_state = Some (r, st')
    \<and> (r = Inl ''RFC 8482: no address records for ANY query''
       \<or> (\<exists>lk. r = Inr lk \<and> lk_name lk = [''ads''] \<and> lk_type lk \<in> {T_A, T_AAAA} \<and> lk_answers lk \<noteq> []))"
  by (rule any_answers_one_address_type [OF demo_state_reachable])

text \<open>
  C4. What later clients see. Suppose a name and type were not cached, DNS64 is off, the lookup
  succeeded, and the answer could be encoded. Then every later lookup of the same name and
  type on that cache, at any time, is answered from the cache without an upstream query, with
  the first client's answer records followed by the synthetic CNAMEs of its ANAME records:
  the same answer exactly when it has none.
\<close>

theorem cached_answer_of_later_clients:
  assumes "name_laws h labels" "codec_law h" "t \<noteq> T_ANY" "fa_dns64_prefix fa = None"
    and "map_of (entries (fw_cache st)) (cache_key_of h n t None) = None"
    and "forward_lookup h clock up fa n t info st = Some (Inr lk, st')"
    and "msg_to_vec h (dname_stage (lk_answers lk) (set_fqdn_false h n)) = Some bs"
    and "fw_cache st2 = fw_cache st'"
  shows "\<exists>st3. forward_lookup h clock up fa n t info' st2
      = Some (Inr (new_lookup n t (dname_stage (lk_answers lk) (set_fqdn_false h n))), st3)
    \<and> fw_world st3 = fw_world st2"
proof -
  let ?key = "cache_key_of h n t None"
  note key = forward_lookup_eq [OF assms(3)]
  obtain st1 where m: "check_cache h clock ?key n t st = (None, st1)" using check_cache_miss [OF assms(5)] by blast
  obtain r st1' where q: "forward_query h up fa (set_fqdn_false h n) t st1 = Some (r, st1')"
    using forward_query_spec [OF assms(1)] by blast
  obtain lk0 where fin: "finish_lookup h clock up fa ?key (set_fqdn_false h n) t lk0 st1' = Some (Inr lk, st')"
    using assms(6) by (cases r) (auto simp: key m q)
  have lk0: "lk0 = lk" using finish_lookup_stored(1) [OF assms(4) fin] by simp
  obtain e where e: "map_of (entries (fw_cache st')) ?key = Some e" "response_bytes e = bs"
    using finish_lookup_stored(3) [OF assms(4) fin] assms(7) lk0 by blast
  have "msg_from_vec h (response_bytes e) = Some (dname_stage (lk_answers lk) (set_fqdn_false h n))"
    using assms(2,7) e(2) by (simp add: codec_law_def)
  then obtain st3 where "check_cache h clock ?key n t st2
      = (Some (new_lookup n t (dname_stage (lk_answers lk) (set_fqdn_false h n))), st3)"
    "fw_world st3 = fw_world st2"
    using check_cache_hit [of st2 ?key e h _ clock n t] e(1) assms(8) by auto
  then show ?thesis by (simp add: key)
qed

lemma demo_lookup:
  "\<exists>st'. forward_lookup (list_hickory (demo_answer [''ads''])) (\<lambda>w. w) demo_up demo_authority [''ads''] T_A
      (None :: unit option) demo_state = Some (Inr (new_lookup [''ads''] T_A (demo_answer [''ads''])), st')"
proof -
  let ?h = "list_hickory (demo_answer [''ads''])"
  let ?key = "cache_key_of ?h [''ads''] T_A None"
  have e: "map_of (entries (fw_cache demo_state)) ?key = None" by (simp add: demo_state_def cache_new_def)
  obtain st1 where m: "check_cache ?h (\<lambda>w. w) ?key [''ads''] T_A demo_state = (None, st1)"
    using check_cache_miss [OF e] by blast
  have r1: "cache_reachable (demo_cfg 2) (fw_cache st1)"
    using check_cache_frame(2) [OF m demo_state_reachable(1)] .
  let ?st2 = "st1\<lparr>fw_world := Suc (fw_world st1)\<rparr>"
  have q: "forward_query ?h demo_up demo_authority [''ads''] T_A st1
      = Some (Inr (new_lookup [''ads''] T_A (demo_answer [''ads''])), ?st2)"
    by (simp add: forward_query_def demo_authority_def default_qmin_def ask_def demo_up_def)
  obtain r st' where f: "finish_lookup ?h (\<lambda>w. w) demo_up demo_authority ?key [''ads''] T_A
      (new_lookup [''ads''] T_A (demo_answer [''ads''])) ?st2 = Some (r, st')"
    using finish_lookup_spec [of "demo_cfg 2" ?st2] r1 demo_state_reachable(2) by fastforce
  have "r = Inr (new_lookup [''ads''] T_A (demo_answer [''ads'']))"
    using f by (auto simp: finish_lookup_def dns64_stage_def demo_authority_def demo_filter_def
        cname_chain_truncated_def cname_chain_count_def demo_answer_def new_lookup_def dname_stage_def
        Let_def case_prod_beta)
  moreover have "set_fqdn_false ?h [''ads''] = [''ads'']" by (simp add: list_hickory_def)
  ultimately show ?thesis using f by (simp add: forward_lookup_eq m q)
qed

theorem cached_answer_of_later_clients_witness:
  "\<exists>st' st3. forward_lookup (list_hickory (demo_answer [''ads''])) (\<lambda>w. w) demo_up demo_authority [''ads''] T_A
      (None :: unit option) (st'\<lparr>fw_world := 10 ^ 15\<rparr>)
    = Some (Inr (new_lookup [''ads''] T_A (demo_answer [''ads''])), st3) \<and> fw_world st3 = 10 ^ 15"
proof -
  let ?h = "list_hickory (demo_answer [''ads''])"
  obtain st' where st': "forward_lookup ?h (\<lambda>w. w) demo_up demo_authority [''ads''] T_A
      (None :: unit option) demo_state = Some (Inr (new_lookup [''ads''] T_A (demo_answer [''ads''])), st')"
    using demo_lookup by blast
  have f: "set_fqdn_false ?h [''ads''] = [''ads'']" by (simp add: list_hickory_def)
  have ds: "dname_stage (lk_answers (new_lookup [''ads''] T_A (demo_answer [''ads'']))) [''ads''] = demo_answer [''ads'']"
    by (simp add: dname_stage_def new_lookup_def demo_answer_def)
  have vec: "msg_to_vec ?h (demo_answer [''ads'']) = Some [1]" by (simp add: list_hickory_def)
  have e: "map_of (entries (fw_cache demo_state)) (cache_key_of ?h [''ads''] T_A None) = None"
    by (simp add: demo_state_def cache_new_def)
  have p: "fa_dns64_prefix demo_authority = None" by (simp add: demo_authority_def)
  have "\<exists>st3. forward_lookup ?h (\<lambda>w. w) demo_up demo_authority [''ads''] T_A (None :: unit option) (st'\<lparr>fw_world := 10 ^ 15\<rparr>)
      = Some (Inr (new_lookup [''ads''] T_A (dname_stage (lk_answers (new_lookup [''ads''] T_A (demo_answer [''ads''])))
          (set_fqdn_false ?h [''ads'']))), st3) \<and> fw_world st3 = fw_world (st'\<lparr>fw_world := 10 ^ 15\<rparr>)"
    by (rule cached_answer_of_later_clients [OF list_hickory_names list_hickory_codec _ p e st'])
      (simp_all add: f ds vec)
  then show ?thesis by (auto simp: f ds)
qed

lemma finish_lookup_limit_eq:
  assumes "fa_dns64_prefix fa = None" "fl_cname_cloaking (fa_filter fa)"
    and "unat (fl_cname_chain_limit (fa_filter fa)) < cname_chain_count (dname_stage (lk_answers lk) n)"
  shows "finish_lookup h clock up fa key n t lk st = Some (Inl ''CNAME chain truncated (limit exceeded)'',
    st\<lparr>fw_metrics := metrics_increment (fw_metrics st) CnameChainTruncatedTotal 1\<rparr>)"
  using assms by (simp add: finish_lookup_def dns64_stage_def cname_chain_truncated_def Let_def)


definition demo_chain :: "string list rr list" where
  "demo_chain = replicate 9 (from_rdata [''ads''] 60 (RD_CNAME [''x'']))"


text \<open>
  C30. The forwarding path never consults the query filter: the result and the whole next state
  of every lookup are the same for any blocklist, allowlist, per-client table, regular
  expressions and sinkhole addresses.
\<close>

theorem forward_ignores_blocklists:
  "forward_lookup h clock up (fa\<lparr>fa_filter := (fa_filter fa)\<lparr>fl_blocklist := bl, fl_allowlist := al,
      fl_per_client := acl, fl_regex_blocklist := res, fl_sinkhole_v4 := s4, fl_sinkhole_v6 := s6\<rparr>\<rparr>) n t info st
    = forward_lookup h clock up fa n t info st"
proof -
  let ?fa = "fa\<lparr>fa_filter := (fa_filter fa)\<lparr>fl_blocklist := bl, fl_allowlist := al,
      fl_per_client := acl, fl_regex_blocklist := res, fl_sinkhole_v4 := s4, fl_sinkhole_v6 := s6\<rparr>\<rparr>"
  have sel: "fa_dns64_prefix ?fa = fa_dns64_prefix fa"
    "fa_dns64_always_synthesize ?fa = fa_dns64_always_synthesize fa"
    "fl_cname_cloaking (fa_filter ?fa) = fl_cname_cloaking (fa_filter fa)"
    "fl_rebinding (fa_filter ?fa) = fl_rebinding (fa_filter fa)" by simp_all
  have q: "forward_query h up ?fa = forward_query h up fa"
    by (intro ext) (simp add: forward_query_def)
  have d: "dns64_stage h up ?fa = dns64_stage h up fa"
    unfolding dns64_stage_def sel ..
  have c: "cname_chain_truncated (fa_filter ?fa) = cname_chain_truncated (fa_filter fa)"
    "rebinding_detected (fa_filter ?fa) = rebinding_detected (fa_filter fa)"
    by (intro ext, simp add: cname_chain_truncated_def rebinding_detected_def)+
  have f: "finish_lookup h clock up ?fa = finish_lookup h clock up fa"
    unfolding finish_lookup_def d c sel ..
  show ?thesis
  proof (cases "t = T_ANY")
    case True
    then show ?thesis by (simp add: forward_lookup_def)
  next
    case False
    show ?thesis unfolding forward_lookup_eq [OF False] q f ..
  qed
qed

end
