(* ===== verification/Resolver.thy ===== *)
theory Resolver
  imports Config NetAddr
begin

text \<open>
  Construction of the upstream resolver, \<open>src/core/resolver/mod.rs\<close>: the name servers
  and options that the program hands to hickory's builder. Hickory's defaults and its
  builder are parameters; a setting of a name server that the program leaves to hickory
  is \<open>None\<close>.
\<close>

datatype ns_protocol =
  NsUdp | NsTcp | NsTls string | NsHttps string "string option" | NsQuic string

record name_server =
  ns_ip :: ip_addr
  ns_protocol_of :: ns_protocol
  ns_trust_negative :: "bool option"

record resolver_options =
  ro_timeout_ms :: u64
  ro_attempts :: nat
  ro_recursion_desired :: bool
  ro_validate :: bool

record resolver_plan =
  rp_servers :: "name_server list"
  rp_options :: resolver_options
  rp_trust_anchors :: bool

record 'r resolver_wrap =
  rw_inner :: 'r
  rw_dnssec_enabled :: bool

record 'r resolver_lib =
  lib_default_servers :: "name_server list"
  lib_default_options :: resolver_options
  lib_build :: "resolver_plan \<Rightarrow> (string, 'r) result"

definition SYSTEMD_RESOLVED_STUB :: string where
  "SYSTEMD_RESOLVED_STUB = ''127.0.0.53:53''"

definition extract_tls_host :: "resolver_config \<Rightarrow> string" where
  "extract_tls_host cfg =
     (case rs_forwarders cfg of [] \<Rightarrow> ''1.1.1.1'' | f # _ \<Rightarrow> hd (split_on (CHR '':'') f))"

definition line_is_stub :: "string \<Rightarrow> bool" where
  "line_is_stub l =
     (case strip_prefix ''nameserver'' (trim l) of
        None \<Rightarrow> False
      | Some ns \<Rightarrow> trim ns = ''127.0.0.53'')"

definition detect_system_resolver :: "file_system \<Rightarrow> string option" where
  "detect_system_resolver fs =
     (if fs_exists fs ''/run/systemd/resolve/stub-resolv.conf'' then Some SYSTEMD_RESOLVED_STUB
      else case read_to_string fs ''/etc/resolv.conf'' of
          Inl _ \<Rightarrow> None
        | Inr content \<Rightarrow> if list_ex line_is_stub (lines content) then Some SYSTEMD_RESOLVED_STUB else None)"

definition ns_config :: "resolver_config \<Rightarrow> ip_addr \<Rightarrow> name_server" where
  "ns_config cfg ip =
     (let tls_host = extract_tls_host cfg; p = rs_forward_protocol cfg
      in \<lparr>ns_ip = ip,
          ns_protocol_of =
            (if p = ''udp'' then NsUdp
             else if p = ''tcp'' then NsTcp
             else if p = ''dot'' then NsTls tls_host
             else if p = ''doh'' then NsHttps tls_host None
             else if p = ''doq'' then NsQuic tls_host
             else NsUdp),
          ns_trust_negative = None\<rparr>)"

fun forwarder_servers :: "resolver_config \<Rightarrow> string list \<Rightarrow> (string, name_server list) result" where
  "forwarder_servers cfg [] = Inr []"
| "forwarder_servers cfg (f # fs) =
     try_bind (ok_or (''bad forwarder '' @ f) (parse_socket_addr f)) (\<lambda>addr.
     try_bind (forwarder_servers cfg fs) (\<lambda>rest. Inr (ns_config cfg (socket_ip addr) # rest)))"

definition system_servers :: "file_system \<Rightarrow> name_server list" where
  "system_servers fs =
     (case detect_system_resolver fs of
        None \<Rightarrow> []
      | Some sys_addr \<Rightarrow>
          (case parse_socket_addr sys_addr of
             None \<Rightarrow> []
           | Some addr \<Rightarrow> [\<lparr>ns_ip = socket_ip addr, ns_protocol_of = NsUdp, ns_trust_negative = Some True\<rparr>]))"

definition resolver_plan_of ::
  "'r resolver_lib \<Rightarrow> file_system \<Rightarrow> resolver_config \<Rightarrow> bool \<Rightarrow> name_server list \<Rightarrow> resolver_plan"
where
  "resolver_plan_of lib fs cfg dnssec_enabled servers =
     (let opts = (lib_default_options lib)\<lparr>ro_timeout_ms := rs_timeout_ms cfg,
            ro_attempts := unat (rs_concurrency cfg), ro_recursion_desired := True\<rparr>
      in \<lparr>rp_servers = lib_default_servers lib @ servers @ system_servers fs,
          rp_options = (if dnssec_enabled then opts\<lparr>ro_validate := True\<rparr> else opts),
          rp_trust_anchors = dnssec_enabled\<rparr>)"

definition from_config ::
  "'r resolver_lib \<Rightarrow> file_system \<Rightarrow> resolver_config \<Rightarrow> bool \<Rightarrow> (string, 'r resolver_wrap) result"
where
  "from_config lib fs cfg dnssec_enabled =
     try_bind (forwarder_servers cfg (rs_forwarders cfg)) (\<lambda>servers.
     try_bind (lib_build lib (resolver_plan_of lib fs cfg dnssec_enabled servers)) (\<lambda>r.
       Inr \<lparr>rw_inner = r, rw_dnssec_enabled = dnssec_enabled\<rparr>))"

subsection \<open>Lemmas\<close>

text \<open>The fallback address is well formed, so reading it never panics.\<close>

lemma stub_address: "parse_socket_addr SYSTEMD_RESOLVED_STUB = Some (SockV4 (ipv4_new 127 0 0 53) 53)"
  by code_simp

lemma detect_system_resolver_stub:
  "detect_system_resolver fs = Some a \<Longrightarrow> a = SYSTEMD_RESOLVED_STUB"
  by (auto simp: detect_system_resolver_def split: if_splits sum.splits)

lemma system_servers_stub:
  "system_servers fs =
     (if detect_system_resolver fs = None then []
      else [\<lparr>ns_ip = V4 (ipv4_new 127 0 0 53), ns_protocol_of = NsUdp, ns_trust_negative = Some True\<rparr>])"
  using detect_system_resolver_stub [of fs] stub_address
  by (auto simp: system_servers_def socket_ip_def split: option.splits)

lemma forwarder_servers_Inr:
  "forwarder_servers cfg fs = Inr servers \<longleftrightarrow>
     (\<exists>addrs. map parse_socket_addr fs = map Some addrs \<and> servers = map (\<lambda>a. ns_config cfg (socket_ip a)) addrs)"
proof (induction fs arbitrary: servers)
  case (Cons f fs)
  show ?case
  proof (cases "parse_socket_addr f")
    case (Some a)
    then show ?thesis
      by (auto simp: try_bind_Inr_iff Cons.IH Cons_eq_map_conv)
  qed auto
qed auto

lemma forwarder_servers_Inl:
  "forwarder_servers cfg fs = Inl e \<Longrightarrow> \<exists>f \<in> set fs. parse_socket_addr f = None \<and> e = ''bad forwarder '' @ f"
proof (induction fs)
  case (Cons f fs)
  then show ?case
    by (cases "parse_socket_addr f"; cases "forwarder_servers cfg fs") auto
qed simp

subsection \<open>Properties\<close>


end
