(* ===== verification/TlsCert.thy ===== *)
theory TlsCert
  imports FileSys
begin

text \<open>
  TLS certificates, \<open>src/net/cert.rs\<close>: which files are used, loading them, and the
  self-signed certificate for private environments. PEM decoding, key generation and
  signing are parameters.
\<close>

record ('cert, 'key, 'ck) tls_lib =
  pem_certs :: "string \<Rightarrow> (string, 'cert list) result"
  pem_key :: "string \<Rightarrow> (string, 'key) result"
  certified_key :: "'cert list \<Rightarrow> 'key \<Rightarrow> (string, 'ck) result"
  self_signed_pems :: "string \<Rightarrow> (string, string \<times> string) result"

datatype tls_error =
    OpenCert string io_error
  | ParseCert string string
  | EmptyChain string
  | ParseKey string string
  | CertMismatch string
  | NoCertificates string string
  | CreateOutDir string io_error
  | GenerateCert string
  | WriteOut string io_error

definition load_tls_cert ::
  "('cert, 'key, 'ck) tls_lib \<Rightarrow> file_system \<Rightarrow> string \<Rightarrow> string \<Rightarrow> (tls_error, 'ck) result"
where
  "load_tls_cert lib fs cert_path key_path =
     (case fs_read fs cert_path of
        Inl e \<Rightarrow> Inl (OpenCert cert_path e)
      | Inr cert_text \<Rightarrow>
          (case pem_certs lib cert_text of
             Inl e \<Rightarrow> Inl (ParseCert cert_path e)
           | Inr chain \<Rightarrow>
               if chain = [] then Inl (EmptyChain cert_path)
               else case fs_read fs key_path of
                   Inl e \<Rightarrow> Inl (ParseKey key_path (io_msg e))
                 | Inr key_text \<Rightarrow>
                     (case pem_key lib key_text of
                        Inl e \<Rightarrow> Inl (ParseKey key_path e)
                      | Inr key \<Rightarrow>
                          (case certified_key lib chain key of
                             Inl e \<Rightarrow> Inl (CertMismatch e)
                           | Inr ck \<Rightarrow> Inr ck))))"

definition auto_detect_cert_paths :: "file_system \<Rightarrow> string \<Rightarrow> string \<Rightarrow> (string \<times> string) option" where
  "auto_detect_cert_paths fs host letsencrypt_dir =
     (let le_dir = path_join letsencrypt_dir (trim_end_matches (CHR ''.'') host);
          cert = path_join le_dir ''fullchain.pem''; key = path_join le_dir ''privkey.pem''
      in if fs_exists fs cert \<and> fs_exists fs key then Some (cert, key) else None)"

definition resolve_cert_paths ::
  "file_system \<Rightarrow> string option \<Rightarrow> string option \<Rightarrow> string \<Rightarrow> string \<Rightarrow> (tls_error, string \<times> string) result"
where
  "resolve_cert_paths fs cert key host letsencrypt_dir =
     (case (cert, key) of
        (Some c, Some k) \<Rightarrow> Inr (c, k)
      | _ \<Rightarrow>
          (case auto_detect_cert_paths fs host letsencrypt_dir of
             Some p \<Rightarrow> Inr p
           | None \<Rightarrow> Inl (NoCertificates host (path_join letsencrypt_dir host))))"

definition generate_self_signed ::
  "('cert, 'key, 'ck) tls_lib \<Rightarrow> string \<Rightarrow> string \<Rightarrow> file_system
     \<Rightarrow> (tls_error, string \<times> string) result \<times> file_system"
where
  "generate_self_signed lib host_name keys_dir fs =
     (let host = trim_end_matches (CHR ''.'') host_name;
          out_dir = path_join (path_join keys_dir ''self_signed'') host;
          cert_path = path_join out_dir ''cert.pem''; key_path = path_join out_dir ''key.pem''
      in case create_dir_all fs out_dir of
           Inl e \<Rightarrow> (Inl (CreateOutDir out_dir e), fs)
         | Inr _ \<Rightarrow>
             if fs_exists fs cert_path \<and> fs_exists fs key_path then (Inr (cert_path, key_path), fs)
             else case self_signed_pems lib host of
                 Inl e \<Rightarrow> (Inl (GenerateCert e), fs)
               | Inr (cert_pem, key_text) \<Rightarrow>
                   (case fs_write fs cert_path cert_pem of
                      (Inl e, fs1) \<Rightarrow> (Inl (WriteOut cert_path e), fs1)
                    | (Inr _, fs1) \<Rightarrow>
                        (case fs_write fs1 key_path key_text of
                           (Inl e, fs2) \<Rightarrow> (Inl (WriteOut key_path e), fs2)
                         | (Inr _, fs2) \<Rightarrow> (Inr (cert_path, key_path), fs2))))"

subsection \<open>Lemmas\<close>

lemma auto_detect_exists:
  "auto_detect_cert_paths fs host dir = Some (c, k) \<Longrightarrow> fs_exists fs c \<and> fs_exists fs k"
  by (auto simp: auto_detect_cert_paths_def Let_def split: if_splits)

lemma generate_self_signed_exists:
  assumes "generate_self_signed lib host dir fs = (Inr (c, k), fs')"
  shows "fs_exists fs' c \<and> fs_exists fs' k"
  using assms
  by (auto simp: generate_self_signed_def Let_def fs_exists_def fs_write_Inr fs_write_def
      split: sum.splits prod.splits if_splits option.splits)

text \<open>A second call finds the files of the first and changes nothing.\<close>

lemma generate_self_signed_idem:
  assumes "generate_self_signed lib host dir fs = (Inr (c, k), fs')"
    and "create_dir_all fs' (path_join (path_join dir ''self_signed'') (trim_end_matches (CHR ''.'') host)) = Inr ()"
  shows "generate_self_signed lib host dir fs' = (Inr (c, k), fs')"
proof -
  have "c = path_join (path_join (path_join dir ''self_signed'') (trim_end_matches (CHR ''.'') host)) ''cert.pem''"
    "k = path_join (path_join (path_join dir ''self_signed'') (trim_end_matches (CHR ''.'') host)) ''key.pem''"
    using assms(1) by (auto simp: generate_self_signed_def Let_def split: sum.splits prod.splits if_splits)
  with assms(2) generate_self_signed_exists [OF assms(1)] show ?thesis
    by (simp add: generate_self_signed_def Let_def)
qed

end
