(* ===== verification/ZoneFile.thy ===== *)
theory ZoneFile
  imports DnsData Config
begin

text \<open>
  Zone files, \<open>src/core/zone/file.rs\<close>: resolution of the path of a zone file,
  loading it, replacing the mailbox of its SOA record by the configured one, and the
  presentation-format parsers for single records.

  A zone handler of hickory is its record sets, in the order of the underlying
  \<open>BTreeMap\<close>, with the settings it was created with. What the program calls of hickory's
  server part is the record \<open>zone_ops\<close> of functions.
\<close>

datatype zone_type = ZT_Primary | ZT_Secondary

datatype axfr_policy = AxfrDeny | AxfrAllowAll

record 'n rr_set =
  rs_records :: "'n rr list"
  rs_rrsigs :: "'n rr list"

type_synonym 'n rr_key = "'n \<times> record_type"

record 'n zone_handler =
  zh_origin :: 'n
  zh_type :: zone_type
  zh_axfr :: axfr_policy
  zh_nx_proof :: "nx_proof_kind_t option"
  zh_records :: "('n rr_key \<times> 'n rr_set) list"

record 'n zone_ops =
  lower_name :: "'n \<Rightarrow> 'n"
  name_eq :: "'n \<Rightarrow> 'n \<Rightarrow> bool"
  name_display :: "'n \<Rightarrow> string"
  try_from_config ::
    "file_system \<Rightarrow> string \<Rightarrow> 'n \<Rightarrow> zone_type \<Rightarrow> axfr_policy \<Rightarrow> nx_proof_kind_t option
       \<Rightarrow> (string, 'n zone_handler) result"
  upsert_mut :: "'n rr \<Rightarrow> u32 \<Rightarrow> 'n zone_handler \<Rightarrow> 'n zone_handler"
  rdata_from_str :: "record_type \<Rightarrow> string \<Rightarrow> (string, 'n rdata) result"
  show_type :: "record_type \<Rightarrow> string"
  show_rdata :: "'n rdata \<Rightarrow> string"

text \<open>The errors of the zone operations, one constructor per place that raises one.\<close>

datatype zone_error =
    ZoneFileNotFound string
  | InvalidOrigin string
  | ZoneParse string string
  | InvalidSoaRname string string
  | InvalidRdata record_type string string
  | UnexpectedRdata record_type
  | NoFileConfigured string
  | UnknownRecordType string
  | InvalidName string string
  | FieldCount record_type string
  | InvalidNumber string
  | InvalidAddress record_type string
  | InvalidHex string
  | HashLength nat nat
  | UnsupportedType record_type
  | CreateDir string io_error
  | WriteFile string io_error
  | ReadKey string io_error
  | UnsupportedAlgorithm string
  | KeyGeneration string
  | KeyNotFound string
  | LoadKey string
  | Signing string

definition map_err :: "('e \<Rightarrow> 'f) \<Rightarrow> ('e, 'a) result \<Rightarrow> ('f, 'a) result" where
  "map_err f r = (case r of Inl e \<Rightarrow> Inl (f e) | Inr x \<Rightarrow> Inr x)"

subsection \<open>Loading\<close>

definition resolve_zone_path :: "string \<Rightarrow> string \<Rightarrow> string" where
  "resolve_zone_path file_path zones_dir =
     (if is_absolute file_path then file_path else path_join zones_dir file_path)"

definition old_soa :: "'n rr_key \<Rightarrow> 'n zone_handler \<Rightarrow> 'n soa_data option" where
  "old_soa soa_key a =
     (case map_of (zh_records a) soa_key of
        None \<Rightarrow> None
      | Some rset \<Rightarrow>
          (case rs_records rset of
             [] \<Rightarrow> None
           | r # _ \<Rightarrow> (case rr_data r of RD_SOA soa \<Rightarrow> Some soa | _ \<Rightarrow> None)))"

definition patch_soa_rname ::
  "'n hickory \<Rightarrow> 'n zone_ops \<Rightarrow> 'n zone_handler \<Rightarrow> 'n \<Rightarrow> string \<Rightarrow> (zone_error, 'n zone_handler) result"
where
  "patch_soa_rname h z a origin rname_str =
     try_bind (map_err (InvalidSoaRname rname_str) (name_from_ascii h rname_str))
       (\<lambda>new_rname.
          let soa_key = (lower_name z origin, T_SOA)
          in case old_soa soa_key a of
               None \<Rightarrow> Inr a
             | Some soa \<Rightarrow>
                 (let new_soa = \<lparr>soa_mname = soa_mname soa, soa_rname_field = new_rname,
                        soa_serial = soa_serial soa, soa_refresh = soa_refresh soa,
                        soa_retry = soa_retry soa, soa_expire = soa_expire soa,
                        soa_minimum = soa_minimum soa\<rparr>;
                      a' = a\<lparr>zh_records := AList.delete soa_key (zh_records a)\<rparr>
                  in Inr (upsert_mut z (from_rdata origin 86400 (RD_SOA new_soa)) 0 a')))"

definition load_zone_file_with_proof ::
  "'n hickory \<Rightarrow> 'n zone_ops \<Rightarrow> file_system \<Rightarrow> string \<Rightarrow> string \<Rightarrow> string \<Rightarrow> zone_type \<Rightarrow> string option
     \<Rightarrow> nx_proof_kind_t option \<Rightarrow> (zone_error, 'n zone_handler) result"
where
  "load_zone_file_with_proof h z fs file_path zone_name zones_dir zt soa_rname_override nx =
     (let path = resolve_zone_path file_path zones_dir
      in if \<not> fs_exists fs path then Inl (ZoneFileNotFound path)
         else try_bind (map_err InvalidOrigin (name_from_ascii h zone_name))
           (\<lambda>origin. try_bind
              (map_err (ZoneParse path) (try_from_config z fs path origin zt AxfrAllowAll nx))
              (\<lambda>a. case soa_rname_override of
                     None \<Rightarrow> Inr a
                   | Some rname \<Rightarrow> patch_soa_rname h z a origin rname)))"

definition load_zone_file ::
  "'n hickory \<Rightarrow> 'n zone_ops \<Rightarrow> file_system \<Rightarrow> string \<Rightarrow> string \<Rightarrow> string \<Rightarrow> zone_type \<Rightarrow> string option
     \<Rightarrow> (zone_error, 'n zone_handler) result"
where
  "load_zone_file h z fs file_path zone_name zones_dir zt soa_rname_override =
     load_zone_file_with_proof h z fs file_path zone_name zones_dir zt soa_rname_override (Some Nsec)"

subsection \<open>Presentation format of single records\<close>

definition parse_svcb_rdata :: "'n zone_ops \<Rightarrow> record_type \<Rightarrow> string \<Rightarrow> (zone_error, 'n rdata) result" where
  "parse_svcb_rdata z t d = map_err (InvalidRdata t d) (rdata_from_str z t d)"

definition expect_type :: "record_type \<Rightarrow> 'n rdata \<Rightarrow> (zone_error, 'n rdata) result" where
  "expect_type t r = (if rdata_type r = t then Inr r else Inl (UnexpectedRdata (rdata_type r)))"

definition parse_svcb_data :: "'n zone_ops \<Rightarrow> string \<Rightarrow> (zone_error, 'n rdata) result" where
  "parse_svcb_data z d = try_bind (parse_svcb_rdata z T_SVCB d) (expect_type T_SVCB)"

definition parse_https_data :: "'n zone_ops \<Rightarrow> string \<Rightarrow> (zone_error, 'n rdata) result" where
  "parse_https_data z d = try_bind (parse_svcb_rdata z T_HTTPS d) (expect_type T_HTTPS)"

definition parse_sshfp_data :: "'n zone_ops \<Rightarrow> string \<Rightarrow> (zone_error, 'n rdata) result" where
  "parse_sshfp_data z d = try_bind (parse_svcb_rdata z T_SSHFP d) (expect_type T_SSHFP)"

definition parse_dname_data :: "'n zone_ops \<Rightarrow> string \<Rightarrow> (zone_error, 'n rdata) result" where
  "parse_dname_data z d =
     try_bind (map_err (InvalidRdata T_ANAME d) (rdata_from_str z T_ANAME d)) (expect_type T_ANAME)"

definition parse_aname_data :: "'n hickory \<Rightarrow> string \<Rightarrow> (zone_error, 'n rdata) result" where
  "parse_aname_data h d =
     try_bind (map_err (InvalidName d) (name_from_ascii h (trim d))) (\<lambda>target. Inr (RD_CNAME target))"

text \<open>
  What the program relies on of \<open>upsert_mut\<close>: a record of a name and type that has
  no record set becomes a set of its own, and nothing else changes.
\<close>

definition upsert_law :: "'n zone_ops \<Rightarrow> bool" where
  "upsert_law z \<longleftrightarrow>
     (\<forall>r serial a. map_of (zh_records a) (lower_name z (rr_name r), rr_type r) = None \<longrightarrow>
        map_of (zh_records (upsert_mut z r serial a)) =
          (map_of (zh_records a))
            ((lower_name z (rr_name r), rr_type r) \<mapsto> \<lparr>rs_records = [r], rs_rrsigs = []\<rparr>))"

subsection \<open>Lemmas\<close>

lemma map_err_simps [simp, rust_simps]:
  "map_err f (Inl e) = Inl (f e)" "map_err f (Inr x) = Inr x"
  by (simp_all add: map_err_def)

lemma map_err_Inr_iff [simp]: "map_err f r = Inr x \<longleftrightarrow> r = Inr x"
  by (cases r) simp_all

lemma expect_type_Inr [simp]: "expect_type t r = Inr x \<longleftrightarrow> x = r \<and> rdata_type r = t"
  by (auto simp: expect_type_def)

lemma map_of_remove_key: "map_of (AList.delete k al) = (map_of al)(k := None)"
  by (rule AList.delete_conv')

lemma presentation_types:
  "parse_svcb_data z d = Inr r \<Longrightarrow> rdata_type r = T_SVCB"
  "parse_https_data z d = Inr r \<Longrightarrow> rdata_type r = T_HTTPS"
  "parse_sshfp_data z d = Inr r \<Longrightarrow> rdata_type r = T_SSHFP"
  "parse_dname_data z d = Inr r \<Longrightarrow> rdata_type r = T_ANAME"
  "parse_aname_data h d = Inr r \<Longrightarrow> rdata_type r = T_CNAME"
  by (auto simp: parse_svcb_data_def parse_https_data_def parse_sshfp_data_def parse_dname_data_def
      parse_aname_data_def try_bind_Inr_iff)

subsection \<open>An instance\<close>

text \<open>
  A concrete \<open>zone_ops\<close> over label lists: names compare without case, a zone file
  holds the records of a given handler, and an upserted record replaces the set of its
  key.
\<close>

definition lower_labels :: "string list \<Rightarrow> string list" where
  "lower_labels n = map to_ascii_lowercase n"

definition list_zone_ops ::
  "(string list rr_key \<times> string list rr_set) list \<Rightarrow> string list zone_ops"
where
  "list_zone_ops recs =
     \<lparr>lower_name = lower_labels, name_eq = (\<lambda>a b. lower_labels a = lower_labels b),
      name_display = (\<lambda>n. concat (map (\<lambda>l. l @ ''.'') n)),
      try_from_config = (\<lambda>fs path origin zt axfr nx.
        Inr \<lparr>zh_origin = origin, zh_type = zt, zh_axfr = axfr, zh_nx_proof = nx, zh_records = recs\<rparr>),
      upsert_mut = (\<lambda>r serial a. a\<lparr>zh_records := AList.update (lower_labels (rr_name r), rr_type r)
        \<lparr>rs_records = [r], rs_rrsigs = []\<rparr> (zh_records a)\<rparr>),
      rdata_from_str = (\<lambda>t d. Inr (RD_Opaque t d)),
      show_type = (\<lambda>t. if t = T_A then ''A'' else if t = T_SOA then ''SOA'' else ''TYPE''),
      show_rdata = (\<lambda>r. case r of RD_A ip \<Rightarrow> show_ipv4 ip | _ \<Rightarrow> ''rdata'')\<rparr>"

lemma list_zone_ops_upsert: "upsert_law (list_zone_ops recs)"
  by (simp add: upsert_law_def list_zone_ops_def update_conv')

subsection \<open>Properties\<close>


definition demo_soa :: "string list soa_data" where
  "demo_soa = \<lparr>soa_mname = [''ns1'', ''test''], soa_rname_field = [''root'', ''test''], soa_serial = 7,
     soa_refresh = 3600, soa_retry = 600, soa_expire = 86400, soa_minimum = 300\<rparr>"

definition demo_zone :: "(string list rr_key \<times> string list rr_set) list" where
  "demo_zone =
     [(([''test''], T_SOA), \<lparr>rs_records = [from_rdata [''test''] 60 (RD_SOA demo_soa)], rs_rrsigs = []\<rparr>),
      (([''www'', ''test''], T_A), \<lparr>rs_records = [from_rdata [''www'', ''test''] 60 (RD_A 1)], rs_rrsigs = []\<rparr>)]"

definition demo_handler :: "string list zone_handler" where
  "demo_handler = \<lparr>zh_origin = [''test''], zh_type = ZT_Primary, zh_axfr = AxfrAllowAll,
     zh_nx_proof = Some Nsec, zh_records = demo_zone\<rparr>"


end
