(* ===== verification/ZoneTransfer.thy ===== *)
theory ZoneTransfer
  imports ZoneFile
begin

text \<open>
  Zone transfer: the AXFR client of \<open>src/core/zone/secondary.rs\<close>, NOTIFY messages of
  \<open>src/core/zone/notify.rs\<close> and the catalog zones of \<open>src/core/zone/catalog.rs\<close>. The
  message codec and the network are records of functions that pass the outside world
  on; a received stream is its bytes and how it ends.
\<close>

subsection \<open>Messages and the network\<close>

datatype op_code = OpQuery | OpNotify | OpUpdate

datatype response_code = NoErrorCode | FormErr | ServFail | NXDomain | NotImp | OtherCode u16

datatype message_type = MtQuery | MtResponse

record 'n message =
  ms_id :: u16
  ms_type :: message_type
  ms_op :: op_code
  ms_aa :: bool
  ms_tc :: bool
  ms_rd :: bool
  ms_ra :: bool
  ms_rcode :: response_code
  ms_queries :: "('n \<times> record_type) list"
  ms_answers :: "'n rr list"

record 'n wire =
  msg_encode :: "'n message \<Rightarrow> (string, bytes) result"
  msg_decode :: "bytes \<Rightarrow> (string, 'n message) result"

datatype stream_end = EndEof | EndError string

record 'w net =
  tcp_connect :: "socket_addr \<Rightarrow> 'w \<Rightarrow> (string, nat) result \<times> 'w"
  tcp_write :: "nat \<Rightarrow> bytes \<Rightarrow> 'w \<Rightarrow> (string, unit) result \<times> 'w"
  tcp_incoming :: "nat \<Rightarrow> 'w \<Rightarrow> (bytes \<times> stream_end) \<times> 'w"
  udp_bind :: "'w \<Rightarrow> (string, nat) result \<times> 'w"
  udp_send :: "nat \<Rightarrow> bytes \<Rightarrow> socket_addr \<Rightarrow> 'w \<Rightarrow> (string, unit) result \<times> 'w"

datatype transfer_error =
    BadAddress string
  | BadZoneName string string
  | ConnectFailed string
  | SerializeFailed string
  | WriteFailed string
  | ReadLength string
  | ReadBody string
  | ParseResponse string
  | AxfrRefused response_code
  | NoQuerySection
  | BindFailed string
  | SendFailed string

text \<open>A step that may fail, with the world passed on.\<close>

definition io_bind ::
  "('e, 'a) result \<times> 'w \<Rightarrow> ('a \<Rightarrow> 'w \<Rightarrow> ('e, 'b) result \<times> 'w) \<Rightarrow> ('e, 'b) result \<times> 'w"
where
  "io_bind m f = (case m of (Inl e, w) \<Rightarrow> (Inl e, w) | (Inr x, w) \<Rightarrow> f x w)"

definition io_err :: "('e \<Rightarrow> 'f) \<Rightarrow> ('e, 'a) result \<times> 'w \<Rightarrow> ('f, 'a) result \<times> 'w" where
  "io_err f m = (map_err f (fst m), snd m)"

text \<open>\<open>Message::query()\<close>: an empty query with the defaults of hickory's metadata.\<close>

definition query_message :: "u16 \<Rightarrow> op_code \<Rightarrow> bool \<Rightarrow> 'n \<Rightarrow> record_type \<Rightarrow> 'n message" where
  "query_message i op aa n t =
     \<lparr>ms_id = i, ms_type = MtQuery, ms_op = op, ms_aa = aa, ms_tc = False, ms_rd = False, ms_ra = False,
      ms_rcode = NoErrorCode, ms_queries = [(n, t)], ms_answers = []\<rparr>"

text \<open>The identifier is the low half of the nanoseconds of the clock.\<close>

definition id_of_nanos :: "u32 \<Rightarrow> u16" where
  "id_of_nanos nanos = ucast (nanos AND 0xFFFF)"

subsection \<open>AXFR\<close>

record 'n axfr_state =
  ax_records :: "'n rr list"
  ax_saw_soa_start :: bool
  ax_soa_serial :: "u32 option"

definition axfr_init :: "'n axfr_state" where
  "axfr_init = \<lparr>ax_records = [], ax_saw_soa_start = False, ax_soa_serial = None\<rparr>"

definition axfr_record :: "'n rr \<Rightarrow> 'n axfr_state \<Rightarrow> 'n axfr_state" where
  "axfr_record r s =
     (case rr_data r of
        RD_SOA soa \<Rightarrow>
          if \<not> ax_saw_soa_start s
          then \<lparr>ax_records = ax_records s @ [r], ax_saw_soa_start = True, ax_soa_serial = Some (soa_serial soa)\<rparr>
          else s
      | _ \<Rightarrow> s\<lparr>ax_records := ax_records s @ [r]\<rparr>)"

definition axfr_done :: "'n message \<Rightarrow> 'n axfr_state \<Rightarrow> bool" where
  "axfr_done response s \<longleftrightarrow>
     \<not> ms_tc response \<and> ax_saw_soa_start s \<and> list_ex (\<lambda>r. rr_type r = T_SOA) (ax_records s)"

function axfr_loop :: "'n wire \<Rightarrow> bytes \<Rightarrow> stream_end \<Rightarrow> 'n axfr_state \<Rightarrow> (transfer_error, 'n rr list) result"
where
  "axfr_loop w stream fin s =
     (if length stream < 2 then
        (case fin of EndEof \<Rightarrow> Inr (ax_records s) | EndError e \<Rightarrow> Inl (ReadLength e))
      else
        (let msg_len = unat (u16_from_be_bytes (stream ! 0) (stream ! 1)); rest = drop 2 stream
         in if msg_len = 0 then Inr (ax_records s)
            else if length rest < msg_len then
              Inl (ReadBody (case fin of EndEof \<Rightarrow> ''early eof'' | EndError e \<Rightarrow> e))
            else case msg_decode w (take msg_len rest) of
                Inl e \<Rightarrow> Inl (ParseResponse e)
              | Inr response \<Rightarrow>
                  if ms_rcode response \<noteq> NoErrorCode then Inl (AxfrRefused (ms_rcode response))
                  else let s' = fold axfr_record (ms_answers response) s
                    in if axfr_done response s' then Inr (ax_records s')
                       else axfr_loop w (drop msg_len rest) fin s'))"
  by pat_completeness auto
termination
  by (relation "measure (\<lambda>(w, stream, fin, s). length stream)") auto

declare axfr_loop.simps [simp del]

definition axfr_records_from_primary ::
  "'n hickory \<Rightarrow> 'n wire \<Rightarrow> 'w net \<Rightarrow> u32 \<Rightarrow> string \<Rightarrow> string \<Rightarrow> 'w
     \<Rightarrow> (transfer_error, 'n rr list) result \<times> 'w"
where
  "axfr_records_from_primary h w net nanos zone_name primary_addr st =
     (case try_bind (ok_or (BadAddress primary_addr) (parse_socket_addr primary_addr)) (\<lambda>addr.
           try_bind (map_err (BadZoneName zone_name) (name_from_ascii h zone_name)) (\<lambda>origin.
             Inr (addr, origin))) of
        Inl e \<Rightarrow> (Inl e, st)
      | Inr (addr, origin) \<Rightarrow>
          io_bind (io_err ConnectFailed (tcp_connect net addr st)) (\<lambda>conn st1.
            case msg_encode w (query_message (id_of_nanos nanos) OpQuery False origin T_AXFR) of
              Inl e \<Rightarrow> (Inl (SerializeFailed e), st1)
            | Inr query_bytes \<Rightarrow>
                io_bind (io_err WriteFailed
                    (tcp_write net conn (u16_to_be_bytes (of_nat (length query_bytes))) st1)) (\<lambda>_ st2.
                io_bind (io_err WriteFailed (tcp_write net conn query_bytes st2)) (\<lambda>_ st3.
                  (case tcp_incoming net conn st3 of
                     ((stream, fin), st4) \<Rightarrow> (axfr_loop w stream fin axfr_init, st4))))))"

definition axfr_from_primary ::
  "'n hickory \<Rightarrow> 'n zone_ops \<Rightarrow> 'n wire \<Rightarrow> 'w net \<Rightarrow> u32 \<Rightarrow> string \<Rightarrow> string \<Rightarrow> 'w
     \<Rightarrow> (transfer_error, 'n zone_handler) result \<times> 'w"
where
  "axfr_from_primary h z w net nanos zone_name primary_addr st =
     (case map_err (BadZoneName zone_name) (name_from_ascii h zone_name) of
        Inl e \<Rightarrow> (Inl e, st)
      | Inr origin \<Rightarrow>
          io_bind (axfr_records_from_primary h w net nanos zone_name primary_addr st) (\<lambda>records st'.
            (Inr (fold (\<lambda>r a. upsert_mut z r 0 a) records
               \<lparr>zh_origin = origin, zh_type = ZT_Primary, zh_axfr = AxfrDeny, zh_nx_proof = None,
                zh_records = []\<rparr>), st')))"

subsection \<open>NOTIFY\<close>

definition send_notify ::
  "'n hickory \<Rightarrow> 'n wire \<Rightarrow> 'w net \<Rightarrow> u32 \<Rightarrow> string \<Rightarrow> string \<Rightarrow> u32 \<Rightarrow> 'w
     \<Rightarrow> (transfer_error, unit) result \<times> 'w"
where
  "send_notify h w net nanos zone_name secondary_addr serial st =
     (case try_bind (ok_or (BadAddress secondary_addr) (parse_socket_addr secondary_addr)) (\<lambda>addr.
           try_bind (map_err (BadZoneName zone_name) (name_from_ascii h zone_name)) (\<lambda>origin.
           try_bind (map_err SerializeFailed
               (msg_encode w (query_message (id_of_nanos nanos) OpNotify True origin T_SOA))) (\<lambda>bs.
             Inr (addr, bs)))) of
        Inl e \<Rightarrow> (Inl e, st)
      | Inr (addr, bs) \<Rightarrow>
          io_bind (io_err BindFailed (udp_bind net st)) (\<lambda>sock st1.
            io_err SendFailed (udp_send net sock bs addr st1)))"

definition answer_serial :: "'n rr list \<Rightarrow> u32" where
  "answer_serial answers =
     unwrap_or 0
       (case find (\<lambda>r. rr_type r = T_SOA) answers of
          None \<Rightarrow> None
        | Some r \<Rightarrow> (case rr_data r of RD_SOA soa \<Rightarrow> Some (soa_serial soa) | _ \<Rightarrow> None))"

definition handle_notify :: "'n hickory \<Rightarrow> 'n message \<Rightarrow> (transfer_error, string \<times> u32) result" where
  "handle_notify h msg =
     (case ms_queries msg of
        [] \<Rightarrow> Inl NoQuerySection
      | (n, t) # _ \<Rightarrow> Inr (name_utf8 h n, answer_serial (ms_answers msg)))"

subsection \<open>Catalog zones\<close>

record 'n catalog_zone =
  cz_origin :: 'n
  cz_type :: zone_type

definition sync_catalog ::
  "'n hickory \<Rightarrow> 'n zone_ops \<Rightarrow> 'n wire \<Rightarrow> 'w net \<Rightarrow> u32 \<Rightarrow> 'n catalog_zone \<Rightarrow> string \<Rightarrow> 'w
     \<Rightarrow> (transfer_error, 'n rr list) result \<times> 'w"
where
  "sync_catalog h z w net nanos c primary_addr st =
     axfr_records_from_primary h w net nanos (name_display z (cz_origin c)) primary_addr st"

definition verify_version :: "'n hickory \<Rightarrow> 'n zone_ops \<Rightarrow> 'n catalog_zone \<Rightarrow> 'n rr list \<Rightarrow> bool" where
  "verify_version h z c records =
     (case name_from_ascii h (''version.'' @ name_display z (cz_origin c)) of
        Inl _ \<Rightarrow> False
      | Inr version_name \<Rightarrow>
          list_ex (\<lambda>r. name_eq z (rr_name r) version_name
             \<and> (case rr_data r of RD_TXT ts \<Rightarrow> list_ex (\<lambda>t. t = ''2'') ts | _ \<Rightarrow> False)) records)"

definition parse_member_zones :: "'n zone_ops \<Rightarrow> 'n catalog_zone \<Rightarrow> 'n rr list \<Rightarrow> (string \<times> 'n) list" where
  "parse_member_zones z c records =
     (let suffix = ''zones.'' @ name_display z (cz_origin c)
      in concat (map (\<lambda>r.
           case rr_data r of
             RD_PTR target \<Rightarrow>
               (case strip_suffix suffix (name_display z (rr_name r)) of
                  None \<Rightarrow> []
                | Some prefix \<Rightarrow> [(trim_end_matches (CHR ''.'') prefix, target)])
           | _ \<Rightarrow> []) records))"

definition parse_primaries ::
  "'n hickory \<Rightarrow> 'n zone_ops \<Rightarrow> 'n catalog_zone \<Rightarrow> 'n rr list \<Rightarrow> string \<Rightarrow> ip_addr list"
where
  "parse_primaries h z c records unique_id =
     (case name_from_ascii h (''primaries.'' @ unique_id @ ''.zones.'' @ name_display z (cz_origin c)) of
        Inl _ \<Rightarrow> []
      | Inr subdomain \<Rightarrow>
          concat (map (\<lambda>r.
            if name_eq z (rr_name r) subdomain
            then (case rr_data r of RD_A ip \<Rightarrow> [V4 ip] | RD_AAAA ip \<Rightarrow> [V6 ip] | _ \<Rightarrow> []) else [])
          records))"

subsection \<open>The records of a transfer\<close>

definition is_soa :: "'n rr \<Rightarrow> bool" where
  "is_soa r = (case rr_data r of RD_SOA _ \<Rightarrow> True | _ \<Rightarrow> False)"

fun keep_first_soa :: "'n rr list \<Rightarrow> 'n rr list" where
  "keep_first_soa [] = []"
| "keep_first_soa (r # rs) = (if is_soa r then r # filter (\<lambda>x. \<not> is_soa x) rs else r # keep_first_soa rs)"

lemma axfr_record_soa: "is_soa r \<Longrightarrow> ax_saw_soa_start s \<Longrightarrow> axfr_record r s = s"
  by (auto simp: is_soa_def axfr_record_def split: rdata.splits)

lemma axfr_record_first:
  "is_soa r \<Longrightarrow> \<not> ax_saw_soa_start s \<Longrightarrow>
     ax_records (axfr_record r s) = ax_records s @ [r] \<and> ax_saw_soa_start (axfr_record r s)"
  by (auto simp: is_soa_def axfr_record_def split: rdata.splits)

lemma axfr_record_other: "\<not> is_soa r \<Longrightarrow> axfr_record r s = s\<lparr>ax_records := ax_records s @ [r]\<rparr>"
  by (auto simp: is_soa_def axfr_record_def split: rdata.splits)

lemma fold_axfr_after:
  "ax_saw_soa_start s \<Longrightarrow>
     ax_records (fold axfr_record rs s) = ax_records s @ filter (\<lambda>x. \<not> is_soa x) rs
     \<and> ax_saw_soa_start (fold axfr_record rs s)"
  by (induction rs arbitrary: s) (auto simp: axfr_record_soa axfr_record_other)

lemma fold_axfr_before:
  "\<not> ax_saw_soa_start s \<Longrightarrow>
     ax_records (fold axfr_record rs s) = ax_records s @ keep_first_soa rs
     \<and> (ax_saw_soa_start (fold axfr_record rs s) \<longleftrightarrow> list_ex is_soa rs)"
proof (induction rs arbitrary: s)
  case (Cons r rs)
  then show ?case
    by (cases "is_soa r") (simp_all add: axfr_record_first axfr_record_other fold_axfr_after)
qed simp

lemma is_soa_type: "is_soa r \<Longrightarrow> rr_type r = T_SOA"
  by (auto simp: is_soa_def rr_type_def split: rdata.splits)

lemma keep_first_soa_has: "list_ex is_soa rs \<Longrightarrow> list_ex is_soa (keep_first_soa rs)"
  by (induction rs) auto

text \<open>A transfer starts with at most one SOA record and keeps no other.\<close>

definition axfr_inv :: "'n axfr_state \<Rightarrow> bool" where
  "axfr_inv s = (length (filter is_soa (ax_records s)) = (if ax_saw_soa_start s then 1 else 0))"

lemma axfr_inv_record: "axfr_inv s \<Longrightarrow> axfr_inv (axfr_record r s)"
  by (cases "is_soa r"; cases "ax_saw_soa_start s")
    (simp_all add: axfr_inv_def axfr_record_soa axfr_record_first axfr_record_other)

lemma axfr_inv_fold: "axfr_inv s \<Longrightarrow> axfr_inv (fold axfr_record rs s)"
  by (induction rs arbitrary: s) (simp_all add: axfr_inv_record)

lemma axfr_loop_one_soa:
  "axfr_loop w stream fin s = Inr rs \<Longrightarrow> axfr_inv s \<Longrightarrow> length (filter is_soa rs) \<le> 1"
proof (induction w stream fin s rule: axfr_loop.induct)
  case (1 w stream fin s)
  have le: "length (filter is_soa (ax_records s')) \<le> 1" if "axfr_inv s'" for s' :: "'a axfr_state"
    using that by (simp add: axfr_inv_def split: if_splits)
  show ?case
    using 1(2,3) le axfr_inv_fold [OF 1(3)] 1(1)
    by (subst (asm) axfr_loop.simps)
      (auto simp: Let_def split: if_splits sum.splits stream_end.splits)
qed

lemma axfr_loop_message:
  assumes "msg_decode w msg = Inr m" "0 < length msg" "length msg \<le> 65535" "ms_rcode m = NoErrorCode"
  shows "axfr_loop w (u16_to_be_bytes (of_nat (length msg)) @ msg @ rest) fin s =
           (if axfr_done m (fold axfr_record (ms_answers m) s)
            then Inr (ax_records (fold axfr_record (ms_answers m) s))
            else axfr_loop w rest fin (fold axfr_record (ms_answers m) s))"
proof -
  obtain a b where ab: "u16_to_be_bytes (of_nat (length msg)) = [a, b]"
    "u16_from_be_bytes a b = of_nat (length msg)" by (rule u16_bytes_cases)
  have "unat (of_nat (length msg) :: u16) = length msg"
    using assms(3) by (simp add: unat_of_nat)
  with assms show ?thesis
    by (subst axfr_loop.simps) (simp add: ab Let_def)
qed

subsection \<open>Properties\<close>

text \<open>
  C13. The end of a zone transfer. A transfer ends with the first message that holds the
  opening SOA record and is not marked truncated: the result is the answer records of
  that message without later SOA records, and whatever the primary sends after it is not
  read. A transfer in one message is therefore complete; of a transfer in several
  messages, whose first one holds the SOA record, only the first message is used.
\<close>

theorem axfr_uses_first_message_only:
  assumes "msg_decode w msg = Inr m" "0 < length msg" "length msg \<le> 65535"
    "ms_rcode m = NoErrorCode" "\<not> ms_tc m" "list_ex is_soa (ms_answers m)"
  shows "axfr_loop w (u16_to_be_bytes (of_nat (length msg)) @ msg @ rest) fin axfr_init
           = Inr (keep_first_soa (ms_answers m))"
proof -
  let ?s = "fold axfr_record (ms_answers m) axfr_init"
  have s: "ax_records ?s = keep_first_soa (ms_answers m)" "ax_saw_soa_start ?s"
    using fold_axfr_before [of axfr_init "ms_answers m"] assms(6) by (simp_all add: axfr_init_def)
  have "list_ex (\<lambda>r. rr_type r = T_SOA) (ax_records ?s)"
    using keep_first_soa_has [OF assms(6)] is_soa_type unfolding s list_ex_iff by blast
  with assms(5) s have "axfr_done m ?s" by (simp add: axfr_done_def)
  with assms s show ?thesis by (simp add: axfr_loop_message)
qed

definition demo_transfer :: "string list message list" where
  "demo_transfer =
     [query_message 1 OpQuery True [''test''] T_AXFR \<lparr>ms_answers :=
        [from_rdata [''test''] 60 (RD_SOA demo_soa), from_rdata [''a'', ''test''] 60 (RD_A 1)]\<rparr>,
      query_message 1 OpQuery True [''test''] T_AXFR \<lparr>ms_answers :=
        [from_rdata [''b'', ''test''] 60 (RD_A 2), from_rdata [''test''] 60 (RD_SOA demo_soa)]\<rparr>]"

definition demo_wire :: "string list wire" where
  "demo_wire = \<lparr>msg_encode = (\<lambda>m. Inr [1]),
     msg_decode = (\<lambda>bs. if bs = [1] then Inr (demo_transfer ! 0) else Inr (demo_transfer ! 1))\<rparr>"

theorem axfr_uses_first_message_only_witness:
  "axfr_loop demo_wire [0, 1, 1, 0, 1, 2] EndEof axfr_init
     = Inr [from_rdata [''test''] 60 (RD_SOA demo_soa), from_rdata [''a'', ''test''] 60 (RD_A 1)]"
proof -
  have f: "u16_to_be_bytes (of_nat (length [1 :: u8])) @ [1] @ [0, 1, 2] = [0, 1, 1, 0, 1, 2]"
    by (simp add: u16_to_be_bytes_def numeral_2_eq_2)
  have d: "msg_decode demo_wire [1] = Inr (demo_transfer ! 0)" by (simp add: demo_wire_def)
  have a: "ms_answers (demo_transfer ! 0)
     = [from_rdata [''test''] 60 (RD_SOA demo_soa), from_rdata [''a'', ''test''] 60 (RD_A 1)]"
    by (simp add: demo_transfer_def)
  have k: "keep_first_soa (ms_answers (demo_transfer ! 0)) = ms_answers (demo_transfer ! 0)"
    unfolding a by (simp add: is_soa_def)
  have "axfr_loop demo_wire (u16_to_be_bytes (of_nat (length [1 :: u8])) @ [1] @ [0, 1, 2]) EndEof axfr_init
      = Inr (keep_first_soa (ms_answers (demo_transfer ! 0)))"
    by (rule axfr_uses_first_message_only [OF d])
      (simp_all add: demo_transfer_def query_message_def is_soa_def)
  then show ?thesis unfolding f k by (simp only: a)
qed

end
