(* ===== verification/ZoneManager.thy ===== *)
theory ZoneManager
  imports ZoneTransfer
begin

text \<open>
  The life of the zones: signing keys (\<open>src/core/dnssec/keygen.rs\<close>), the zone manager
  that loads the configured zones into the catalog (\<open>src/core/zone/mod.rs\<close>) and the
  request handler that adds NOTIFY to hickory's catalog (\<open>src/net/handler.rs\<close>). The
  catalog and the signer types are hickory's and stay type parameters; spawned tasks are
  values, run by \<open>run_task\<close>.
\<close>

subsection \<open>Signing keys\<close>

datatype algorithm = ECDSAP256SHA256 | ECDSAP384SHA384 | ED25519 | RSASHA256

definition algorithm_from_str :: "string \<Rightarrow> (zone_error, algorithm) result" where
  "algorithm_from_str s =
     (if s = ''ecdsa-p256'' then Inr ECDSAP256SHA256
      else if s = ''ecdsa-p384'' then Inr ECDSAP384SHA384
      else if s = ''ed25519'' then Inr ED25519
      else if s = ''rsa-sha256'' then Inr RSASHA256
      else Inl (UnsupportedAlgorithm s))"

text \<open>The cryptography: key generation, reading a key, and the signer of a zone.\<close>

record ('n, 'key, 'signer) crypto =
  generate_pkcs8 :: "algorithm \<Rightarrow> (string, string) result"
  from_pkcs8 :: "algorithm \<Rightarrow> string \<Rightarrow> (string, 'key) result"
  to_public_key :: "'key \<Rightarrow> (string, bytes) result"
  make_signer :: "bytes \<Rightarrow> 'key \<Rightarrow> 'n \<Rightarrow> nat \<Rightarrow> 'signer"
  add_zone_signing_key :: "'signer \<Rightarrow> 'n zone_handler \<Rightarrow> (string, 'n zone_handler) result"
  secure_zone :: "'n zone_handler \<Rightarrow> (string, 'n zone_handler) result"

definition DEFAULT_SIG_DURATION :: nat where
  "DEFAULT_SIG_DURATION = 30 * 24 * 3600"

definition key_path_for_zone :: "string \<Rightarrow> string \<Rightarrow> string \<Rightarrow> string" where
  "key_path_for_zone zone_name keys_dir alg =
     (let safe_name = trim_end_matches (CHR ''_'')
            (map (\<lambda>c. if c = CHR ''.'' then CHR ''_'' else c) zone_name)
      in path_join keys_dir (safe_name @ ''.'' @ alg @ ''.key''))"

definition generate_and_save_key ::
  "('n, 'key, 'signer) crypto \<Rightarrow> string \<Rightarrow> string \<Rightarrow> string \<Rightarrow> file_system
     \<Rightarrow> (zone_error, string) result \<times> file_system"
where
  "generate_and_save_key c zone_name alg_name keys_dir fs =
     (case algorithm_from_str alg_name of
        Inl e \<Rightarrow> (Inl e, fs)
      | Inr alg \<Rightarrow>
          (let key_path = key_path_for_zone zone_name keys_dir alg_name
           in if fs_exists fs key_path then (Inr key_path, fs)
              else case map_err (CreateDir keys_dir) (create_dir_all fs keys_dir) of
                  Inl e \<Rightarrow> (Inl e, fs)
                | Inr _ \<Rightarrow>
                    (case (if alg = RSASHA256
                           then Inl (KeyGeneration ''RSA key generation not supported by ring'')
                           else map_err KeyGeneration (generate_pkcs8 c alg)) of
                       Inl e \<Rightarrow> (Inl e, fs)
                     | Inr der \<Rightarrow>
                         (let (r, fs') = fs_write fs key_path der
                          in (try_bind (map_err (WriteFile key_path) r) (\<lambda>_. Inr key_path), fs')))))"

definition resolve_key_path ::
  "('n, 'key, 'signer) crypto \<Rightarrow> string \<Rightarrow> string option \<Rightarrow> string \<Rightarrow> string \<Rightarrow> file_system
     \<Rightarrow> (zone_error, string) result \<times> file_system"
where
  "resolve_key_path c zone_name explicit_key alg_name keys_dir fs =
     (case explicit_key of
        Some p \<Rightarrow> (if \<not> fs_exists fs p then Inl (KeyNotFound p) else Inr p, fs)
      | None \<Rightarrow> generate_and_save_key c zone_name alg_name keys_dir fs)"

definition load_signer ::
  "'n hickory \<Rightarrow> ('n, 'key, 'signer) crypto \<Rightarrow> string \<Rightarrow> string \<Rightarrow> string \<Rightarrow> file_system
     \<Rightarrow> (zone_error, 'signer) result"
where
  "load_signer h c key_path zone_name alg_name fs =
     try_bind (algorithm_from_str alg_name) (\<lambda>alg.
     try_bind (map_err (ReadKey key_path) (fs_read fs key_path)) (\<lambda>key_bytes.
     try_bind (map_err LoadKey (from_pkcs8 c alg key_bytes)) (\<lambda>signing_key.
     try_bind (map_err LoadKey (to_public_key c signing_key)) (\<lambda>public_key.
     try_bind (map_err (InvalidName zone_name) (name_from_ascii h zone_name)) (\<lambda>origin.
       Inr (make_signer c public_key signing_key origin DEFAULT_SIG_DURATION))))))"

subsection \<open>The zone manager\<close>

record secondary_zone_info =
  si_name :: string
  si_primaries :: "string list"

datatype zone_task = SyncSecondary string "string list" | SyncCatalog string "string list"

record 'cat zone_manager =
  zm_catalog :: 'cat
  zm_secondaries :: "secondary_zone_info list"
  zm_tasks :: "zone_task list"
  zm_fs :: file_system

text \<open>\<open>Catalog::default\<close> and \<open>Catalog::upsert\<close>.\<close>

record ('n, 'cat) catalog_ops =
  catalog_empty :: 'cat
  catalog_upsert :: "'n \<Rightarrow> 'n zone_handler \<Rightarrow> 'cat \<Rightarrow> 'cat"

definition zone_manager_new :: "('n, 'cat) catalog_ops \<Rightarrow> file_system \<Rightarrow> 'cat zone_manager" where
  "zone_manager_new cat fs =
     \<lparr>zm_catalog = catalog_empty cat, zm_secondaries = [], zm_tasks = [], zm_fs = fs\<rparr>"

definition sign_zone ::
  "'n hickory \<Rightarrow> ('n, 'key, 'signer) crypto \<Rightarrow> config \<Rightarrow> zone_config \<Rightarrow> 'n zone_handler \<Rightarrow> file_system
     \<Rightarrow> (zone_error, 'n zone_handler) result \<times> file_system"
where
  "sign_zone h c cfg zc a fs =
     io_bind (resolve_key_path c (zc_name zc) (zc_dnssec_key zc) (zc_dnssec_algorithm zc)
         (dk_keys_dir (cfg_dnssec_keys cfg)) fs) (\<lambda>key_path fs'.
       (try_bind (load_signer h c key_path (zc_name zc) (zc_dnssec_algorithm zc) fs') (\<lambda>signer.
        try_bind (map_err Signing (add_zone_signing_key c signer a)) (\<lambda>a1.
          map_err Signing (secure_zone c a1))), fs'))"

definition load_primary ::
  "'n hickory \<Rightarrow> 'n zone_ops \<Rightarrow> ('n, 'key, 'signer) crypto \<Rightarrow> ('n, 'cat) catalog_ops
     \<Rightarrow> (string \<Rightarrow> bytes option) \<Rightarrow> config \<Rightarrow> zone_config \<Rightarrow> string \<Rightarrow> 'cat zone_manager
     \<Rightarrow> (zone_error, unit) result \<times> 'cat zone_manager"
where
  "load_primary h z c cat hex cfg zc zones_dir m =
     (case try_bind (ok_or (NoFileConfigured (zc_name zc)) (zc_file zc)) (\<lambda>file_path.
           try_bind (load_zone_file_with_proof h z (zm_fs m) file_path (zc_name zc) zones_dir ZT_Primary
               (Some (soa_rname cfg)) (nx_proof_kind hex zc)) (\<lambda>a.
           try_bind (map_err (InvalidName (zc_name zc)) (name_from_ascii h (zc_name zc))) (\<lambda>n.
             Inr (a, lower_name z n)))) of
        Inl e \<Rightarrow> (Inl e, m)
      | Inr (a, origin) \<Rightarrow>
          (let (signed, fs') = (if zc_dnssec_signing zc then sign_zone h c cfg zc a (zm_fs m) else (Inr a, zm_fs m))
           in case signed of
                Inl e \<Rightarrow> (Inl e, m\<lparr>zm_fs := fs'\<rparr>)
              | Inr a' \<Rightarrow> (Inr (), m\<lparr>zm_catalog := catalog_upsert cat origin a' (zm_catalog m), zm_fs := fs'\<rparr>)))"

definition load_secondary :: "zone_config \<Rightarrow> 'cat zone_manager \<Rightarrow> 'cat zone_manager" where
  "load_secondary zc m =
     m\<lparr>zm_secondaries := zm_secondaries m @ [\<lparr>si_name = zc_name zc, si_primaries = zc_primaries zc\<rparr>],
       zm_tasks := zm_tasks m @ [SyncSecondary (zc_name zc) (zc_primaries zc)]\<rparr>"

definition load_catalog_zone :: "zone_config \<Rightarrow> 'cat zone_manager \<Rightarrow> 'cat zone_manager" where
  "load_catalog_zone zc m = m\<lparr>zm_tasks := zm_tasks m @ [SyncCatalog (zc_name zc) (zc_primaries zc)]\<rparr>"

fun load_zones ::
  "'n hickory \<Rightarrow> 'n zone_ops \<Rightarrow> ('n, 'key, 'signer) crypto \<Rightarrow> ('n, 'cat) catalog_ops
     \<Rightarrow> (string \<Rightarrow> bytes option) \<Rightarrow> config \<Rightarrow> zone_config list \<Rightarrow> 'cat zone_manager
     \<Rightarrow> (zone_error, unit) result \<times> 'cat zone_manager"
where
  "load_zones h z c cat hex cfg [] m = (Inr (), m)"
| "load_zones h z c cat hex cfg (zc # zs) m =
     (if zc_kind zc = ''primary'' then
        (case load_primary h z c cat hex cfg zc (cfg_zones_dir cfg) m of
           (Inl e, m') \<Rightarrow> (Inl e, m')
         | (Inr _, m') \<Rightarrow> load_zones h z c cat hex cfg zs m')
      else if zc_kind zc = ''secondary'' then load_zones h z c cat hex cfg zs (load_secondary zc m)
      else if zc_kind zc = ''catalog'' then load_zones h z c cat hex cfg zs (load_catalog_zone zc m)
      else load_zones h z c cat hex cfg zs m)"

definition load_all ::
  "'n hickory \<Rightarrow> 'n zone_ops \<Rightarrow> ('n, 'key, 'signer) crypto \<Rightarrow> ('n, 'cat) catalog_ops
     \<Rightarrow> (string \<Rightarrow> bytes option) \<Rightarrow> config \<Rightarrow> 'cat zone_manager
     \<Rightarrow> (zone_error, 'cat \<times> secondary_zone_info list) result \<times> 'cat zone_manager"
where
  "load_all h z c cat hex cfg m =
     (case load_zones h z c cat hex cfg (cfg_zones cfg) m of
        (Inl e, m') \<Rightarrow> (Inl e, m')
      | (Inr _, m') \<Rightarrow> (Inr (zm_catalog m', zm_secondaries m'), m'))"

subsection \<open>Background tasks\<close>

text \<open>
  Both loops ask the primaries in turn until one answers. The transferred zone is
  dropped: it is logged and not put into the catalog.
\<close>

fun sync_secondary ::
  "'n hickory \<Rightarrow> 'n zone_ops \<Rightarrow> 'n wire \<Rightarrow> 'w net \<Rightarrow> ('w \<Rightarrow> u32) \<Rightarrow> string \<Rightarrow> string list \<Rightarrow> 'w
     \<Rightarrow> 'n zone_handler option \<times> 'w"
where
  "sync_secondary h z w net nanos zone_name [] st = (None, st)"
| "sync_secondary h z w net nanos zone_name (primary # ps) st =
     (case axfr_from_primary h z w net (nanos st) zone_name primary st of
        (Inr a, st') \<Rightarrow> (Some a, st')
      | (Inl _, st') \<Rightarrow> sync_secondary h z w net nanos zone_name ps st')"

type_synonym 'n catalog_members = "(string \<times> 'n \<times> ip_addr list) list"

definition catalog_members :: "'n hickory \<Rightarrow> 'n zone_ops \<Rightarrow> 'n catalog_zone \<Rightarrow> 'n rr list \<Rightarrow> 'n catalog_members option" where
  "catalog_members h z cz records =
     (if verify_version h z cz records
      then Some (map (\<lambda>(uid, member). (uid, member, parse_primaries h z cz records uid))
             (parse_member_zones z cz records))
      else None)"

fun sync_catalog_loop ::
  "'n hickory \<Rightarrow> 'n zone_ops \<Rightarrow> 'n wire \<Rightarrow> 'w net \<Rightarrow> ('w \<Rightarrow> u32) \<Rightarrow> 'n catalog_zone \<Rightarrow> string list \<Rightarrow> 'w
     \<Rightarrow> 'n catalog_members option \<times> 'w"
where
  "sync_catalog_loop h z w net nanos cz [] st = (None, st)"
| "sync_catalog_loop h z w net nanos cz (primary # ps) st =
     (case sync_catalog h z w net (nanos st) cz primary st of
        (Inr records, st') \<Rightarrow> (catalog_members h z cz records, st')
      | (Inl _, st') \<Rightarrow> sync_catalog_loop h z w net nanos cz ps st')"

definition run_task ::
  "'n hickory \<Rightarrow> 'n zone_ops \<Rightarrow> 'n wire \<Rightarrow> 'w net \<Rightarrow> ('w \<Rightarrow> u32) \<Rightarrow> zone_task \<Rightarrow> 'w \<Rightarrow> 'w"
where
  "run_task h z w net nanos t st =
     (case t of
        SyncSecondary zone_name primaries \<Rightarrow> snd (sync_secondary h z w net nanos zone_name primaries st)
      | SyncCatalog zone_name primaries \<Rightarrow>
          (case name_from_ascii h zone_name of
             Inl _ \<Rightarrow> st
           | Inr origin \<Rightarrow>
               snd (sync_catalog_loop h z w net nanos \<lparr>cz_origin = origin, cz_type = ZT_Secondary\<rparr> primaries st)))"

subsection \<open>The request handler\<close>

record response_info =
  ri_id :: u16
  ri_op :: op_code
  ri_rcode :: response_code

record 'cat handler =
  hd_catalog :: 'cat
  hd_secondaries :: "secondary_zone_info list"

text \<open>
  A request: its header and the single question that hickory's \<open>request_info\<close>
  extracts. The SOA serial that the handler reads from the message is only logged.
\<close>

record 'n request =
  rq_id :: u16
  rq_op :: op_code
  rq_info :: "(string, 'n) result"

type_synonym responder = "response_code \<Rightarrow> (string, response_info) result"

definition send_notify_ack :: "'n request \<Rightarrow> responder \<Rightarrow> response_info" where
  "send_notify_ack rq send =
     (case send NoErrorCode of
        Inr info \<Rightarrow> info
      | Inl _ \<Rightarrow> \<lparr>ri_id = rq_id rq, ri_op = OpNotify, ri_rcode = ServFail\<rparr>)"

definition send_error :: "'n request \<Rightarrow> response_code \<Rightarrow> responder \<Rightarrow> response_info" where
  "send_error rq rcode send =
     (case send rcode of
        Inr info \<Rightarrow> info
      | Inl _ \<Rightarrow> \<lparr>ri_id = rq_id rq, ri_op = rq_op rq, ri_rcode = ServFail\<rparr>)"

definition matching_secondary :: "secondary_zone_info list \<Rightarrow> string \<Rightarrow> secondary_zone_info option" where
  "matching_secondary secs zone_name =
     find (\<lambda>s. si_name s = zone_name \<or> si_name s = zone_name @ ''.'') secs"

definition notify_request ::
  "'n hickory \<Rightarrow> 'cat handler \<Rightarrow> 'n request \<Rightarrow> responder \<Rightarrow> response_info \<times> zone_task list"
where
  "notify_request h hh rq send =
     (case rq_info rq of
        Inl _ \<Rightarrow> (send_error rq FormErr send, [])
      | Inr qname \<Rightarrow>
          (let tasks = (case matching_secondary (hd_secondaries hh) (name_utf8 h qname) of
                          Some sec \<Rightarrow> [SyncSecondary (si_name sec) (si_primaries sec)]
                        | None \<Rightarrow> [])
           in (send_notify_ack rq send, tasks)))"

definition handle_request ::
  "'n hickory \<Rightarrow> ('cat \<Rightarrow> 'n request \<Rightarrow> responder \<Rightarrow> response_info) \<Rightarrow> 'cat handler \<Rightarrow> 'n request
     \<Rightarrow> responder \<Rightarrow> response_info \<times> zone_task list"
where
  "handle_request h catalog_handle hh rq send =
     (if rq_op rq = OpNotify then notify_request h hh rq send
      else (catalog_handle (hd_catalog hh) rq send, []))"

subsection \<open>Lemmas\<close>

lemma load_primary_depends:
  assumes "zm_catalog m1 = zm_catalog m2" "zm_fs m1 = zm_fs m2"
    and "load_primary h z c cat hex cfg zc dir m1 = (r1, n1)"
    and "load_primary h z c cat hex cfg zc dir m2 = (r2, n2)"
  shows "r1 = r2 \<and> zm_catalog n1 = zm_catalog n2 \<and> zm_fs n1 = zm_fs n2
    \<and> zm_secondaries n1 = zm_secondaries m1"
  using assms
  by (auto simp: load_primary_def Let_def split: sum.splits prod.splits if_splits)

lemma load_zones_primaries:
  assumes "zm_catalog m1 = zm_catalog m2" "zm_fs m1 = zm_fs m2"
    and "load_zones h z c cat hex cfg zs m1 = (r1, n1)"
    and "load_zones h z c cat hex cfg (filter (\<lambda>zc. zc_kind zc = ''primary'') zs) m2 = (r2, n2)"
  shows "r1 = r2 \<and> zm_catalog n1 = zm_catalog n2 \<and> zm_fs n1 = zm_fs n2"
  using assms
proof (induction zs arbitrary: m1 m2)
  case (Cons zc zs)
  show ?case
  proof (cases "zc_kind zc = ''primary''")
    case True
    obtain q1 k1 where 1: "load_primary h z c cat hex cfg zc (cfg_zones_dir cfg) m1 = (q1, k1)"
      by (cases "load_primary h z c cat hex cfg zc (cfg_zones_dir cfg) m1")
    obtain q2 k2 where 2: "load_primary h z c cat hex cfg zc (cfg_zones_dir cfg) m2 = (q2, k2)"
      by (cases "load_primary h z c cat hex cfg zc (cfg_zones_dir cfg) m2")
    from load_primary_depends [OF Cons.prems(1,2) 1 2]
    have eq: "q1 = q2" "zm_catalog k1 = zm_catalog k2" "zm_fs k1 = zm_fs k2" by simp_all
    show ?thesis
    proof (cases q2)
      case (Inl e)
      then show ?thesis using Cons.prems(3,4) True 1 2 eq by auto
    next
      case (Inr u)
      then show ?thesis using Cons.IH [OF eq(2,3)] Cons.prems(3,4) True 1 2 eq by simp
    qed
  next
    case False
    have "zm_catalog (load_secondary zc m1) = zm_catalog m2" "zm_fs (load_secondary zc m1) = zm_fs m2"
      "zm_catalog (load_catalog_zone zc m1) = zm_catalog m2" "zm_fs (load_catalog_zone zc m1) = zm_fs m2"
      using Cons.prems(1,2) by (simp_all add: load_secondary_def load_catalog_zone_def)
    then show ?thesis
      using Cons.IH [of "load_secondary zc m1" m2] Cons.IH [of "load_catalog_zone zc m1" m2] Cons.IH [of m1 m2]
        Cons.prems False by (simp split: if_splits)
  qed
qed simp

lemma load_primary_secondaries:
  "load_primary h z c cat hex cfg zc dir m = (r, n) \<Longrightarrow> zm_secondaries n = zm_secondaries m"
  using load_primary_depends [of m m] by blast

lemma load_zones_secondaries:
  assumes "load_zones h z c cat hex cfg zs m = (Inr u, n)"
  shows "zm_secondaries n = zm_secondaries m
     @ map (\<lambda>zc. \<lparr>si_name = zc_name zc, si_primaries = zc_primaries zc\<rparr>) (filter (\<lambda>zc. zc_kind zc = ''secondary'') zs)"
  using assms
proof (induction zs arbitrary: m)
  case (Cons zc zs)
  show ?case
  proof (cases "zc_kind zc = ''primary''")
    case True
    then show ?thesis
      using Cons.IH Cons.prems load_primary_secondaries by (fastforce split: prod.splits sum.splits)
  next
    case False
    then show ?thesis
      using Cons.IH [of "load_secondary zc m"] Cons.IH [of "load_catalog_zone zc m"] Cons.IH [of m] Cons.prems
      by (cases "zc_kind zc = ''secondary''")
        (simp_all add: load_secondary_def load_catalog_zone_def split: if_splits)
  qed
qed simp


lemma load_zones_cfg: "load_zones h z c cat hex (cfg\<lparr>cfg_zones := x\<rparr>) zs m = load_zones h z c cat hex cfg zs m"
proof -
  have "soa_rname (cfg\<lparr>cfg_zones := x\<rparr>) = soa_rname cfg"
    by (simp add: soa_rname_def Let_def)
  moreover have "sign_zone h c (cfg\<lparr>cfg_zones := x\<rparr>) = sign_zone h c cfg"
    by (intro ext) (simp add: sign_zone_def)
  ultimately have "load_primary h z c cat hex (cfg\<lparr>cfg_zones := x\<rparr>) zc dir m = load_primary h z c cat hex cfg zc dir m"
    for zc dir m
    unfolding load_primary_def by (simp only:)
  then show ?thesis by (induction zs arbitrary: m) (simp_all split: prod.split sum.split)
qed

lemma matching_secondary_None:
  "matching_secondary secs n = None \<longleftrightarrow> (\<forall>s \<in> set secs. si_name s \<noteq> n \<and> si_name s \<noteq> n @ ''.'')"
  by (auto simp: matching_secondary_def find_None_iff)

lemma ends_with_snoc [simp]: "ends_with [c] (s @ [c])"
  by (simp add: ends_with_def)

subsection \<open>Properties\<close>

text \<open>
  C14. Loading the zones. What the server serves after start-up depends on the primary
  zones alone: the outcome, the catalog and the key files written are those of the same
  configuration with all other zones removed, and an error is the same error. The list
  for NOTIFY holds exactly the configured secondary zones, in their order.
\<close>

theorem load_all_serves_primaries_only:
  "let (r1, m1) = load_all h z c cat hex cfg (zone_manager_new cat fs);
       (r2, m2) = load_all h z c cat hex
          (cfg\<lparr>cfg_zones := filter (\<lambda>zc. zc_kind zc = ''primary'') (cfg_zones cfg)\<rparr>) (zone_manager_new cat fs)
   in zm_fs m1 = zm_fs m2
      \<and> (case (r1, r2) of
           (Inl e1, Inl e2) \<Rightarrow> e1 = e2
         | (Inr (cat1, secs1), Inr (cat2, secs2)) \<Rightarrow>
             cat1 = cat2 \<and> secs1 = map (\<lambda>zc. \<lparr>si_name = zc_name zc, si_primaries = zc_primaries zc\<rparr>)
               (filter (\<lambda>zc. zc_kind zc = ''secondary'') (cfg_zones cfg))
         | _ \<Rightarrow> False)"
proof -
  let ?m = "zone_manager_new cat fs" and ?zs = "cfg_zones cfg"
  let ?ps = "filter (\<lambda>zc. zc_kind zc = ''primary'') ?zs"
  obtain q1 n1 where 1: "load_zones h z c cat hex cfg ?zs ?m = (q1, n1)"
    by (cases "load_zones h z c cat hex cfg ?zs ?m")
  obtain q2 n2 where 2: "load_zones h z c cat hex cfg ?ps ?m = (q2, n2)"
    by (cases "load_zones h z c cat hex cfg ?ps ?m")
  have eq: "q1 = q2" "zm_catalog n1 = zm_catalog n2" "zm_fs n1 = zm_fs n2"
    using load_zones_primaries [OF refl refl 1 2] by simp_all
  show ?thesis
  proof (cases q2)
    case (Inl e)
    with eq 1 2 show ?thesis by (simp add: load_all_def load_zones_cfg)
  next
    case (Inr u)
    from load_zones_secondaries [OF 1 [unfolded eq(1) Inr]] eq 1 2 Inr
    show ?thesis by (simp add: load_all_def load_zones_cfg zone_manager_new_def)
  qed
qed

text \<open>
  NOTIFY for secondary zones. When the queried name is printed with its final dot,
  as every name received from the network is, and no secondary zone is configured with a
  final dot, a NOTIFY starts no transfer, whatever zone it is for; it is acknowledged all
  the same. The comparison adds a dot to the received name instead of to the configured
  one.
\<close>

theorem notify_ignores_unqualified_secondaries:
  assumes "rq_op rq = OpNotify" "rq_info rq = Inr qname" "name_utf8 h qname = t @ ''.''"
    and "list_all (\<lambda>s. \<not> ends_with ''.'' (si_name s)) (hd_secondaries hh)"
  shows "handle_request h catalog_handle hh rq send = (send_notify_ack rq send, [])"
proof -
  have "matching_secondary (hd_secondaries hh) (t @ ''.'') = None"
    using assms(4) unfolding matching_secondary_None list_all_iff
    by (metis append_assoc ends_with_snoc)
  with assms(1-3) show ?thesis by (simp add: handle_request_def notify_request_def)
qed

definition demo_sec_handler :: "unit handler" where
  "demo_sec_handler = \<lparr>hd_catalog = (), hd_secondaries = [\<lparr>si_name = ''b.test'', si_primaries = [''192.0.2.1:53'']\<rparr>]\<rparr>"

definition demo_notify :: "string list request" where
  "demo_notify = \<lparr>rq_id = 7, rq_op = OpNotify, rq_info = Inr [''b'', ''test'']\<rparr>"

theorem notify_ignores_unqualified_secondaries_witness:
  "handle_request (list_hickory []) (\<lambda>c rq send. send_error rq NotImp send) demo_sec_handler demo_notify
     (\<lambda>rc. Inl ''closed'') = (\<lparr>ri_id = 7, ri_op = OpNotify, ri_rcode = ServFail\<rparr>, [])"
proof -
  have "handle_request (list_hickory []) (\<lambda>c rq send. send_error rq NotImp send) demo_sec_handler demo_notify
     (\<lambda>rc. Inl ''closed'') = (send_notify_ack demo_notify (\<lambda>rc. Inl ''closed''), [])"
    by (rule notify_ignores_unqualified_secondaries [where t = "''b.test''" and qname = "[''b'', ''test'']"])
      (simp_all add: demo_notify_def list_hickory_def demo_sec_handler_def ends_with_def)
  then show ?thesis by (simp add: send_notify_ack_def demo_notify_def)
qed

end
