(* ===== verification/QueryLog.thy ===== *)
theory QueryLog
  imports RustText
begin

text \<open>
  The query log, \<open>src/core/log/query_log.rs\<close>: a bounded channel from the listeners to a
  writer task that collects events in a buffer and flushes it to the database, when it
  is full or when the interval timer ticks. The database is a record of functions: which
  connections succeed and which rows it accepts.

  The writer's loop selects between a received event and a tick. The branch that ends the
  loop is taken only when every other branch is disabled; the tick never is, so the loop
  has the two steps below and no other.
\<close>

subsection \<open>Events and rows\<close>

record query_event =
  qe_ts :: nat
  qe_qname :: string
  qe_qtype :: u16
  qe_client :: string
  qe_rcode :: u8
  qe_answers :: u64
  qe_latency_ms :: u64
  qe_from_cache :: bool
  qe_blocked :: bool

record query_log_config =
  qc_postgres_url :: "string option"
  qc_table :: string
  qc_buffer_size :: nat
  qc_flush_interval_ms :: u64

definition default_url :: string where
  "default_url = ''postgresql://postgres@localhost:5432/dnsquerylogs''"

text \<open>A row has the signed types of the table; the casts cut the wider integers.\<close>

record log_row =
  row_qname :: string
  row_qtype :: int
  row_client :: string
  row_rcode :: int
  row_answers :: int
  row_latency_ms :: int
  row_from_cache :: bool
  row_blocked :: bool

definition event_row :: "query_event \<Rightarrow> log_row" where
  "event_row e =
     \<lparr>row_qname = trim_end_matches (CHR ''.'') (qe_qname e), row_qtype = sint (ucast (qe_qtype e) :: u32),
      row_client = qe_client e, row_rcode = sint (ucast (qe_rcode e) :: u16),
      row_answers = sint (ucast (qe_answers e) :: u32),
      row_latency_ms = sint (ucast (qe_latency_ms e) :: u32),
      row_from_cache = qe_from_cache e, row_blocked = qe_blocked e\<rparr>"

definition insert_sql :: "string \<Rightarrow> string" where
  "insert_sql table =
     ''INSERT INTO '' @ table @ '' (timestamp, qname, qtype, client_ip, rcode, answers, latency_ms, ''
       @ ''from_cache, blocked) VALUES (NOW(), $1, $2, $3::inet, $4, $5, $6, $7, $8)''"

record database =
  db_connect :: "string \<Rightarrow> bool"
  db_execute :: "string \<Rightarrow> log_row \<Rightarrow> bool"

text \<open>The rows that a flush adds: none without a connection, else the accepted ones.\<close>

definition flush :: "database \<Rightarrow> string \<Rightarrow> string \<Rightarrow> query_event list \<Rightarrow> log_row list" where
  "flush db url table events =
     (if events = [] then []
      else if db_connect db url
      then filter (db_execute db (insert_sql table)) (map event_row events) else [])"

subsection \<open>The writer\<close>

definition CHANNEL_CAPACITY :: nat where
  "CHANNEL_CAPACITY = 1024"

record query_log =
  ql_url :: string
  ql_table :: string
  ql_buffer_size :: nat
  ql_queue :: "query_event list"
  ql_buffer :: "query_event list"
  ql_flushed :: "query_event list list"
  ql_rows :: "log_row list"

definition spawn :: "query_log_config \<Rightarrow> query_log" where
  "spawn cfg =
     \<lparr>ql_url = unwrap_or default_url (qc_postgres_url cfg), ql_table = qc_table cfg,
      ql_buffer_size = qc_buffer_size cfg, ql_queue = [], ql_buffer = [], ql_flushed = [], ql_rows = []\<rparr>"

definition log_event :: "query_event \<Rightarrow> query_log \<Rightarrow> query_log" where
  "log_event e s =
     (if length (ql_queue s) < CHANNEL_CAPACITY then s\<lparr>ql_queue := ql_queue s @ [e]\<rparr> else s)"

definition flush_buffer :: "database \<Rightarrow> query_log \<Rightarrow> query_log" where
  "flush_buffer db s =
     s\<lparr>ql_flushed := ql_flushed s @ [ql_buffer s],
       ql_rows := ql_rows s @ flush db (ql_url s) (ql_table s) (ql_buffer s), ql_buffer := []\<rparr>"

definition writer_recv :: "database \<Rightarrow> query_log \<Rightarrow> query_log" where
  "writer_recv db s =
     (case ql_queue s of
        [] \<Rightarrow> s
      | e # q \<Rightarrow>
          (let s1 = s\<lparr>ql_queue := q, ql_buffer := ql_buffer s @ [e]\<rparr>
           in if ql_buffer_size s1 \<le> length (ql_buffer s1) then flush_buffer db s1 else s1))"

definition writer_tick :: "database \<Rightarrow> query_log \<Rightarrow> query_log" where
  "writer_tick db s = (if ql_buffer s \<noteq> [] then flush_buffer db s else s)"

text \<open>
  The interleavings of the listeners' sends with the writer's steps. The trace keeps the
  events that were offered, and whether the channel took each of them.
\<close>

inductive ql_step :: "database \<Rightarrow> query_log \<Rightarrow> (query_event \<times> bool) list \<Rightarrow> query_log \<Rightarrow> bool" for db where
  ql_log: "ql_step db s [(e, length (ql_queue s) < CHANNEL_CAPACITY)] (log_event e s)"
| ql_recv: "ql_queue s \<noteq> [] \<Longrightarrow> ql_step db s [] (writer_recv db s)"
| ql_tick: "ql_step db s [] (writer_tick db s)"

inductive ql_run :: "database \<Rightarrow> query_log \<Rightarrow> (query_event \<times> bool) list \<Rightarrow> query_log \<Rightarrow> bool" for db where
  ql_run_init: "ql_run db s [] s"
| ql_run_step: "ql_run db s t s' \<Longrightarrow> ql_step db s' u s'' \<Longrightarrow> ql_run db s (t @ u) s''"

inductive_cases ql_stepE: "ql_step db s t s'"

text \<open>
  What the log owes: the accepted events, in order, are the flushed batches, then the
  buffer, then the channel; the rows are those of the flushed batches.
\<close>

definition accepted :: "(query_event \<times> bool) list \<Rightarrow> query_event list" where
  "accepted t = map fst (filter snd t)"

definition ql_inv :: "database \<Rightarrow> query_event list \<Rightarrow> query_log \<Rightarrow> bool" where
  "ql_inv db evs s \<longleftrightarrow>
     concat (ql_flushed s) @ ql_buffer s @ ql_queue s = evs
     \<and> length (ql_buffer s) < max 1 (ql_buffer_size s)
     \<and> length (ql_queue s) \<le> CHANNEL_CAPACITY
     \<and> list_all (\<lambda>b. b \<noteq> [] \<and> length b \<le> max 1 (ql_buffer_size s)) (ql_flushed s)
     \<and> ql_rows s = concat (map (flush db (ql_url s) (ql_table s)) (ql_flushed s))"

subsection \<open>Lemmas\<close>

lemma accepted_simps [simp]:
  "accepted [] = []" "accepted (t @ u) = accepted t @ accepted u"
  "accepted [(e, b)] = (if b then [e] else [])"
  by (simp_all add: accepted_def)

lemma flush_buffer_inv:
  assumes "concat (ql_flushed s) @ ql_buffer s @ ql_queue s = evs" "ql_buffer s \<noteq> []"
    "length (ql_buffer s) \<le> max 1 (ql_buffer_size s)" "length (ql_queue s) \<le> CHANNEL_CAPACITY"
    "list_all (\<lambda>b. b \<noteq> [] \<and> length b \<le> max 1 (ql_buffer_size s)) (ql_flushed s)"
    "ql_rows s = concat (map (flush db (ql_url s) (ql_table s)) (ql_flushed s))"
  shows "ql_inv db evs (flush_buffer db s)"
  using assms by (auto simp: ql_inv_def flush_buffer_def)

lemma ql_inv_log:
  "ql_inv db evs s \<Longrightarrow>
     ql_inv db (evs @ (if length (ql_queue s) < CHANNEL_CAPACITY then [e] else [])) (log_event e s)"
  by (auto simp: ql_inv_def log_event_def)

lemma ql_inv_recv:
  assumes "ql_inv db evs s"
  shows "ql_inv db evs (writer_recv db s)"
proof (cases "ql_queue s")
  case Nil
  with assms show ?thesis by (simp add: writer_recv_def)
next
  case (Cons e q)
  let ?s1 = "s\<lparr>ql_queue := q, ql_buffer := ql_buffer s @ [e]\<rparr>"
  show ?thesis
  proof (cases "ql_buffer_size s \<le> Suc (length (ql_buffer s))")
    case True
    have "ql_inv db evs (flush_buffer db ?s1)"
      by (rule flush_buffer_inv) (use assms Cons in \<open>auto simp: ql_inv_def\<close>)
    with Cons True show ?thesis by (simp add: writer_recv_def)
  next
    case False
    with Cons assms show ?thesis by (auto simp: writer_recv_def ql_inv_def)
  qed
qed

lemma ql_inv_tick: "ql_inv db evs s \<Longrightarrow> ql_inv db evs (writer_tick db s)"
  by (auto simp: writer_tick_def ql_inv_def flush_buffer_def)

lemma ql_inv_step: "ql_step db s t s' \<Longrightarrow> ql_inv db evs s \<Longrightarrow> ql_inv db (evs @ accepted t) s'"
  using ql_inv_log ql_inv_recv ql_inv_tick by (fastforce elim!: ql_stepE)

lemma ql_inv_spawn: "ql_inv db [] (spawn cfg)"
  by (simp add: ql_inv_def spawn_def)

lemma ql_inv_run: "ql_run db s t s' \<Longrightarrow> ql_inv db evs s \<Longrightarrow> ql_inv db (evs @ accepted t) s'"
proof (induction rule: ql_run.induct)
  case (ql_run_step s t s' u s'')
  then show ?case using ql_inv_step by fastforce
qed simp

text \<open>Receiving everything in the channel and one tick empties channel and buffer.\<close>

lemma writer_recv_queue [simp]: "ql_queue (writer_recv db s) = tl (ql_queue s)"
  by (cases "ql_queue s") (auto simp: writer_recv_def flush_buffer_def Let_def)

lemma funpow_recv_queue: "ql_queue ((writer_recv db ^^ n) s) = drop n (ql_queue s)"
  by (induction n) (simp_all add: drop_Suc tl_drop)

lemma funpow_recv_inv: "ql_inv db evs s \<Longrightarrow> ql_inv db evs ((writer_recv db ^^ n) s)"
  by (induction n) (simp_all add: ql_inv_recv)

lemma writer_tick_frame [simp]: "ql_queue (writer_tick db s) = ql_queue s" "ql_buffer (writer_tick db s) = []"
  by (simp_all add: writer_tick_def flush_buffer_def)

subsection \<open>Properties\<close>

text \<open>
  C10. No event of the query log is lost, duplicated or reordered after the channel took
  it. In every interleaving of sends, receipts and ticks the events that the channel took
  are, in order, those of the flushed batches, the buffer and the channel; no batch is
  empty or longer than the buffer size (one event if that is zero), the buffer stays
  below that size and the channel within its capacity; and when the writer receives
  what is in the channel and its timer ticks, everything taken so far is flushed.
\<close>

theorem query_log_conserves:
  assumes "ql_run db (spawn cfg) t s"
  shows "ql_inv db (accepted t) s
    \<and> concat (ql_flushed (writer_tick db ((writer_recv db ^^ length (ql_queue s)) s))) = accepted t"
proof
  show inv: "ql_inv db (accepted t) s"
    using ql_inv_run [OF assms ql_inv_spawn] by simp
  let ?d = "writer_tick db ((writer_recv db ^^ length (ql_queue s)) s)"
  have "ql_inv db (accepted t) ?d" using inv by (simp add: ql_inv_tick funpow_recv_inv)
  moreover have "ql_queue ?d = []" "ql_buffer ?d = []" by (simp_all add: funpow_recv_queue)
  ultimately show "concat (ql_flushed ?d) = accepted t" by (simp add: ql_inv_def)
qed

definition demo_event :: query_event where
  "demo_event = \<lparr>qe_ts = 0, qe_qname = ''example.com.'', qe_qtype = 1, qe_client = ''192.0.2.1'', qe_rcode = 0,
     qe_answers = 2, qe_latency_ms = 5, qe_from_cache = False, qe_blocked = True\<rparr>"

definition demo_db :: database where
  "demo_db = \<lparr>db_connect = (\<lambda>url. True), db_execute = (\<lambda>sql row. True)\<rparr>"

definition demo_log_config :: query_log_config where
  "demo_log_config = \<lparr>qc_postgres_url = None, qc_table = ''dns_logs'', qc_buffer_size = 64, qc_flush_interval_ms = 100\<rparr>"

theorem query_log_conserves_witness:
  "ql_inv demo_db [demo_event] (log_event demo_event (spawn demo_log_config))
   \<and> concat (ql_flushed (writer_tick demo_db (writer_recv demo_db (log_event demo_event (spawn demo_log_config)))))
     = [demo_event]"
proof -
  let ?s = "spawn demo_log_config"
  have "ql_run demo_db ?s ([] @ [(demo_event, length (ql_queue ?s) < CHANNEL_CAPACITY)]) (log_event demo_event ?s)"
    by (rule ql_run_step [OF ql_run_init ql_log])
  moreover have "length (ql_queue ?s) < CHANNEL_CAPACITY" by (simp add: spawn_def CHANNEL_CAPACITY_def)
  moreover have "ql_queue (log_event demo_event ?s) = [demo_event]"
    by (simp add: log_event_def spawn_def CHANNEL_CAPACITY_def)
  ultimately show ?thesis using query_log_conserves [of demo_db demo_log_config] by fastforce
qed

end
