(* ===== verification/Server.thy ===== *)
theory Server
  imports Forward Resolver TlsCert ZoneManager QueryLog
begin

text \<open>
  Start-up and shut-down of the server: the command line and configuration of
  \<open>src/main.rs\<close>, and \<open>src/net/mod.rs\<close>, which builds the cache, the catalog with the
  zones and the forwarder, and the listeners, and writes the cache back at the end.

  The libraries are the parameters of the components below; the ages of files and the
  outcomes of binding and registering sockets are functions. A cache that is \<open>None\<close> is
  one whose loading never returns.
\<close>

subsection \<open>Configuration\<close>

record args =
  arg_config :: "string option"
  arg_check_config :: bool
  arg_listen :: "string option"
  arg_api_listen :: "string option"
  arg_log_level :: "string option"

definition override_listen :: "args \<Rightarrow> config \<Rightarrow> config" where
  "override_listen a cfg =
     (case arg_listen a of None \<Rightarrow> cfg | Some l \<Rightarrow> cfg\<lparr>cfg_listen := [l]\<rparr>)"

definition override_api :: "args \<Rightarrow> config \<Rightarrow> config" where
  "override_api a cfg =
     (case arg_api_listen a of None \<Rightarrow> cfg | Some l \<Rightarrow> cfg\<lparr>cfg_api := (cfg_api cfg)\<lparr>api_listen := l\<rparr>\<rparr>)"

definition load_config ::
  "(string \<Rightarrow> (string, config) result) \<Rightarrow> file_system \<Rightarrow> args \<Rightarrow> (string, config) result"
where
  "load_config toml fs a =
     try_bind
       (case arg_config a of
          Some path \<Rightarrow> from_file toml fs path
        | None \<Rightarrow>
            if fs_exists fs ''/etc/heimdallr/config.toml'' then from_file toml fs ''/etc/heimdallr/config.toml''
            else Inr default_config)
       (\<lambda>cfg0. let cfg = override_api a (override_listen a cfg0)
               in try_bind (validate cfg) (\<lambda>_. Inr cfg))"

text \<open>
  The settings that \<open>main\<close> derives: the log level (before the environment variable of the
  tracing library), the query log, whose configured value only switches it on, and the
  name of the DNSSEC provider.
\<close>

definition effective_log_level :: "args \<Rightarrow> config \<Rightarrow> string" where
  "effective_log_level a cfg = unwrap_or (lg_level (cfg_log cfg)) (arg_log_level a)"

definition query_log_setup :: "config \<Rightarrow> query_log_config option" where
  "query_log_setup cfg =
     (case lg_query_log (cfg_log cfg) of
        None \<Rightarrow> None
      | Some _ \<Rightarrow> Some \<lparr>qc_postgres_url = Some default_url, qc_table = ''dns_logs'', qc_buffer_size = 64,
                     qc_flush_interval_ms = 100\<rparr>)"

definition provider_for :: "string \<Rightarrow> string" where
  "provider_for name = (if name = ''botan'' then ''botan'' else ''ring'')"

subsection \<open>The cache\<close>

definition runtime_cache_config :: "config \<Rightarrow> cache_config" where
  "runtime_cache_config cfg =
     \<lparr>cache_size = cs_size (cfg_cache cfg), serve_stale = from_secs 30,
      prefetch = ucast (cs_prefetch (cfg_cache cfg))\<rparr>"

text \<open>
  The maximal age in seconds is a product of 64-bit integers, which wraps as in a release
  build; \<open>file_age\<close> is the age of a file in nanoseconds, if the system tells it.
\<close>

definition max_age :: "config \<Rightarrow> nat" where
  "max_age cfg = from_secs (unat (cs_persistent_max_age_days (cfg_cache cfg) * 86400))"

definition load_persistent_cache ::
  "(string \<Rightarrow> (string, saved_record list) result) \<Rightarrow> (string \<Rightarrow> nat option) \<Rightarrow> nat \<Rightarrow> file_system \<Rightarrow> config
     \<Rightarrow> (io_error, cache option option) result"
where
  "load_persistent_cache from_json file_age now fs cfg =
     (case cs_persistent (cfg_cache cfg) of
        None \<Rightarrow> Inr None
      | Some path \<Rightarrow>
          if \<not> fs_exists fs path then Inr None
          else if (case file_age path of None \<Rightarrow> False | Some age \<Rightarrow> max_age cfg < age) then Inr None
          else try_bind (load_from_file from_json now fs path) (\<lambda>c. Inr (Some c)))"

definition save_persistent_cache ::
  "(saved_record list \<Rightarrow> (string, string) result) \<Rightarrow> config \<Rightarrow> saved_record list \<Rightarrow> file_system
     \<Rightarrow> (io_error, unit) result \<times> file_system"
where
  "save_persistent_cache to_json cfg snap fs =
     (case cs_persistent (cfg_cache cfg) of
        None \<Rightarrow> (Inr (), fs)
      | Some path \<Rightarrow>
          (case (case path_parent path of
                   None \<Rightarrow> Inr ()
                 | Some parent \<Rightarrow> if parent = [] then Inr () else create_dir_all fs parent) of
             Inl e \<Rightarrow> (Inl e, fs)
           | Inr _ \<Rightarrow> save_to_file to_json snap fs path))"

definition start_cache ::
  "(string \<Rightarrow> (string, saved_record list) result) \<Rightarrow> (string \<Rightarrow> nat option) \<Rightarrow> nat \<Rightarrow> file_system \<Rightarrow> config
     \<Rightarrow> cache option"
where
  "start_cache from_json file_age now fs cfg =
     (let fresh = cache_new (runtime_cache_config cfg)
      in case cs_persistent (cfg_cache cfg) of
           None \<Rightarrow> Some fresh
         | Some path \<Rightarrow>
             (case load_persistent_cache from_json file_age now fs cfg of
                Inr (Some loaded) \<Rightarrow> loaded
              | Inr None \<Rightarrow> Some fresh
              | Inl e \<Rightarrow> Some fresh))"

subsection \<open>Forwarder and catalog\<close>

text \<open>What the regular-expression and download libraries give the filter.\<close>

record 're filter_lib =
  regex_new :: "string \<Rightarrow> 're option"
  http_get :: "string \<Rightarrow> (string, (string, string) result) result"

definition configured_prefix :: "config \<Rightarrow> dns64_prefix option" where
  "configured_prefix cfg =
     (case (case d64_prefix (cfg_dns64 cfg) of Some p \<Rightarrow> Some p | None \<Rightarrow> rs_dns64_prefix (cfg_resolver cfg)) of
        None \<Rightarrow> None
      | Some s \<Rightarrow> dns64_parse s)"

definition build_cache_forwarder ::
  "'n hickory \<Rightarrow> 'n zone_ops \<Rightarrow> 'r resolver_lib \<Rightarrow> 're filter_lib \<Rightarrow> file_system \<Rightarrow> config
     \<Rightarrow> (string, ('n, 're) forward_authority \<times> 'r) result"
where
  "build_cache_forwarder h z rlib flib fs cfg =
     (let dnssec_enabled = ds_validation (cfg_dnssec cfg)
      in try_bind (from_config rlib fs (cfg_resolver cfg) dnssec_enabled) (\<lambda>wrap.
           Inr (fwd_with_dns64_always_synthesize (lower_name z (name_root h)) dnssec_enabled
                  (rs_qname_minimization (cfg_resolver cfg))
                  (filter_new (regex_new flib) (fetch_text (http_get flib) fs) (cfg_filter cfg))
                  (configured_prefix cfg) (d64_always_synthesize (cfg_dns64 cfg)) (rs_ecs (cfg_resolver cfg)),
                rw_inner wrap)))"

datatype start_error =
    ZonesFailed zone_error
  | ForwarderFailed string
  | BadListen string
  | BindFailedOn string
  | TlsFailed tls_error

type_synonym ('n, 're, 'cat) put_forwarder = "'n \<Rightarrow> ('n, 're) forward_authority \<Rightarrow> 'cat \<Rightarrow> 'cat"

definition build_catalog ::
  "'n hickory \<Rightarrow> 'n zone_ops \<Rightarrow> ('n, 'key, 'signer) crypto \<Rightarrow> ('n, 'cat) catalog_ops
     \<Rightarrow> (string \<Rightarrow> bytes option) \<Rightarrow> ('n, 're, 'cat) put_forwarder \<Rightarrow> 'r resolver_lib \<Rightarrow> 're filter_lib
     \<Rightarrow> config \<Rightarrow> file_system
     \<Rightarrow> (start_error, 'cat \<times> secondary_zone_info list \<times> ('n, 're) forward_authority \<times> 'r) result
        \<times> 'cat zone_manager"
where
  "build_catalog h z c cat hex put rlib flib cfg fs =
     (case load_all h z c cat hex cfg (zone_manager_new cat fs) of
        (Inl e, m) \<Rightarrow> (Inl (ZonesFailed e), m)
      | (Inr (catalog, secondaries), m) \<Rightarrow>
          (case build_cache_forwarder h z rlib flib (zm_fs m) cfg of
             Inl e \<Rightarrow> (Inl (ForwarderFailed e), m)
           | Inr (fwd, resolver) \<Rightarrow>
               (Inr (put (lower_name z (name_root h)) fwd catalog, secondaries, fwd, resolver), m)))"

subsection \<open>Listeners\<close>

datatype listener =
    UdpOn socket_addr
  | TcpOn socket_addr nat nat
  | ProxyTcpOn socket_addr "string list"
  | TlsOn socket_addr nat
  | HttpsOn socket_addr nat string string
  | QuicOn socket_addr nat

text \<open>
  A listener with its settings: time-outs in seconds, the response buffer of TCP, the
  allowed proxies, the host name and path of DNS over HTTPS. Binding and registering
  one depends on those that exist already.
\<close>

type_synonym bind_fn = "listener list \<Rightarrow> listener \<Rightarrow> (string, unit) result"

fun register_all ::
  "bind_fn \<Rightarrow> (socket_addr \<Rightarrow> listener) \<Rightarrow> string list \<Rightarrow> listener list \<Rightarrow> (start_error, listener list) result"
where
  "register_all bnd mk [] ls = Inr ls"
| "register_all bnd mk (a # as) ls =
     try_bind (ok_or (BadListen a) (parse_socket_addr a)) (\<lambda>addr.
     try_bind (map_err BindFailedOn (bnd ls (mk addr))) (\<lambda>_. register_all bnd mk as (ls @ [mk addr])))"

definition tls_paths ::
  "('cert, 'key, 'ck) tls_lib \<Rightarrow> config \<Rightarrow> file_system \<Rightarrow> (tls_error, string \<times> string) result \<times> file_system"
where
  "tls_paths tlib cfg fs =
     (case resolve_cert_paths fs (tls_cert (cfg_tls cfg)) (tls_key (cfg_tls cfg)) (cfg_host cfg)
             (tls_letsencrypt_dir (cfg_tls cfg)) of
        Inr paths \<Rightarrow> (Inr paths, fs)
      | Inl e \<Rightarrow>
          if tls_self_signed (cfg_tls cfg)
          then generate_self_signed tlib (cfg_host cfg) (dk_keys_dir (cfg_dnssec_keys cfg)) fs
          else (Inl e, fs))"

definition has_tls_listeners :: "config \<Rightarrow> bool" where
  "has_tls_listeners cfg =
     (cfg_listen_tls cfg \<noteq> [] \<or> cfg_listen_https cfg \<noteq> [] \<or> cfg_listen_quic cfg \<noteq> [])"

definition load_cert ::
  "('cert, 'key, 'ck) tls_lib \<Rightarrow> config \<Rightarrow> file_system \<Rightarrow> (tls_error, 'ck option) result \<times> file_system"
where
  "load_cert tlib cfg fs =
     (if has_tls_listeners cfg then
        (case tls_paths tlib cfg fs of
           (Inl e, fs') \<Rightarrow> (Inl e, fs')
         | (Inr (cert_path, key_path), fs') \<Rightarrow>
             (try_bind (load_tls_cert tlib fs' cert_path key_path) (\<lambda>ck. Inr (Some ck)), fs'))
      else (Inr None, fs))"

definition plain_listeners :: "bind_fn \<Rightarrow> config \<Rightarrow> (start_error, listener list) result" where
  "plain_listeners bnd cfg =
     try_bind (register_all bnd UdpOn (cfg_listen cfg) []) (\<lambda>ls.
       register_all bnd
         (if px_enable (cfg_proxy cfg) then (\<lambda>a. ProxyTcpOn a (px_allow (cfg_proxy cfg))) else (\<lambda>a. TcpOn a 5 4096))
         (cfg_listen cfg) ls)"

definition tls_listeners :: "bind_fn \<Rightarrow> config \<Rightarrow> 'ck option \<Rightarrow> listener list \<Rightarrow> (start_error, listener list) result" where
  "tls_listeners bnd cfg ck ls =
     (case ck of
        None \<Rightarrow> Inr ls
      | Some _ \<Rightarrow>
          try_bind (register_all bnd (\<lambda>a. TlsOn a 30) (cfg_listen_tls cfg) ls) (\<lambda>ls1.
          try_bind (register_all bnd (\<lambda>a. HttpsOn a 30 (cfg_host cfg) ''/dns-query'') (cfg_listen_https cfg) ls1)
            (\<lambda>ls2. register_all bnd (\<lambda>a. QuicOn a 30) (cfg_listen_quic cfg) ls2)))"

definition register_listeners ::
  "('cert, 'key, 'ck) tls_lib \<Rightarrow> bind_fn \<Rightarrow> config \<Rightarrow> file_system \<Rightarrow> (start_error, listener list) result \<times> file_system"
where
  "register_listeners tlib bnd cfg fs =
     (case plain_listeners bnd cfg of
        Inl e \<Rightarrow> (Inl e, fs)
      | Inr ls \<Rightarrow>
          (case load_cert tlib cfg fs of
             (Inl e, fs') \<Rightarrow> (Inl (TlsFailed e), fs')
           | (Inr ck, fs') \<Rightarrow> (tls_listeners bnd cfg ck ls, fs')))"

subsection \<open>Starting the server\<close>

record ('n, 're, 'r, 'cat) server =
  sv_cache :: cache
  sv_handler :: "'cat handler"
  sv_forwarder :: "('n, 're) forward_authority"
  sv_resolver :: 'r
  sv_listeners :: "listener list"

text \<open>
  The part of \<open>Net::run\<close> before it waits, with the files it leaves: \<open>None\<close> when it never
  gets there because the cache never finishes loading.
\<close>

definition net_start ::
  "'n hickory \<Rightarrow> 'n zone_ops \<Rightarrow> ('n, 'key, 'signer) crypto \<Rightarrow> ('n, 'cat) catalog_ops
     \<Rightarrow> (string \<Rightarrow> bytes option) \<Rightarrow> ('n, 're, 'cat) put_forwarder \<Rightarrow> 'r resolver_lib \<Rightarrow> 're filter_lib
     \<Rightarrow> ('cert, 'tkey, 'ck) tls_lib \<Rightarrow> bind_fn \<Rightarrow> (string \<Rightarrow> (string, saved_record list) result)
     \<Rightarrow> (string \<Rightarrow> nat option) \<Rightarrow> nat \<Rightarrow> config \<Rightarrow> file_system
     \<Rightarrow> ((start_error, ('n, 're, 'r, 'cat) server) result \<times> file_system) option"
where
  "net_start h z c cat hex put rlib flib tlib bnd from_json file_age now cfg fs =
     (case start_cache from_json file_age now fs cfg of
        None \<Rightarrow> None
      | Some cache \<Rightarrow>
          (case build_catalog h z c cat hex put rlib flib cfg fs of
             (Inl e, m) \<Rightarrow> Some (Inl e, zm_fs m)
           | (Inr (catalog, secondaries, fwd, resolver), m) \<Rightarrow>
               (case register_listeners tlib bnd cfg (zm_fs m) of
                  (Inl e, fs') \<Rightarrow> Some (Inl e, fs')
                | (Inr ls, fs') \<Rightarrow>
                    Some (Inr \<lparr>sv_cache = cache,
                      sv_handler = \<lparr>hd_catalog = catalog, hd_secondaries = secondaries\<rparr>,
                      sv_forwarder = fwd, sv_resolver = resolver, sv_listeners = ls\<rparr>, fs'))))"

subsection \<open>Lemmas\<close>

lemma load_config_ok:
  "load_config toml fs a = Inr cfg \<Longrightarrow> config_ok cfg"
  by (auto simp: load_config_def try_bind_Inr_iff validate_iff Let_def)

lemma load_entries_returns:
  "cache_inv c \<Longrightarrow> 0 < cache_size (cache_cfg c) \<Longrightarrow> \<exists>c'. load_entries now snap c = Some c'"
proof (induction now snap c rule: load_entries.induct)
  case (2 now key bs ttl hc snap c)
  have wf: "cache_wf c" using 2(2) by (simp add: cache_inv_def)
  obtain d where d: "cache_insert c key bs (from_secs ttl) now = Some d"
    using cache_insert_None_iff [OF wf, of key bs "from_secs ttl" now] 2(3) by auto
  have "cache_inv d" "cache_cfg d = cache_cfg c" using cache_insert_inv [OF wf d] by simp_all
  then have "cache_inv (d\<lparr>entries := update_entry key (\<lambda>e. e\<lparr>hit_count := hc\<rparr>) (entries d)\<rparr>)"
    by (simp add: cache_inv_def cache_wf_def)
  with 2 d \<open>cache_cfg d = cache_cfg c\<close> show ?case by simp
qed simp

lemma load_snapshot_returns: "\<exists>c. load_snapshot now snap = Some c"
  unfolding load_snapshot_def
  by (rule load_entries_returns) (simp_all add: cache_inv_def cache_wf_new, simp_all add: cache_new_def)

text \<open>Whatever the saved file holds, the server starts with a cache that can be filled.\<close>

lemma start_cache_usable:
  assumes "0 < cs_size (cfg_cache cfg)"
  shows "\<exists>c. start_cache from_json file_age now fs cfg = Some c
    \<and> cache_reachable (cache_cfg c) c \<and> 0 < cache_size (cache_cfg c)"
proof -
  have fresh: "cache_reachable (cache_cfg (cache_new cfg')) (cache_new cfg')" for cfg'
    using reach_new [of cfg'] by (simp add: cache_new_def)
  have size: "0 < cache_size (cache_cfg (cache_new (runtime_cache_config cfg)))"
    using assms by (simp add: cache_new_def runtime_cache_config_def)
  have loaded: "\<exists>c. load_snapshot now snap = Some c \<and> cache_reachable (cache_cfg c) c \<and> 0 < cache_size (cache_cfg c)"
    for snap
  proof -
    obtain c where c: "load_snapshot now snap = Some c" using load_snapshot_returns by blast
    then show ?thesis using load_snapshot_inv [OF c] reach_load [OF c refl] by auto
  qed
  show ?thesis
    using fresh [of "runtime_cache_config cfg"] size loaded
    by (auto simp: start_cache_def load_persistent_cache_def load_from_file_def try_bind_def Let_def
        split: option.split sum.split)
qed

lemma register_all_Inr:
  "register_all bnd mk as ls = Inr ls' \<Longrightarrow>
     \<exists>addrs. map parse_socket_addr as = map Some addrs \<and> ls' = ls @ map mk addrs"
proof (induction bnd mk as ls rule: register_all.induct)
  case (2 bnd mk a as ls)
  then obtain addr addrs where "parse_socket_addr a = Some addr"
    "map parse_socket_addr as = map Some addrs" "ls' = (ls @ [mk addr]) @ map mk addrs"
    by (fastforce simp: try_bind_Inr_iff ok_or_def split: option.splits)
  then show ?case by (intro exI [of _ "addr # addrs"]) simp
qed simp

fun addrs_of :: "string list \<Rightarrow> socket_addr list" where
  "addrs_of [] = []"
| "addrs_of (a # as) = (case parse_socket_addr a of None \<Rightarrow> [] | Some x \<Rightarrow> [x]) @ addrs_of as"

lemma addrs_of_map: "map parse_socket_addr as = map Some addrs \<Longrightarrow> addrs_of as = addrs"
  by (induction as arbitrary: addrs) auto

lemma register_all_addrs: "register_all bnd mk as ls = Inr ls' \<Longrightarrow> ls' = ls @ map mk (addrs_of as)"
  using register_all_Inr addrs_of_map by blast

text \<open>The listeners that a configuration asks for, in the order they are started.\<close>

definition configured_listeners :: "config \<Rightarrow> listener list" where
  "configured_listeners cfg =
     map UdpOn (addrs_of (cfg_listen cfg))
     @ map (if px_enable (cfg_proxy cfg) then (\<lambda>a. ProxyTcpOn a (px_allow (cfg_proxy cfg))) else (\<lambda>a. TcpOn a 5 4096))
         (addrs_of (cfg_listen cfg))
     @ map (\<lambda>a. TlsOn a 30) (addrs_of (cfg_listen_tls cfg))
     @ map (\<lambda>a. HttpsOn a 30 (cfg_host cfg) ''/dns-query'') (addrs_of (cfg_listen_https cfg))
     @ map (\<lambda>a. QuicOn a 30) (addrs_of (cfg_listen_quic cfg))"

lemma load_cert_None:
  "load_cert tlib cfg fs = (Inr None, fs') \<Longrightarrow> \<not> has_tls_listeners cfg"
  by (auto simp: load_cert_def try_bind_Inr_iff split: if_splits prod.splits sum.splits)

lemma register_listeners_exact:
  assumes "register_listeners tlib bnd cfg fs = (Inr ls, fs')"
  shows "ls = configured_listeners cfg"
proof -
  obtain ls0 ck where p: "plain_listeners bnd cfg = Inr ls0" and c: "load_cert tlib cfg fs = (Inr ck, fs')"
    and t: "tls_listeners bnd cfg ck ls0 = Inr ls"
    using assms by (auto simp: register_listeners_def split: sum.splits prod.splits)
  from p have ls0: "ls0 = map UdpOn (addrs_of (cfg_listen cfg))
     @ map (if px_enable (cfg_proxy cfg) then (\<lambda>a. ProxyTcpOn a (px_allow (cfg_proxy cfg))) else (\<lambda>a. TcpOn a 5 4096))
         (addrs_of (cfg_listen cfg))"
    by (auto simp: plain_listeners_def try_bind_Inr_iff dest!: register_all_addrs split del: if_split)
  show ?thesis
  proof (cases ck)
    case None
    then have "\<not> has_tls_listeners cfg" using c load_cert_None by blast
    with t None ls0 show ?thesis
      by (simp add: tls_listeners_def has_tls_listeners_def configured_listeners_def)
  next
    case (Some x)
    with t ls0 show ?thesis
      by (auto simp: tls_listeners_def configured_listeners_def try_bind_Inr_iff dest!: register_all_addrs
          split del: if_split)
  qed
qed


lemma save_persistent_cache_write:
  assumes "save_persistent_cache to_json cfg snap fs = (Inr (), fs')" "cs_persistent (cfg_cache cfg) = Some path"
  shows "save_to_file to_json snap fs path = (Inr (), fs')"
  using assms by (auto simp: save_persistent_cache_def split: option.splits sum.splits if_splits)

lemma save_to_file_exists:
  "save_to_file to_json snap fs path = (Inr (), fs') \<Longrightarrow> fs_exists fs' path"
  by (auto simp: save_to_file_def fs_write_Inr fs_exists_def split: sum.splits)

lemma net_start_returns:
  assumes "start_cache from_json file_age now fs cfg = Some ca"
  shows "\<exists>r fs'. net_start h z c cat hex put rlib flib tlib bnd from_json file_age now cfg fs = Some (r, fs')
    \<and> (\<forall>sv. r = Inr sv \<longrightarrow> sv_cache sv = ca)"
  using assms by (simp add: net_start_def split: prod.split sum.split)

subsection \<open>Properties\<close>


definition demo_persistent :: config where
  "demo_persistent = default_config\<lparr>cfg_cache := default_cache_section\<lparr>cs_persistent := Some ''cache.json''\<rparr>\<rparr>"


text \<open>
  C40. The listeners of a running server. When a validated configuration's listeners come
  up, they are exactly the configured ones, in this order: UDP on every listen address,
  TCP on every listen address (the PROXY-aware listener for all of them when PROXY is
  enabled, hickory's own otherwise), then TLS, HTTPS and QUIC on their addresses; no
  configured address is skipped.
\<close>

theorem listeners_as_configured:
  assumes "validate cfg = Inr ()" "register_listeners tlib bnd cfg fs = (Inr ls, fs')"
  shows "ls = configured_listeners cfg
    \<and> length ls = 2 * length (cfg_listen cfg) + length (cfg_listen_tls cfg) + length (cfg_listen_https cfg)
        + length (cfg_listen_quic cfg)"
proof -
  have "length (addrs_of as) = length as" if "\<forall>a \<in> set as. parse_socket_addr a \<noteq> None" for as
    using that by (induction as) auto
  with assms(1) show ?thesis
    using register_listeners_exact [OF assms(2)]
    by (simp add: configured_listeners_def validate_iff config_ok_def)
qed

definition no_tls :: "(unit, unit, unit) tls_lib" where
  "no_tls = \<lparr>pem_certs = (\<lambda>s. Inl ''none''), pem_key = (\<lambda>s. Inl ''none''),
     certified_key = (\<lambda>c k. Inl ''none''), self_signed_pems = (\<lambda>s. Inl ''none'')\<rparr>"

theorem listeners_as_configured_witness:
  "\<exists>ls fs'. register_listeners no_tls (\<lambda>ls l. Inr ()) default_config \<lparr>fs_files = Map.empty, io_fault = (\<lambda>_. None)\<rparr>
     = (Inr ls, fs') \<and> ls = configured_listeners default_config \<and> length ls = 4"
proof -
  let ?fs = "\<lparr>fs_files = Map.empty, io_fault = (\<lambda>_. None)\<rparr>"
  have v: "validate default_config = Inr ()" by code_simp
  have l: "cfg_listen default_config = [''0.0.0.0:53'', ''[::]:53'']" by (simp add: default_config_def)
  have "parse_socket_addr ''0.0.0.0:53'' \<noteq> None" "parse_socket_addr ''[::]:53'' \<noteq> None" by code_simp+
  then obtain x y where xy: "parse_socket_addr ''0.0.0.0:53'' = Some x" "parse_socket_addr ''[::]:53'' = Some y"
    by auto
  have "plain_listeners (\<lambda>ls l. Inr ()) default_config = Inr [UdpOn x, UdpOn y, TcpOn x 5 4096, TcpOn y 5 4096]"
    by (simp add: plain_listeners_def l xy) (simp add: default_config_def default_proxy_def xy)
  moreover have "load_cert no_tls default_config ?fs = (Inr None, ?fs)"
    by (simp add: load_cert_def has_tls_listeners_def default_config_def)
  ultimately have r: "register_listeners no_tls (\<lambda>ls l. Inr ()) default_config ?fs
      = (Inr [UdpOn x, UdpOn y, TcpOn x 5 4096, TcpOn y 5 4096], ?fs)"
    by (simp add: register_listeners_def tls_listeners_def)
  have "length [UdpOn x, UdpOn y, TcpOn x 5 4096, TcpOn y 5 4096] = 4"
    by simp
  with r conjunct1 [OF listeners_as_configured [OF v r]] show ?thesis by blast
qed

end
