(* ===== verification/ZoneRecord.thy ===== *)
theory ZoneRecord
  imports ZoneFile
begin

text \<open>
  Record management of primary zones, \<open>src/core/zone/record.rs\<close>: listing, inserting and
  deleting records and writing the zone file back. Every operation loads the zone from
  its file first; hexadecimal decoding is a parameter.
\<close>

record record_summary =
  sm_name :: string
  sm_type :: string
  sm_ttl :: u32
  sm_data :: string

record record_create =
  rc_name :: string
  rc_type :: string
  rc_ttl :: "u32 option"
  rc_data :: string

record record_delete =
  rd_name :: string
  rd_type :: string

subsection \<open>Parsing\<close>

text \<open>
  \<open>str::to_uppercase\<close> is Unicode. Of the letters outside ASCII the long s, the dotless i
  and the sharp s have upper-case forms made of ASCII letters that can complete a type
  name; other letters outside ASCII never lead to a known type and are kept.
\<close>

fun to_uppercase :: "string \<Rightarrow> string" where
  "to_uppercase [] = []"
| "to_uppercase [c] = [upper_char c]"
| "to_uppercase (c # d # s) =
     (if code c = 197 \<and> code d = 191 then CHR ''S'' # to_uppercase s
      else if code c = 196 \<and> code d = 177 then CHR ''I'' # to_uppercase s
      else if code c = 195 \<and> code d = 159 then ''SS'' @ to_uppercase s
      else upper_char c # to_uppercase (d # s))"

definition type_table :: "(string \<times> record_type) list" where
  "type_table =
     [(''A'', T_A), (''AAAA'', T_AAAA), (''CNAME'', T_CNAME), (''MX'', T_MX), (''NS'', T_NS), (''SOA'', T_SOA),
      (''TXT'', T_TXT), (''SRV'', T_SRV), (''PTR'', T_PTR), (''TLSA'', T_TLSA), (''SSHFP'', T_SSHFP),
      (''HTTPS'', T_HTTPS), (''SVCB'', T_SVCB), (''CAA'', T_CAA), (''DNSKEY'', T_DNSKEY), (''DS'', T_DS),
      (''RRSIG'', T_RRSIG), (''NSEC'', T_NSEC), (''NSEC3'', T_NSEC3), (''NSEC3PARAM'', T_NSEC3PARAM),
      (''DNAME'', T_ANAME), (''ANAME'', T_CNAME), (''ANY'', T_ANY)]"

definition parse_record_type :: "'n hickory \<Rightarrow> string \<Rightarrow> (zone_error, record_type) result" where
  "parse_record_type h s =
     (let u = to_uppercase s
      in case map_of type_table u of
           Some t \<Rightarrow> Inr t
         | None \<Rightarrow>
             (case parse_u16 u of
                Some num \<Rightarrow> Inr (type_from_code h num)
              | None \<Rightarrow> Inl (UnknownRecordType u)))"

text \<open>
  The certificate usage, selector and matching type of a TLSA record are kept by their
  numbers; matching type 1 is SHA-256 and 2 is SHA-512.
\<close>

definition parse_tlsa_data :: "(string \<Rightarrow> bytes option) \<Rightarrow> string \<Rightarrow> (zone_error, tlsa_data) result" where
  "parse_tlsa_data hex d =
     (case split_whitespace d of
        [p0, p1, p2, p3] \<Rightarrow>
          try_bind (ok_or (InvalidNumber p0) (parse_u8 p0)) (\<lambda>usage.
          try_bind (ok_or (InvalidNumber p1) (parse_u8 p1)) (\<lambda>selector.
          try_bind (ok_or (InvalidNumber p2) (parse_u8 p2)) (\<lambda>matching.
          try_bind (ok_or (InvalidHex p3) (hex (trim p3))) (\<lambda>cert_data.
            if matching = 1 \<and> length cert_data \<noteq> 32 then Inl (HashLength 32 (length cert_data))
            else if matching = 2 \<and> length cert_data \<noteq> 64 then Inl (HashLength 64 (length cert_data))
            else Inr \<lparr>tlsa_usage = usage, tlsa_selector = selector, tlsa_matching = matching,
                      tlsa_cert = cert_data\<rparr>))))
      | _ \<Rightarrow> Inl (FieldCount T_TLSA d))"

definition parse_name :: "'n hickory \<Rightarrow> string \<Rightarrow> (zone_error, 'n) result" where
  "parse_name h s = map_err (InvalidName s) (name_from_ascii h s)"

definition parse_mx :: "'n hickory \<Rightarrow> string \<Rightarrow> (zone_error, 'n rdata) result" where
  "parse_mx h d =
     (case split_whitespace d of
        [p0, p1] \<Rightarrow>
          try_bind (ok_or (InvalidNumber p0) (parse_u16 p0)) (\<lambda>preference.
          try_bind (parse_name h p1) (\<lambda>exchange. Inr (RD_MX preference exchange)))
      | _ \<Rightarrow> Inl (FieldCount T_MX d))"

definition parse_srv :: "'n hickory \<Rightarrow> string \<Rightarrow> (zone_error, 'n rdata) result" where
  "parse_srv h d =
     (case split_whitespace d of
        [p0, p1, p2, p3] \<Rightarrow>
          try_bind (ok_or (InvalidNumber p0) (parse_u16 p0)) (\<lambda>priority.
          try_bind (ok_or (InvalidNumber p1) (parse_u16 p1)) (\<lambda>weight.
          try_bind (ok_or (InvalidNumber p2) (parse_u16 p2)) (\<lambda>port.
          try_bind (parse_name h p3) (\<lambda>target. Inr (RD_SRV priority weight port target)))))
      | _ \<Rightarrow> Inl (FieldCount T_SRV d))"

definition parse_soa :: "'n hickory \<Rightarrow> string \<Rightarrow> (zone_error, 'n rdata) result" where
  "parse_soa h d =
     (case split_whitespace d of
        [p0, p1, p2, p3, p4, p5, p6] \<Rightarrow>
          try_bind (parse_name h p0) (\<lambda>mname.
          try_bind (parse_name h p1) (\<lambda>rname.
          try_bind (ok_or (InvalidNumber p2) (parse_u32 p2)) (\<lambda>serial.
          try_bind (ok_or (InvalidNumber p3) (parse_i32 p3)) (\<lambda>refresh.
          try_bind (ok_or (InvalidNumber p4) (parse_i32 p4)) (\<lambda>retry.
          try_bind (ok_or (InvalidNumber p5) (parse_i32 p5)) (\<lambda>expire.
          try_bind (ok_or (InvalidNumber p6) (parse_u32 p6)) (\<lambda>minimum.
            Inr (RD_SOA \<lparr>soa_mname = mname, soa_rname_field = rname, soa_serial = serial,
              soa_refresh = refresh, soa_retry = retry, soa_expire = expire, soa_minimum = minimum\<rparr>))))))))
      | _ \<Rightarrow> Inl (FieldCount T_SOA d))"

definition parse_rdata ::
  "'n hickory \<Rightarrow> 'n zone_ops \<Rightarrow> (string \<Rightarrow> bytes option) \<Rightarrow> record_type \<Rightarrow> string \<Rightarrow> (zone_error, 'n rdata) result"
where
  "parse_rdata h z hex rtype d =
     (case rtype of
        T_A \<Rightarrow> try_bind (ok_or (InvalidAddress T_A d) (parse_ipv4 d)) (\<lambda>ip. Inr (RD_A ip))
      | T_AAAA \<Rightarrow> try_bind (ok_or (InvalidAddress T_AAAA d) (parse_ipv6 d)) (\<lambda>ip. Inr (RD_AAAA ip))
      | T_CNAME \<Rightarrow> try_bind (parse_name h d) (\<lambda>n. Inr (RD_CNAME n))
      | T_NS \<Rightarrow> try_bind (parse_name h d) (\<lambda>n. Inr (RD_NS n))
      | T_MX \<Rightarrow> parse_mx h d
      | T_TXT \<Rightarrow> Inr (RD_TXT [trim_matches (CHR 0x27) (trim_matches (CHR 0x22) d)])
      | T_SRV \<Rightarrow> parse_srv h d
      | T_PTR \<Rightarrow> try_bind (parse_name h d) (\<lambda>n. Inr (RD_PTR n))
      | T_TLSA \<Rightarrow> try_bind (parse_tlsa_data hex d) (\<lambda>t. Inr (RD_TLSA t))
      | T_SSHFP \<Rightarrow> parse_sshfp_data z d
      | T_SVCB \<Rightarrow> parse_svcb_data z d
      | T_HTTPS \<Rightarrow> parse_https_data z d
      | T_ANAME \<Rightarrow> try_bind (parse_name h d) (\<lambda>n. Inr (RD_ANAME n))
      | T_CAA \<Rightarrow> Inl (UnsupportedType T_CAA)
      | T_SOA \<Rightarrow> parse_soa h d
      | other \<Rightarrow> Inl (UnsupportedType other))"

subsection \<open>Loading and writing a zone\<close>

definition load_handler ::
  "'n hickory \<Rightarrow> 'n zone_ops \<Rightarrow> (string \<Rightarrow> bytes option) \<Rightarrow> file_system \<Rightarrow> zone_config \<Rightarrow> string
     \<Rightarrow> (zone_error, 'n zone_handler) result"
where
  "load_handler h z hex fs zc zones_dir =
     try_bind (ok_or (NoFileConfigured (zc_name zc)) (zc_file zc))
       (\<lambda>file_path. load_zone_file_with_proof h z fs file_path (zc_name zc) zones_dir ZT_Primary
          (Some (soa_rname default_config)) (nx_proof_kind hex zc))"

definition record_zone_path :: "string \<Rightarrow> string \<Rightarrow> string" where
  "record_zone_path file_path zones_dir =
     (if is_absolute file_path then file_path else path_join zones_dir file_path)"

definition generated_type :: "record_type \<Rightarrow> bool" where
  "generated_type t = (t \<in> {T_RRSIG, T_NSEC, T_NSEC3, T_NSEC3PARAM, T_DNSKEY})"

definition short_name :: "string \<Rightarrow> string \<Rightarrow> string" where
  "short_name base name =
     (if name = base then ''@'' else unwrap_or name (strip_suffix (''.'' @ base) name))"

definition record_line :: "'n hickory \<Rightarrow> 'n zone_ops \<Rightarrow> 'n \<Rightarrow> 'n rr \<Rightarrow> string" where
  "record_line h z origin r =
     short_name (name_utf8 h origin) (name_utf8 h (rr_name r)) @ '' '' @ show_nat (unat (rr_ttl r))
       @ '' IN '' @ show_type z (rr_type r) @ '' '' @ show_rdata z (rr_data r)"

definition zone_records :: "'n zone_handler \<Rightarrow> 'n rr list" where
  "zone_records a = concat (map (\<lambda>(k, rset). rs_records rset) (zh_records a))"

definition zone_lines :: "'n hickory \<Rightarrow> 'n zone_ops \<Rightarrow> 'n zone_handler \<Rightarrow> 'n \<Rightarrow> string list" where
  "zone_lines h z a origin =
     [''$ORIGIN '' @ name_utf8 h origin, ''$TTL 3600'', '''']
       @ map (record_line h z origin) (filter (\<lambda>r. \<not> generated_type (rr_type r)) (zone_records a)) @ ['''']"

definition persist_zone ::
  "'n hickory \<Rightarrow> 'n zone_ops \<Rightarrow> 'n zone_handler \<Rightarrow> string \<Rightarrow> 'n \<Rightarrow> file_system
     \<Rightarrow> (zone_error, unit) result \<times> file_system"
where
  "persist_zone h z a zone_path origin fs =
     (let content = join [newline] (zone_lines h z a origin);
          made = (case path_parent zone_path of
                    None \<Rightarrow> Inr ()
                  | Some parent \<Rightarrow> map_err (CreateDir parent) (create_dir_all fs parent))
      in case made of
           Inl e \<Rightarrow> (Inl e, fs)
         | Inr _ \<Rightarrow> (let (r, fs') = fs_write fs zone_path content
                     in (map_err (WriteFile zone_path) r, fs')))"

subsection \<open>Operations\<close>

definition summary :: "'n hickory \<Rightarrow> 'n zone_ops \<Rightarrow> 'n rr \<Rightarrow> record_summary" where
  "summary h z r =
     \<lparr>sm_name = name_utf8 h (rr_name r), sm_type = show_type z (rr_type r), sm_ttl = rr_ttl r,
      sm_data = show_rdata z (rr_data r)\<rparr>"

definition list_records ::
  "'n hickory \<Rightarrow> 'n zone_ops \<Rightarrow> (string \<Rightarrow> bytes option) \<Rightarrow> file_system \<Rightarrow> zone_config \<Rightarrow> string
     \<Rightarrow> (zone_error, record_summary list) result"
where
  "list_records h z hex fs zc zones_dir =
     try_bind (load_handler h z hex fs zc zones_dir) (\<lambda>a. Inr (map (summary h z) (zone_records a)))"

definition get_records ::
  "'n hickory \<Rightarrow> 'n zone_ops \<Rightarrow> (string \<Rightarrow> bytes option) \<Rightarrow> file_system \<Rightarrow> zone_config \<Rightarrow> string
     \<Rightarrow> string \<Rightarrow> string \<Rightarrow> (zone_error, record_summary list) result"
where
  "get_records h z hex fs zc zones_dir name record_type =
     try_bind (load_handler h z hex fs zc zones_dir) (\<lambda>a.
     try_bind (parse_record_type h record_type) (\<lambda>rtype.
     try_bind (parse_name h name) (\<lambda>n.
       Inr (concat (map (\<lambda>(key, rset).
              if fst key = lower_name z n \<and> snd key = rtype then map (summary h z) (rs_records rset) else [])
            (zh_records a))))))"

definition inserted_zone ::
  "'n hickory \<Rightarrow> 'n zone_ops \<Rightarrow> (string \<Rightarrow> bytes option) \<Rightarrow> file_system \<Rightarrow> zone_config \<Rightarrow> string
     \<Rightarrow> record_create \<Rightarrow> (zone_error, 'n zone_handler \<times> 'n) result"
where
  "inserted_zone h z hex fs zc zones_dir create =
     try_bind (load_handler h z hex fs zc zones_dir) (\<lambda>a.
     try_bind (parse_record_type h (rc_type create)) (\<lambda>rtype.
     try_bind (parse_name h (zc_name zc)) (\<lambda>origin.
     try_bind (if rc_name create = ''@'' \<or> rc_name create = zc_name zc \<or> rc_name create = [] then Inr origin
               else parse_name h (rc_name create)) (\<lambda>name.
     try_bind (parse_rdata h z hex rtype (rc_data create)) (\<lambda>rdata.
       Inr (upsert_mut z (from_rdata name (unwrap_or 3600 (rc_ttl create)) rdata) 0 a, origin))))))"

definition insert_record ::
  "'n hickory \<Rightarrow> 'n zone_ops \<Rightarrow> (string \<Rightarrow> bytes option) \<Rightarrow> zone_config \<Rightarrow> string \<Rightarrow> record_create
     \<Rightarrow> file_system \<Rightarrow> (zone_error, unit) result \<times> file_system"
where
  "insert_record h z hex zc zones_dir create fs =
     (case inserted_zone h z hex fs zc zones_dir create of
        Inl e \<Rightarrow> (Inl e, fs)
      | Inr (a, origin) \<Rightarrow>
          persist_zone h z a (record_zone_path (unwrap_or [] (zc_file zc)) zones_dir) origin fs)"

definition delete_key ::
  "'n hickory \<Rightarrow> 'n zone_ops \<Rightarrow> (string \<Rightarrow> bytes option) \<Rightarrow> file_system \<Rightarrow> zone_config \<Rightarrow> string
     \<Rightarrow> record_delete \<Rightarrow> (zone_error, 'n zone_handler \<times> 'n \<times> 'n rr_key) result"
where
  "delete_key h z hex fs zc zones_dir del =
     try_bind (load_handler h z hex fs zc zones_dir) (\<lambda>a.
     try_bind (parse_record_type h (rd_type del)) (\<lambda>rtype.
     try_bind (parse_name h (zc_name zc)) (\<lambda>origin.
     try_bind (if rd_name del = ''@'' \<or> rd_name del = zc_name zc then Inr origin
               else parse_name h (rd_name del)) (\<lambda>name.
       Inr (a, origin, (lower_name z name, rtype))))))"

definition delete_records ::
  "'n hickory \<Rightarrow> 'n zone_ops \<Rightarrow> (string \<Rightarrow> bytes option) \<Rightarrow> zone_config \<Rightarrow> string \<Rightarrow> record_delete
     \<Rightarrow> file_system \<Rightarrow> (zone_error, nat) result \<times> file_system"
where
  "delete_records h z hex zc zones_dir del fs =
     (case delete_key h z hex fs zc zones_dir del of
        Inl e \<Rightarrow> (Inl e, fs)
      | Inr (a, origin, key) \<Rightarrow>
          (let removed = unwrap_or 0 (map_option (\<lambda>rset. length (rs_records rset)) (map_of (zh_records a) key));
               a' = a\<lparr>zh_records := AList.delete key (zh_records a)\<rparr>
           in if 0 < removed
              then (let (r, fs') = persist_zone h z a'
                          (record_zone_path (unwrap_or [] (zc_file zc)) zones_dir) origin fs
                    in (try_bind r (\<lambda>_. Inr removed), fs'))
              else (Inr removed, fs)))"

subsection \<open>Lemmas\<close>

lemma parse_tlsa_data_Inr:
  "parse_tlsa_data hex d = Inr t \<longleftrightarrow>
     (\<exists>p0 p1 p2 p3. split_whitespace d = [p0, p1, p2, p3]
        \<and> parse_u8 p0 = Some (tlsa_usage t) \<and> parse_u8 p1 = Some (tlsa_selector t)
        \<and> parse_u8 p2 = Some (tlsa_matching t) \<and> hex (trim p3) = Some (tlsa_cert t)
        \<and> (tlsa_matching t = 1 \<longrightarrow> length (tlsa_cert t) = 32)
        \<and> (tlsa_matching t = 2 \<longrightarrow> length (tlsa_cert t) = 64))"
  by (cases t)
    (auto simp: parse_tlsa_data_def try_bind_Inr_iff ok_or_def split: list.split option.split if_splits)

lemma field_parsers_type:
  "parse_mx h d = Inr r \<Longrightarrow> rdata_type r = T_MX"
  "parse_srv h d = Inr r \<Longrightarrow> rdata_type r = T_SRV"
  "parse_soa h d = Inr r \<Longrightarrow> rdata_type r = T_SOA"
  by (auto simp: parse_mx_def parse_srv_def parse_soa_def try_bind_Inr_iff split: list.splits)

lemma parse_rdata_sound:
  assumes "parse_rdata h z hex t d = Inr r"
  shows "rdata_type r = t \<and> \<not> generated_type t"
proof -
  have "rdata_type r = t"
    using assms by (cases t)
      (auto simp: parse_rdata_def try_bind_Inr_iff field_parsers_type presentation_types)
  moreover have "\<not> generated_type t"
    using assms by (cases t) (auto simp: parse_rdata_def generated_type_def)
  ultimately show ?thesis by simp
qed

lemma parse_uint_bound: "parse_uint bound s = Some n \<Longrightarrow> n \<le> bound"
  by (auto simp: parse_uint_def Let_def split: if_splits)

definition i32_range :: "int \<Rightarrow> bool" where
  "i32_range v \<longleftrightarrow> - 2147483648 \<le> v \<and> v \<le> 2147483647"

lemma parse_i32_range: "parse_i32 s = Some v \<Longrightarrow> i32_range v"
  by (auto simp: parse_i32_def i32_range_def split: list.splits if_splits dest!: parse_uint_bound)

text \<open>What holds of record data of a type when it was read from a request.\<close>

fun rdata_ok :: "'n rdata \<Rightarrow> bool" where
  "rdata_ok (RD_TLSA t) \<longleftrightarrow>
     (tlsa_matching t = 1 \<longrightarrow> length (tlsa_cert t) = 32) \<and> (tlsa_matching t = 2 \<longrightarrow> length (tlsa_cert t) = 64)"
| "rdata_ok (RD_SOA s) \<longleftrightarrow> i32_range (soa_refresh s) \<and> i32_range (soa_retry s) \<and> i32_range (soa_expire s)"
| "rdata_ok (RD_TXT ts) \<longleftrightarrow> length ts = 1"
| "rdata_ok _ \<longleftrightarrow> True"

lemma parse_soa_ok: "parse_soa h d = Inr r \<Longrightarrow> rdata_ok r"
  by (auto simp: parse_soa_def try_bind_Inr_iff ok_or_def parse_i32_range split: list.splits option.splits)

lemma rdata_ok_trivial: "rdata_type r \<notin> {T_TLSA, T_SOA, T_TXT} \<Longrightarrow> rdata_ok r"
  by (cases r) auto

lemma persist_zone_effect:
  assumes "persist_zone h z a path origin fs = (res, fs')"
  shows "case res of
           Inl e \<Rightarrow> fs' = fs
         | Inr _ \<Rightarrow> fs' = fs\<lparr>fs_files := (fs_files fs)(path \<mapsto> join [newline] (zone_lines h z a origin))\<rparr>"
  using assms
  by (auto simp: persist_zone_def fs_write_def Let_def split: option.splits sum.splits)

lemma load_handler_file: "load_handler h z hex fs zc dir = Inr a \<Longrightarrow> \<exists>file. zc_file zc = Some file"
  by (auto simp: load_handler_def ok_or_def split: option.splits)

lemma inserted_zone_Inr:
  "inserted_zone h z hex fs zc dir create = Inr (a', origin) \<longleftrightarrow>
     (\<exists>a rtype name rdata. load_handler h z hex fs zc dir = Inr a
        \<and> parse_record_type h (rc_type create) = Inr rtype
        \<and> name_from_ascii h (zc_name zc) = Inr origin
        \<and> (if rc_name create \<in> {''@'', zc_name zc, []} then name = origin
           else name_from_ascii h (rc_name create) = Inr name)
        \<and> parse_rdata h z hex rtype (rc_data create) = Inr rdata
        \<and> a' = upsert_mut z (from_rdata name (unwrap_or 3600 (rc_ttl create)) rdata) 0 a)"
  by (cases "rc_name create \<in> {''@'', zc_name zc, []}")
    (auto simp: inserted_zone_def try_bind_Inr_iff parse_name_def)

lemma zone_records_delete:
  "zone_records (a\<lparr>zh_records := AList.delete k (zh_records a)\<rparr>)
     = concat (map (\<lambda>(k', rset). if k' = k then [] else rs_records rset) (zh_records a))"
proof -
  have "concat (map (\<lambda>(k, rset). rs_records rset) (AList.delete k al))
      = concat (map (\<lambda>(k', rset). if k' = k then [] else rs_records rset) al)" for al :: "('a rr_key \<times> 'a rr_set) list"
    by (induction al) (auto simp: AList.delete_eq)
  then show ?thesis by (simp add: zone_records_def)
qed

text \<open>What insertions and deletions may do to the files.\<close>

definition zone_write :: "zone_config \<Rightarrow> string \<Rightarrow> file_system \<Rightarrow> bool \<Rightarrow> file_system \<Rightarrow> bool" where
  "zone_write zc dir fs ok fs' \<longleftrightarrow>
     fs' = fs \<or> (ok \<and> (\<exists>f t. zc_file zc = Some f
       \<and> fs' = fs\<lparr>fs_files := (fs_files fs)(record_zone_path f dir \<mapsto> t)\<rparr>))"

lemma persist_zone_write:
  assumes "persist_zone h z a (record_zone_path f dir) origin fs = (res, fs')" "zc_file zc = Some f"
  shows "zone_write zc dir fs (is_ok res) fs'"
  using persist_zone_effect [OF assms(1)] assms(2) by (cases res) (auto simp: zone_write_def)

lemma insert_record_write:
  assumes "insert_record h z hex zc dir create fs = (res, fs')"
  shows "zone_write zc dir fs (is_ok res) fs'"
proof (cases "inserted_zone h z hex fs zc dir create")
  case (Inl e)
  with assms show ?thesis by (simp add: insert_record_def zone_write_def)
next
  case (Inr p)
  then obtain a' origin where p: "p = (a', origin)" by (cases p)
  from Inr [unfolded p inserted_zone_Inr] obtain f where "zc_file zc = Some f"
    using load_handler_file [of h z hex fs zc dir] by blast
  then show ?thesis
    using assms Inr p by (intro persist_zone_write) (auto simp: insert_record_def)
qed

lemma delete_records_write:
  assumes "delete_records h z hex zc dir del fs = (res, fs')"
  shows "zone_write zc dir fs (is_ok res) fs'"
proof (cases "delete_key h z hex fs zc dir del")
  case (Inl e)
  with assms show ?thesis by (simp add: delete_records_def zone_write_def)
next
  case (Inr p)
  obtain a origin key where p: "p = (a, origin, key)" by (cases p)
  obtain f where f: "zc_file zc = Some f"
    using Inr load_handler_file [of h z hex fs zc dir] by (auto simp: delete_key_def try_bind_Inr_iff)
  obtain r fs1 where r: "persist_zone h z (a\<lparr>zh_records := AList.delete key (zh_records a)\<rparr>)
      (record_zone_path f dir) origin fs = (r, fs1)" by fastforce
  from persist_zone_write [OF r f] assms Inr p f r show ?thesis
    by (cases r) (auto simp: delete_records_def zone_write_def Let_def split: if_splits)
qed

subsection \<open>The interface of the record operations\<close>

text \<open>
  What a client of the record operations may rely on: an operation on a zone writes the
  zone's own file or nothing, and nothing when it fails.
\<close>

locale zone_editor =
  fixes edit :: "zone_config \<Rightarrow> string \<Rightarrow> 'req \<Rightarrow> file_system \<Rightarrow> (zone_error, 'a) result \<times> file_system"
  assumes edit_write: "edit zc dir rq fs = (res, fs') \<Longrightarrow> zone_write zc dir fs (is_ok res) fs'"
begin

lemma edit_error: "edit zc dir rq fs = (Inl e, fs') \<Longrightarrow> fs' = fs"
  using edit_write [of zc dir rq fs "Inl e" fs'] by (simp add: zone_write_def)

lemma edit_frame:
  assumes "edit zc dir rq fs = (res, fs')" "zc_file zc = Some f" "p \<noteq> record_zone_path f dir"
  shows "fs_files fs' p = fs_files fs p"
  using edit_write [OF assms(1)] assms(2,3) by (auto simp: zone_write_def)

lemma edit_no_file: "edit zc dir rq fs = (res, fs') \<Longrightarrow> zc_file zc = None \<Longrightarrow> fs' = fs"
  using edit_write [of zc dir rq fs res fs'] by (simp add: zone_write_def)

end

interpretation inserting: zone_editor "insert_record h z hex"
  by unfold_locales (rule insert_record_write)

interpretation deleting: zone_editor "delete_records h z hex"
  by unfold_locales (rule delete_records_write)

subsection \<open>Owner names\<close>

text \<open>
  How a zone file is read: an at sign is the origin, a name with a final dot is
  absolute, any other name is relative to the origin.
\<close>

definition expand_name :: "string \<Rightarrow> string \<Rightarrow> string" where
  "expand_name base s =
     (if s = ''@'' then base else if ends_with ''.'' s then s else s @ ''.'' @ base)"

lemma strip_suffix_Some: "strip_suffix p s = Some t \<longleftrightarrow> s = t @ p"
proof -
  have "s = take (length s - length p) s @ p" if "ends_with p s"
    using that by (metis append_take_drop_id ends_with_def)
  then show ?thesis by (auto simp: strip_suffix_def ends_with_def)
qed

subsection \<open>Properties\<close>

text \<open>
  C22. Record data read from a request is well typed: it has the requested type, and that
  type is never one that DNSSEC signing generates; a TLSA record with a SHA-256 or
  SHA-512 matching type has a digest of 32 or 64 bytes, the timers of a SOA record fit in
  32 signed bits, and a TXT record has a single string.
\<close>

theorem parse_rdata_well_typed:
  assumes "parse_rdata h z hex t d = Inr r"
  shows "rdata_type r = t \<and> \<not> generated_type t \<and> rdata_ok r"
proof -
  have t: "rdata_type r = t" "\<not> generated_type t" using parse_rdata_sound [OF assms] by simp_all
  have "rdata_ok r"
  proof (cases "t \<in> {T_TLSA, T_SOA, T_TXT}")
    case True
    with assms show ?thesis
      by (auto simp: parse_rdata_def try_bind_Inr_iff parse_tlsa_data_Inr intro: parse_soa_ok)
  next
    case False
    with t show ?thesis by (intro rdata_ok_trivial) simp
  qed
  with t show ?thesis by simp
qed

theorem parse_rdata_well_typed_witness:
  "parse_rdata (list_hickory []) (list_zone_ops []) (\<lambda>s. Some (replicate 32 0)) T_TLSA ''3 1 1 00''
     = Inr (RD_TLSA \<lparr>tlsa_usage = 3, tlsa_selector = 1, tlsa_matching = 1, tlsa_cert = replicate 32 0\<rparr>)
   \<and> rdata_ok (RD_TLSA \<lparr>tlsa_usage = 3, tlsa_selector = 1, tlsa_matching = 1, tlsa_cert = replicate 32 0\<rparr>
       :: string list rdata)"
proof -
  have p: "parse_rdata (list_hickory []) (list_zone_ops []) (\<lambda>s. Some (replicate 32 0)) T_TLSA ''3 1 1 00''
     = Inr (RD_TLSA \<lparr>tlsa_usage = 3, tlsa_selector = 1, tlsa_matching = 1, tlsa_cert = replicate 32 0\<rparr>)"
    by code_simp
  with parse_rdata_well_typed [OF p] show ?thesis by simp
qed

text \<open>
  Owner names survive being written and read. For an origin and an owner name in the
  absolute form, whose part before the origin is not a lone at sign and does not end with
  a dot, reading the name that is written into the zone file gives the owner name back.
\<close>

theorem owner_name_roundtrip:
  assumes "ends_with ''.'' name" "name \<noteq> ''@.'' @ base" "\<not> ends_with (''..'' @ base) name"
  shows "expand_name base (short_name base name) = name"
proof (cases "strip_suffix (''.'' @ base) name")
  case None
  with assms(1) show ?thesis by (auto simp: short_name_def expand_name_def ends_with_def)
next
  case (Some t)
  then have name: "name = t @ ''.'' @ base" by (simp only: strip_suffix_Some)
  have "\<not> ends_with ''.'' t"
  proof
    assume "ends_with ''.'' t"
    then have "t = take (length t - 1) t @ ''.''"
      by (metis append_take_drop_id ends_with_def length_Cons list.size(3) One_nat_def)
    then have "name = take (length t - 1) t @ ''..'' @ base" using name by simp
    then have "strip_suffix (''..'' @ base) name = Some (take (length t - 1) t)"
      by (simp only: strip_suffix_Some)
    with assms(3) show False by (simp add: strip_suffix_def)
  qed
  moreover have "t \<noteq> ''@''" using name assms(2) by auto
  ultimately show ?thesis using Some name by (simp add: short_name_def expand_name_def)
qed

theorem owner_name_roundtrip_witness:
  "short_name ''example.com.'' ''www.example.com.'' = ''www''
   \<and> expand_name ''example.com.'' (short_name ''example.com.'' ''www.example.com.'') = ''www.example.com.''"
proof -
  have "ends_with ''.'' ''www.example.com.''" "\<not> ends_with (''..'' @ ''example.com.'') ''www.example.com.''"
    "short_name ''example.com.'' ''www.example.com.'' = ''www''"
    by code_simp+
  then show ?thesis using owner_name_roundtrip [of "''www.example.com.''" "''example.com.''"] by simp
qed

definition demo_zone_config :: zone_config where
  "demo_zone_config = \<lparr>zc_name = ''test'', zc_kind = ''primary'', zc_file = Some ''test.zone'',
     zc_primaries = [], zc_dnssec_signing = False, zc_dnssec_algorithm = ''ecdsa-p256'',
     zc_dnssec_key = None, zc_nx_proof = None\<rparr>"

definition demo_fs :: file_system where
  "demo_fs = \<lparr>fs_files = (\<lambda>p. if p = ''/z/test.zone'' then Some ''zone'' else None), io_fault = (\<lambda>p. None)\<rparr>"

definition demo_insert :: "(zone_error, unit) result \<times> file_system" where
  "demo_insert = insert_record (list_hickory []) (list_zone_ops demo_zone) (\<lambda>s. None) demo_zone_config ''/z''
     \<lparr>rc_name = ''mail.test.'', rc_type = ''a'', rc_ttl = None, rc_data = ''192.0.2.1''\<rparr> demo_fs"

definition demo_delete :: "(zone_error, nat) result \<times> file_system" where
  "demo_delete = delete_records (list_hickory []) (list_zone_ops demo_zone) (\<lambda>s. None) demo_zone_config ''/z''
     \<lparr>rd_name = ''WWW.test.'', rd_type = ''A''\<rparr> demo_fs"



text \<open>
  C25. Deleting records. A refused deletion changes no file. A successful one answers with
  the number of records that the zone has for the name and type; if there are none, no
  file changes, and otherwise exactly the zone file is replaced, by the text of the zone
  without that record set.
\<close>

theorem delete_records_effect:
  assumes "delete_records h z hex zc dir del fs = (res, fs')"
  shows "case res of
           Inl e \<Rightarrow> fs' = fs
         | Inr n \<Rightarrow> \<exists>a file origin key.
             delete_key h z hex fs zc dir del = Inr (a, origin, key) \<and> zc_file zc = Some file
             \<and> n = (case map_of (zh_records a) key of None \<Rightarrow> 0 | Some rset \<Rightarrow> length (rs_records rset))
             \<and> (if n = 0 then fs' = fs
                else \<exists>a'. zone_records a'
                         = concat (map (\<lambda>(k, rset). if k = key then [] else rs_records rset) (zh_records a))
                       \<and> fs' = fs\<lparr>fs_files := (fs_files fs)(record_zone_path file dir \<mapsto>
                           join [newline] (zone_lines h z a' origin))\<rparr>)"
proof (cases "delete_key h z hex fs zc dir del")
  case (Inl e)
  with assms show ?thesis by (auto simp: delete_records_def)
next
  case (Inr p)
  obtain a origin key where p: "p = (a, origin, key)" by (cases p)
  from Inr p obtain fl where f: "zc_file zc = Some fl"
    using load_handler_file [of h z hex fs zc dir a] by (auto simp: delete_key_def try_bind_Inr_iff)
  define n where "n = (case map_of (zh_records a) key of None \<Rightarrow> 0 | Some rset \<Rightarrow> length (rs_records rset))"
  have n': "unwrap_or 0 (map_option (\<lambda>rset. length (rs_records rset)) (map_of (zh_records a) key)) = n"
    by (simp add: n_def split: option.split)
  define a' where "a' = a\<lparr>zh_records := AList.delete key (zh_records a)\<rparr>"
  have recs: "zone_records a' = concat (map (\<lambda>(k, rset). if k = key then [] else rs_records rset) (zh_records a))"
    unfolding a'_def by (rule zone_records_delete)
  show ?thesis
  proof (cases "n = 0")
    case True
    with assms Inr p n' have "res = Inr 0" "fs' = fs" by (simp_all add: delete_records_def)
    with True Inr p f show ?thesis unfolding n_def by auto
  next
    case False
    obtain r where r: "persist_zone h z a' (record_zone_path fl dir) origin fs = (r, fs')"
      and res: "res = try_bind r (\<lambda>_. Inr n)"
      using assms Inr p f n' False
      by (auto simp: delete_records_def a'_def [symmetric] split: prod.splits)
    from persist_zone_effect [OF r] res recs False Inr p f show ?thesis
      unfolding n_def by (cases r) auto
  qed
qed

theorem delete_records_effect_witness:
  "fst demo_delete = Inr 1 \<and> (\<exists>a'. snd demo_delete = demo_fs\<lparr>fs_files := (fs_files demo_fs)(''/z/test.zone'' \<mapsto>
     join [newline] (zone_lines (list_hickory []) (list_zone_ops demo_zone) a' [''test'']))\<rparr>)"
proof -
  have ok: "fst demo_delete = Inr 1" by code_simp
  have path: "record_zone_path ''test.zone'' ''/z'' = ''/z/test.zone''" by code_simp
  have fl: "zc_file demo_zone_config = Some ''test.zone''" by (simp add: demo_zone_config_def)
  have origin: "map_sum (\<lambda>e. ()) (\<lambda>x. fst (snd x)) (delete_key (list_hickory []) (list_zone_ops demo_zone) (\<lambda>s. None) demo_fs
      demo_zone_config ''/z'' \<lparr>rd_name = ''WWW.test.'', rd_type = ''A''\<rparr>) = Inr [''test'']"
    by code_simp
  show ?thesis
    using delete_records_effect [OF surjective_pairing [of demo_delete, unfolded demo_delete_def]] origin
    unfolding demo_delete_def [symmetric] ok sum.case fl option.inject
    by (auto simp: path)
qed

end
