(* ===== verification/Api.thy ===== *)
theory Api
  imports Server ZoneRecord
begin

text \<open>
  The HTTP API of \<open>src/api/mod.rs\<close>: its state, the handlers and the route table, and the
  sessions and application hooks that are prepared for it (\<open>src/auth/mod.rs\<close>,
  \<open>src/apps/mod.rs\<close>). Routing, JSON and the sockets belong to axum; the version string is
  a build-time constant, here an argument. Error texts are the errors they print.
\<close>

subsection \<open>State and answers\<close>

record zone_summary =
  zs_name :: string
  zs_kind :: string
  zs_file :: "string option"
  zs_primaries :: "string list"

record 're api_state =
  as_config :: config
  as_zones :: "zone_summary list"
  as_filter :: "'re filter_state"

record 're api =
  ap_listen :: string
  ap_tls_cert :: "string option"
  ap_tls_key :: "string option"
  ap_state :: "'re api_state"

datatype status_code = StatusOk | StatusNotFound | StatusBadRequest | StatusInternalError

datatype api_error = ZoneUnknown string | RecordError zone_error

type_synonym 'a answer = "(status_code \<times> api_error, 'a) result"

definition zone_summary_of :: "zone_config \<Rightarrow> zone_summary" where
  "zone_summary_of z =
     \<lparr>zs_name = zc_name z, zs_kind = zc_kind z, zs_file = zc_file z, zs_primaries = zc_primaries z\<rparr>"

definition api_new :: "'re filter_lib \<Rightarrow> file_system \<Rightarrow> config \<Rightarrow> 're api" where
  "api_new flib fs cfg =
     \<lparr>ap_listen = api_listen (cfg_api cfg), ap_tls_cert = api_tls_cert (cfg_api cfg),
      ap_tls_key = api_tls_key (cfg_api cfg),
      ap_state = \<lparr>as_config = cfg, as_zones = map zone_summary_of (cfg_zones cfg),
        as_filter = filter_new (regex_new flib) (fetch_text (http_get flib) fs) (cfg_filter cfg)\<rparr>\<rparr>"

subsection \<open>Information\<close>

record health_info =
  he_status :: string
  he_version :: string

definition health :: "string \<Rightarrow> health_info" where
  "health version = \<lparr>he_status = ''ok'', he_version = version\<rparr>"

definition metrics_handler :: "metrics_registry \<Rightarrow> status_code \<times> string \<times> string" where
  "metrics_handler m = (StatusOk, ''text/plain; version=0.0.4'', metrics_serialize m)"

definition metrics_enabled :: "config \<Rightarrow> bool" where
  "metrics_enabled cfg = mt_enable (cfg_metrics cfg)"

record filter_stats_info =
  fs_cname_cloaking :: bool
  fs_rebinding :: bool
  fs_blocklist_entries :: nat
  fs_regex_patterns :: nat

definition filter_stats :: "'re api_state \<Rightarrow> filter_stats_info" where
  "filter_stats s =
     \<lparr>fs_cname_cloaking = fc_cname_cloaking (cfg_filter (as_config s)),
      fs_rebinding = fc_rebinding (cfg_filter (as_config s)),
      fs_blocklist_entries = blocklist_len (fl_blocklist (as_filter s)),
      fs_regex_patterns = length (fc_regex_blocklist (cfg_filter (as_config s)))\<rparr>"

record server_info =
  sv_version :: string
  sv_hostname :: string
  sv_dns_listen :: "string list"
  sv_api_listen :: string
  sv_zones_loaded :: nat
  sv_dnssec_validation :: bool
  sv_cache_size :: nat
  sv_log_level :: string

definition server_info_handler :: "string \<Rightarrow> 're api_state \<Rightarrow> server_info" where
  "server_info_handler version s =
     \<lparr>sv_version = version, sv_hostname = cfg_host (as_config s), sv_dns_listen = cfg_listen (as_config s),
      sv_api_listen = api_listen (cfg_api (as_config s)), sv_zones_loaded = length (as_zones s),
      sv_dnssec_validation = ds_validation (cfg_dnssec (as_config s)),
      sv_cache_size = cs_size (cfg_cache (as_config s)), sv_log_level = lg_level (cfg_log (as_config s))\<rparr>"

definition list_zones :: "'re api_state \<Rightarrow> zone_summary list \<times> nat" where
  "list_zones s = (as_zones s, length (as_zones s))"

definition zone_key :: "string \<Rightarrow> string" where
  "zone_key name = (if ends_with ''.'' name then name else name @ ''.'')"

definition zone_detail :: "'re api_state \<Rightarrow> string \<Rightarrow> zone_summary answer" where
  "zone_detail s name =
     ok_or (StatusNotFound, ZoneUnknown (zone_key name)) (find (\<lambda>z. zs_name z = zone_key name) (as_zones s))"

subsection \<open>Records\<close>

definition find_zone :: "'re api_state \<Rightarrow> string \<Rightarrow> zone_config answer" where
  "find_zone s name =
     ok_or (StatusNotFound, ZoneUnknown (zone_key name))
       (find (\<lambda>z. zc_name z = zone_key name) (cfg_zones (as_config s)))"

definition api_list_records ::
  "'n hickory \<Rightarrow> 'n zone_ops \<Rightarrow> (string \<Rightarrow> bytes option) \<Rightarrow> 're api_state \<Rightarrow> string \<Rightarrow> file_system
     \<Rightarrow> (record_summary list \<times> nat) answer"
where
  "api_list_records h z hex s zone_name fs =
     try_bind (find_zone s zone_name) (\<lambda>zc.
       case list_records h z hex fs zc (cfg_zones_dir (as_config s)) of
         Inr records \<Rightarrow> Inr (records, length records)
       | Inl e \<Rightarrow> Inl (StatusInternalError, RecordError e))"

definition api_get_records ::
  "'n hickory \<Rightarrow> 'n zone_ops \<Rightarrow> (string \<Rightarrow> bytes option) \<Rightarrow> 're api_state \<Rightarrow> string \<Rightarrow> string \<Rightarrow> string
     \<Rightarrow> file_system \<Rightarrow> (record_summary list \<times> nat) answer"
where
  "api_get_records h z hex s zone_name name rtype fs =
     try_bind (find_zone s zone_name) (\<lambda>zc.
       case get_records h z hex fs zc (cfg_zones_dir (as_config s)) name rtype of
         Inr records \<Rightarrow> Inr (records, length records)
       | Inl e \<Rightarrow> Inl (StatusBadRequest, RecordError e))"

definition create_record ::
  "'n hickory \<Rightarrow> 'n zone_ops \<Rightarrow> (string \<Rightarrow> bytes option) \<Rightarrow> 're api_state \<Rightarrow> string \<Rightarrow> record_create
     \<Rightarrow> file_system \<Rightarrow> string answer \<times> file_system"
where
  "create_record h z hex s zone_name create fs =
     (case find_zone s zone_name of
        Inl e \<Rightarrow> (Inl e, fs)
      | Inr zc \<Rightarrow>
          (case insert_record h z hex zc (cfg_zones_dir (as_config s)) create fs of
             (Inr _, fs') \<Rightarrow> (Inr (''record added to zone '' @ zone_name), fs')
           | (Inl e, fs') \<Rightarrow> (Inl (StatusBadRequest, RecordError e), fs')))"

definition delete_record ::
  "'n hickory \<Rightarrow> 'n zone_ops \<Rightarrow> (string \<Rightarrow> bytes option) \<Rightarrow> 're api_state \<Rightarrow> string \<Rightarrow> record_delete
     \<Rightarrow> file_system \<Rightarrow> nat answer \<times> file_system"
where
  "delete_record h z hex s zone_name del fs =
     (case find_zone s zone_name of
        Inl e \<Rightarrow> (Inl e, fs)
      | Inr zc \<Rightarrow>
          (case delete_records h z hex zc (cfg_zones_dir (as_config s)) del fs of
             (Inr n, fs') \<Rightarrow> (Inr n, fs')
           | (Inl e, fs') \<Rightarrow> (Inl (StatusBadRequest, RecordError e), fs')))"

subsection \<open>Runtime options\<close>

record rec_options_update =
  ru_qname_minimization :: "bool option"
  ru_ecs :: "bool option"
  ru_dns64_always_synthesize :: "bool option"
  ru_dns64_prefix :: "string option"

text \<open>
  The path comes from the environment. The handler writes the unchanged configuration
  back and ignores the request; a write error is dropped.
\<close>

definition rec_options_handler ::
  "string option \<Rightarrow> (config \<Rightarrow> (string, string) result) \<Rightarrow> 're api_state \<Rightarrow> rec_options_update \<Rightarrow> file_system
     \<Rightarrow> string \<times> file_system"
where
  "rec_options_handler env_path to_toml s payload fs =
     (let config_path = unwrap_or ''/etc/heimdallr/config.toml'' env_path;
          fs' = (if fs_exists fs config_path
                 then (case to_toml (as_config s) of Inr t \<Rightarrow> snd (fs_write fs config_path t) | Inl _ \<Rightarrow> fs)
                 else fs)
      in (''M7.3/M7.4: runtime toggle + persistence (stub; full RBAC + persistence M7.4 follow-up)'', fs'))"

subsection \<open>Routes\<close>

datatype http_method = Get | Post

datatype endpoint =
    EpHealth | EpFilterStats | EpInfo | EpZones | EpZoneDetail | EpListRecords | EpCreateRecord
  | EpGetRecords | EpDeleteRecord | EpRecOptions | EpMetrics

definition api_routes :: "config \<Rightarrow> (string \<times> http_method \<times> endpoint) list" where
  "api_routes cfg =
     [(''/api/health'', Get, EpHealth), (''/api/filter/stats'', Get, EpFilterStats), (''/api/info'', Get, EpInfo),
      (''/api/zones'', Get, EpZones), (''/api/zones/{name}'', Get, EpZoneDetail),
      (''/api/zones/{name}/records'', Get, EpListRecords), (''/api/zones/{name}/records'', Post, EpCreateRecord),
      (''/api/zones/{name}/records/{rtype}'', Get, EpGetRecords),
      (''/api/zones/{name}/records/{name}/{rtype}'', Get, EpGetRecords),
      (''/api/zones/{name}/records/delete'', Post, EpDeleteRecord), (''/api/rec/options'', Post, EpRecOptions)]
     @ (if metrics_enabled cfg then [(''/metrics'', Get, EpMetrics)] else [])"

subsection \<open>Sessions\<close>

record auth_session =
  se_user :: string
  se_roles :: "string list"
  se_totp_verified :: bool
  se_oidc_token :: "string option"

definition session_new :: "string \<Rightarrow> auth_session" where
  "session_new user = \<lparr>se_user = user, se_roles = [''dns_reader''], se_totp_verified = False, se_oidc_token = None\<rparr>"

definition has_role :: "auth_session \<Rightarrow> string \<Rightarrow> bool" where
  "has_role s role = (role \<in> set (se_roles s))"

definition is_authorized_for_toggle :: "auth_session \<Rightarrow> string \<Rightarrow> bool" where
  "is_authorized_for_toggle s required_role = has_role s required_role"

subsection \<open>Applications\<close>

record app =
  app_name :: string
  app_handle_query :: "string \<Rightarrow> bytes option"

record app_registry =
  reg_apps :: "app list"

definition registry_new :: app_registry where
  "registry_new = \<lparr>reg_apps = []\<rparr>"

definition register_app :: "app \<Rightarrow> app_registry \<Rightarrow> app_registry" where
  "register_app a r = r\<lparr>reg_apps := reg_apps r @ [a]\<rparr>"

definition app_route_override :: "app_registry option \<Rightarrow> ip_addr \<Rightarrow> string \<Rightarrow> string option" where
  "app_route_override registry client qname =
     (case registry of
        None \<Rightarrow> None
      | Some reg \<Rightarrow> if reg_apps reg = [] then None else Some (trim_end_matches (CHR ''.'') qname))"

subsection \<open>Lemmas\<close>

lemma zone_key_dot: "ends_with ''.'' (zone_key name)"
  by (simp add: zone_key_def ends_with_snoc)

lemma zone_key_idem [simp]: "zone_key (zone_key name) = zone_key name"
  by (simp add: zone_key_def ends_with_snoc)

lemma find_zone_Inr:
  "find_zone s name = Inr zc \<Longrightarrow> zc \<in> set (cfg_zones (as_config s)) \<and> zc_name zc = zone_key name"
  by (auto simp: find_zone_def ok_or_def find_Some_iff split: option.splits)

lemma find_zone_Inl: "find_zone s name = Inl e \<Longrightarrow> e = (StatusNotFound, ZoneUnknown (zone_key name))"
  by (auto simp: find_zone_def ok_or_def split: option.splits)

lemma find_zone_unqualified:
  assumes "list_all (\<lambda>zc. \<not> ends_with ''.'' (zc_name zc)) (cfg_zones (as_config s))"
  shows "find_zone s name = Inl (StatusNotFound, ZoneUnknown (zone_key name))"
proof (cases "find_zone s name")
  case (Inl e)
  then show ?thesis using find_zone_Inl by blast
next
  case (Inr zc)
  then have "zc \<in> set (cfg_zones (as_config s))" "ends_with ''.'' (zc_name zc)"
    using find_zone_Inr zone_key_dot by metis+
  with assms show ?thesis by (auto simp: list_all_iff)
qed


text \<open>The files that belong to the configured zones.\<close>

definition zone_files :: "config \<Rightarrow> string set" where
  "zone_files cfg = {p. \<exists>zc f. zc \<in> set (cfg_zones cfg) \<and> zc_file zc = Some f
     \<and> p = record_zone_path f (cfg_zones_dir cfg)}"

definition changed_files :: "file_system \<Rightarrow> file_system \<Rightarrow> string set" where
  "changed_files fs fs' = {p. fs_files fs' p \<noteq> fs_files fs p}"

lemma zone_write_files:
  assumes "zone_write zc (cfg_zones_dir cfg) fs ok fs'" "zc \<in> set (cfg_zones cfg)"
  shows "changed_files fs fs' \<subseteq> zone_files cfg \<and> (ok \<or> fs' = fs)"
  using assms by (auto simp: zone_write_def changed_files_def zone_files_def split: if_splits)

lemma changed_files_refl [simp]: "changed_files fs fs = {}"
  by (simp add: changed_files_def)

text \<open>
  A record request of the API finds the zone, edits it and reports errors with a status:
  for every operation that keeps the contract of \<open>zone_editor\<close>, it writes files of
  configured zones only.
\<close>

definition record_request ::
  "(zone_config \<Rightarrow> string \<Rightarrow> 'req \<Rightarrow> file_system \<Rightarrow> (zone_error, 'a) result \<times> file_system) \<Rightarrow> ('a \<Rightarrow> 'b)
     \<Rightarrow> 're api_state \<Rightarrow> string \<Rightarrow> 'req \<Rightarrow> file_system \<Rightarrow> 'b answer \<times> file_system"
where
  "record_request edit ok s zone_name rq fs =
     (case find_zone s zone_name of
        Inl e \<Rightarrow> (Inl e, fs)
      | Inr zc \<Rightarrow>
          (case edit zc (cfg_zones_dir (as_config s)) rq fs of
             (Inr x, fs') \<Rightarrow> (Inr (ok x), fs')
           | (Inl e, fs') \<Rightarrow> (Inl (StatusBadRequest, RecordError e), fs')))"

lemma create_record_request:
  "create_record h z hex s n rq fs
     = record_request (insert_record h z hex) (\<lambda>_. ''record added to zone '' @ n) s n rq fs"
  by (simp only: create_record_def record_request_def)

lemma delete_record_request:
  "delete_record h z hex s n rq fs = record_request (delete_records h z hex) (\<lambda>k. k) s n rq fs"
  by (simp add: delete_record_def record_request_def)

context zone_editor
begin

lemma request_files:
  assumes "record_request edit ok s n rq fs = (res, fs')"
  shows "changed_files fs fs' \<subseteq> zone_files (as_config s) \<and> (is_ok res \<or> fs' = fs)"
proof (cases "find_zone s n")
  case (Inl e)
  with assms show ?thesis by (simp add: record_request_def)
next
  case (Inr zc)
  obtain r fs1 where r: "edit zc (cfg_zones_dir (as_config s)) rq fs = (r, fs1)" by fastforce
  have "changed_files fs fs1 \<subseteq> zone_files (as_config s) \<and> (is_ok r \<or> fs1 = fs)"
    using zone_write_files [OF edit_write [OF r]] find_zone_Inr [OF Inr] by blast
  with assms Inr r show ?thesis by (cases r) (auto simp: record_request_def)
qed

end

subsection \<open>Properties\<close>


text \<open>
  Zones without a final dot cannot be edited. The API adds the final dot to the zone
  name of a request and compares it with the configured names as they are written; when
  no configured zone name has a final dot, every record request is answered with the
  status of an unknown zone, whatever it asks for, and no file changes.
\<close>

theorem unqualified_zones_unknown_to_api:
  assumes "list_all (\<lambda>zc. \<not> ends_with ''.'' (zc_name zc)) (cfg_zones (as_config s))"
  shows "create_record h z hex s name create fs = (Inl (StatusNotFound, ZoneUnknown (zone_key name)), fs)
    \<and> delete_record h z hex s name del fs = (Inl (StatusNotFound, ZoneUnknown (zone_key name)), fs)
    \<and> api_list_records h z hex s name fs = Inl (StatusNotFound, ZoneUnknown (zone_key name))
    \<and> api_get_records h z hex s name rname rtype fs = Inl (StatusNotFound, ZoneUnknown (zone_key name))"
  using find_zone_unqualified [OF assms, of name]
  by (simp add: create_record_def delete_record_def api_list_records_def api_get_records_def)

definition demo_api :: "string api_state" where
  "demo_api = \<lparr>as_config = default_config\<lparr>cfg_zones := [demo_zone_config]\<rparr>, as_zones = [],
     as_filter = demo_filter\<rparr>"

theorem unqualified_zones_unknown_to_api_witness:
  "api_list_records (list_hickory []) (list_zone_ops demo_zone) (\<lambda>s. None) demo_api ''test'' demo_fs
     = Inl (StatusNotFound, ZoneUnknown ''test.'')"
proof -
  have "list_all (\<lambda>zc. \<not> ends_with ''.'' (zc_name zc)) (cfg_zones (as_config demo_api))"
    by (simp add: demo_api_def demo_zone_config_def ends_with_def)
  moreover have "zone_key ''test'' = ''test.''" by code_simp
  ultimately show ?thesis
    using unqualified_zones_unknown_to_api [where s = demo_api and h = "list_hickory []"
        and z = "list_zone_ops demo_zone" and hex = "\<lambda>s. None" and name = "''test''" and fs = demo_fs] by simp
qed

end
