(* ===== verification/Program.thy ===== *)
theory Program
  imports Api
begin

text \<open>
  The program as a whole, \<open>main\<close> of \<open>src/main.rs\<close>: the command line, then five parts that
  run side by side until all of them have ended or one of them fails: the DNS server
  (\<open>src/net/mod.rs\<close>), the HTTP API (\<open>src/api/mod.rs\<close>) and the three parts that do nothing yet
  (\<open>src/core/mod.rs\<close>, \<open>src/dhcp/mod.rs\<close>, \<open>src/cluster/mod.rs\<close>). The life of the process is the
  step relation \<open>prog_step\<close>.
\<close>

subsection \<open>Parts without behaviour\<close>

record core_part =
  co_cfg :: config

definition core_new :: "config \<Rightarrow> core_part" where
  "core_new cfg = \<lparr>co_cfg = cfg\<rparr>"

definition core_run :: "core_part \<Rightarrow> ('e, unit) result" where
  "core_run c = Inr ()"

record dhcp_part =
  dp_enable :: bool

definition dhcp_new :: "bool \<Rightarrow> dhcp_part" where
  "dhcp_new enable = \<lparr>dp_enable = enable\<rparr>"

definition dhcp_run :: "dhcp_part \<Rightarrow> ('e, unit) result" where
  "dhcp_run d = (if \<not> dp_enable d then Inr () else Inr ())"

record cluster_part =
  clp_enable :: bool

definition cluster_new :: "bool \<Rightarrow> cluster_part" where
  "cluster_new enable = \<lparr>clp_enable = enable\<rparr>"

definition cluster_run :: "cluster_part \<Rightarrow> ('e, unit) result" where
  "cluster_run c = (if \<not> clp_enable c then Inr () else Inr ())"

record auth_config =
  au_enabled :: bool
  au_rbac_roles :: "string list"
  au_totp_issuer :: string
  au_oidc_provider :: "string option"

definition auth_config_default :: auth_config where
  "auth_config_default = \<lparr>au_enabled = False, au_rbac_roles = [], au_totp_issuer = [], au_oidc_provider = None\<rparr>"

record rec_options =
  ro_qname_minimization :: bool
  ro_case_randomization :: bool
  ro_ecs :: bool

definition rec_options_default :: rec_options where
  "rec_options_default = \<lparr>ro_qname_minimization = True, ro_case_randomization = False, ro_ecs = False\<rparr>"

subsection \<open>The listener of the API\<close>

datatype api_start_error =
    ApiReadCerts string io_error
  | ApiParseCerts string string
  | ApiReadKey string io_error
  | ApiParseKey string string
  | ApiCertificate string
  | BadApiListen string
  | ApiBind string
  | ApiAccept string

datatype api_listener = ApiTls socket_addr | ApiPlain string

text \<open>
  With both a certificate and a key the API serves TLS on a socket address; otherwise it
  serves plain HTTP on whatever the system makes of the text.
\<close>

definition api_start ::
  "('cert, 'key, 'ck) tls_lib \<Rightarrow> (socket_addr \<Rightarrow> (string, unit) result) \<Rightarrow> (string \<Rightarrow> (string, unit) result)
     \<Rightarrow> 're api \<Rightarrow> file_system \<Rightarrow> (api_start_error, api_listener) result"
where
  "api_start tlib bind_tls bind_text api fs =
     (case (ap_tls_cert api, ap_tls_key api) of
        (Some cert_path, Some key_path) \<Rightarrow>
          try_bind (map_err (ApiReadCerts cert_path) (fs_read fs cert_path)) (\<lambda>cert_text.
          try_bind (map_err (ApiParseCerts cert_path) (pem_certs tlib cert_text)) (\<lambda>certs.
          try_bind (map_err (ApiReadKey key_path) (fs_read fs key_path)) (\<lambda>key_text.
          try_bind (map_err (ApiParseKey key_path) (pem_key tlib key_text)) (\<lambda>key.
          try_bind (map_err ApiCertificate (certified_key tlib certs key)) (\<lambda>_.
          try_bind (ok_or (BadApiListen (ap_listen api)) (parse_socket_addr (ap_listen api))) (\<lambda>addr.
          try_bind (map_err ApiBind (bind_tls addr)) (\<lambda>_. Inr (ApiTls addr))))))))
      | _ \<Rightarrow>
          try_bind (map_err ApiBind (bind_text (ap_listen api))) (\<lambda>_. Inr (ApiPlain (ap_listen api))))"

text \<open>
  How serving ends: after the signal, and with TLS also with the first error of \<open>accept\<close>,
  which \<open>?\<close> passes on; a connection that fails is only logged.
\<close>

inductive api_serve_returns :: "api_listener \<Rightarrow> bool \<Rightarrow> (api_start_error, unit) result \<Rightarrow> bool" where
  tls_accept_error: "api_serve_returns (ApiTls addr) ctrl_c (Inl (ApiAccept msg))"
| api_shutdown: "api_serve_returns l True (Inr ())"

text \<open>What the requests to the API do to the files.\<close>

inductive api_effect ::
  "'n hickory \<Rightarrow> 'n zone_ops \<Rightarrow> (string \<Rightarrow> bytes option) \<Rightarrow> string option \<Rightarrow> (config \<Rightarrow> (string, string) result)
     \<Rightarrow> 're api_state \<Rightarrow> file_system \<Rightarrow> file_system \<Rightarrow> bool"
  for h z hex env_path to_toml s
where
  effect_create: "create_record h z hex s zone_name create fs = (r, fs') \<Longrightarrow> api_effect h z hex env_path to_toml s fs fs'"
| effect_delete: "delete_record h z hex s zone_name del fs = (r', fs') \<Longrightarrow> api_effect h z hex env_path to_toml s fs fs'"
| effect_options: "rec_options_handler env_path to_toml s payload fs = (t, fs') \<Longrightarrow>
    api_effect h z hex env_path to_toml s fs fs'"

subsection \<open>The command line\<close>

datatype main_plan =
    ConfigChecked string "string list"
  | RunWith config "query_log_config option"

definition main_plan ::
  "(string \<Rightarrow> (string, config) result) \<Rightarrow> file_system \<Rightarrow> args \<Rightarrow> (string, main_plan) result"
where
  "main_plan toml fs a =
     try_bind (load_config toml fs a) (\<lambda>cfg.
       if arg_check_config a then Inr (ConfigChecked (unwrap_or ''<defaults>'' (arg_config a)) (cfg_listen cfg))
       else Inr (RunWith cfg (query_log_setup cfg)))"

definition json_logging :: "config \<Rightarrow> bool" where
  "json_logging cfg = (lg_format (cfg_log cfg) = ''json'')"

subsection \<open>The running process\<close>

text \<open>
  A part that has not finished starting, serves, or has returned. \<open>saved\<close> records what was
  handed to the cache file: the cache and the list of its entries.
\<close>

datatype ('e, 'a) part = Starting | Serving 'a | Returned "('e, unit) result"

datatype run_error = NetStart start_error | NetServe string | ApiFailed api_start_error

record ('n, 're, 'r, 'cat) program =
  pr_net :: "(run_error, ('n, 're, 'r, 'cat) server) part"
  pr_api :: "(run_error, api_listener) part"
  pr_fs :: file_system
  pr_ctrl_c :: bool
  pr_saved :: "(cache \<times> saved_record list) option"

text \<open>What the parts need of the outside: their start-up, the requests to the API, and JSON.\<close>

record ('n, 're, 'r, 'cat) program_env =
  pe_net_start :: "file_system \<Rightarrow> ((start_error, ('n, 're, 'r, 'cat) server) result \<times> file_system) option"
  pe_api_start :: "file_system \<Rightarrow> (api_start_error, api_listener) result"
  pe_api_effect :: "file_system \<Rightarrow> file_system \<Rightarrow> bool"
  pe_to_json :: "saved_record list \<Rightarrow> (string, string) result"

definition program_env_of ::
  "'n hickory \<Rightarrow> 'n zone_ops \<Rightarrow> ('n, 'key, 'signer) crypto \<Rightarrow> ('n, 'cat) catalog_ops
     \<Rightarrow> (string \<Rightarrow> bytes option) \<Rightarrow> ('n, 're, 'cat) put_forwarder \<Rightarrow> 'r resolver_lib \<Rightarrow> 're filter_lib
     \<Rightarrow> ('cert, 'tkey, 'ck) tls_lib \<Rightarrow> bind_fn \<Rightarrow> (string \<Rightarrow> (string, saved_record list) result)
     \<Rightarrow> (string \<Rightarrow> nat option) \<Rightarrow> nat \<Rightarrow> (socket_addr \<Rightarrow> (string, unit) result) \<Rightarrow> (string \<Rightarrow> (string, unit) result)
     \<Rightarrow> string option \<Rightarrow> (config \<Rightarrow> (string, string) result) \<Rightarrow> (saved_record list \<Rightarrow> (string, string) result) \<Rightarrow> config
     \<Rightarrow> file_system \<Rightarrow> ('n, 're, 'r, 'cat) program_env"
where
  "program_env_of h z c cat hex put rlib flib tlib bnd from_json file_age now bind_tls bind_text env_path
      to_toml to_json cfg fs =
     (let api = api_new flib fs cfg
      in \<lparr>pe_net_start = net_start h z c cat hex put rlib flib tlib bnd from_json file_age now cfg,
          pe_api_start = api_start tlib bind_tls bind_text api,
          pe_api_effect = api_effect h z hex env_path to_toml (ap_state api),
          pe_to_json = to_json\<rparr>)"

definition part_result :: "('e, 'a) part \<Rightarrow> ('e, unit) result option" where
  "part_result p = (case p of Returned r \<Rightarrow> Some r | _ \<Rightarrow> None)"

text \<open>\<open>try_join\<close>: an error as soon as one part has failed, success when all have succeeded.\<close>

definition try_join :: "('e, unit) result option list \<Rightarrow> ('e, unit) result option" where
  "try_join rs =
     (case List.map_filter (\<lambda>r. case r of Some (Inl e) \<Rightarrow> Some e | _ \<Rightarrow> None) rs of
        e # _ \<Rightarrow> Some (Inl e)
      | [] \<Rightarrow> if None \<in> set rs then None else Some (Inr ()))"

definition main_outcome :: "config \<Rightarrow> ('n, 're, 'r, 'cat) program \<Rightarrow> (run_error, unit) result option" where
  "main_outcome cfg p =
     try_join [part_result (pr_net p), Some (core_run (core_new cfg)), part_result (pr_api p),
       Some (dhcp_run (dhcp_new (dh_enable (cfg_dhcp cfg)))),
       Some (cluster_run (cluster_new (cl_enable (cfg_cluster cfg))))]"

definition program_init :: "file_system \<Rightarrow> ('n, 're, 'r, 'cat) program" where
  "program_init fs = \<lparr>pr_net = Starting, pr_api = Starting, pr_fs = fs, pr_ctrl_c = False, pr_saved = None\<rparr>"

text \<open>
  One step of the process, while it runs. The server's wait ends with an error of a listener,
  which \<open>?\<close> passes on before the cache is saved, or after the signal; saving is done on
  the way out and its errors are only logged.
\<close>

inductive prog_step ::
  "('n, 're, 'r, 'cat) program_env \<Rightarrow> config \<Rightarrow> ('n, 're, 'r, 'cat) program \<Rightarrow> ('n, 're, 'r, 'cat) program \<Rightarrow> bool"
  for env cfg
where
  net_ready: "main_outcome cfg p = None \<Longrightarrow> pr_net p = Starting \<Longrightarrow>
    pe_net_start env (pr_fs p) = Some (Inr sv, fs') \<Longrightarrow>
    prog_step env cfg p (p\<lparr>pr_net := Serving sv, pr_fs := fs'\<rparr>)"
| net_failed: "main_outcome cfg p = None \<Longrightarrow> pr_net p = Starting \<Longrightarrow>
    pe_net_start env (pr_fs p) = Some (Inl e, fs') \<Longrightarrow>
    prog_step env cfg p (p\<lparr>pr_net := Returned (Inl (NetStart e)), pr_fs := fs'\<rparr>)"
| net_serves: "main_outcome cfg p = None \<Longrightarrow> pr_net p = Serving sv \<Longrightarrow> cache_step (sv_cache sv) ca \<Longrightarrow>
    prog_step env cfg p (p\<lparr>pr_net := Serving (sv\<lparr>sv_cache := ca\<rparr>)\<rparr>)"
| net_crashes: "main_outcome cfg p = None \<Longrightarrow> pr_net p = Serving sv \<Longrightarrow>
    prog_step env cfg p (p\<lparr>pr_net := Returned (Inl (NetServe msg))\<rparr>)"
| net_stops: "main_outcome cfg p = None \<Longrightarrow> pr_net p = Serving sv \<Longrightarrow> pr_ctrl_c p \<Longrightarrow>
    is_snapshot (sv_cache sv) snap \<Longrightarrow> save_persistent_cache (pe_to_json env) cfg snap (pr_fs p) = (r, fs') \<Longrightarrow>
    prog_step env cfg p (p\<lparr>pr_net := Returned (Inr ()), pr_fs := fs', pr_saved := Some (sv_cache sv, snap)\<rparr>)"
| api_ready: "main_outcome cfg p = None \<Longrightarrow> pr_api p = Starting \<Longrightarrow> pe_api_start env (pr_fs p) = Inr l \<Longrightarrow>
    prog_step env cfg p (p\<lparr>pr_api := Serving l\<rparr>)"
| api_failed: "main_outcome cfg p = None \<Longrightarrow> pr_api p = Starting \<Longrightarrow> pe_api_start env (pr_fs p) = Inl ae \<Longrightarrow>
    prog_step env cfg p (p\<lparr>pr_api := Returned (Inl (ApiFailed ae))\<rparr>)"
| api_request: "main_outcome cfg p = None \<Longrightarrow> pr_api p = Serving l \<Longrightarrow> pe_api_effect env (pr_fs p) fs' \<Longrightarrow>
    prog_step env cfg p (p\<lparr>pr_fs := fs'\<rparr>)"
| api_returns: "main_outcome cfg p = None \<Longrightarrow> pr_api p = Serving l \<Longrightarrow> api_serve_returns l (pr_ctrl_c p) res \<Longrightarrow>
    prog_step env cfg p (p\<lparr>pr_api := Returned (map_err ApiFailed res)\<rparr>)"
| signal: "main_outcome cfg p = None \<Longrightarrow> prog_step env cfg p (p\<lparr>pr_ctrl_c := True\<rparr>)"

inductive prog_reachable ::
  "('n, 're, 'r, 'cat) program_env \<Rightarrow> config \<Rightarrow> file_system \<Rightarrow> ('n, 're, 'r, 'cat) program \<Rightarrow> bool"
  for env cfg fs
where
  prog_init: "prog_reachable env cfg fs (program_init fs)"
| prog_next: "prog_reachable env cfg fs p \<Longrightarrow> prog_step env cfg p p' \<Longrightarrow> prog_reachable env cfg fs p'"

subsection \<open>Lemmas\<close>

lemma main_outcome_parts:
  "main_outcome cfg p =
     (case (part_result (pr_net p), part_result (pr_api p)) of
        (Some (Inl e), _) \<Rightarrow> Some (Inl e)
      | (_, Some (Inl e)) \<Rightarrow> Some (Inl e)
      | (Some (Inr _), Some (Inr _)) \<Rightarrow> Some (Inr ())
      | _ \<Rightarrow> None)"
  by (simp add: main_outcome_def try_join_def core_run_def dhcp_run_def cluster_run_def List.map_filter_simps
      split: option.split sum.split)

lemma prog_step_running: "prog_step env cfg p p' \<Longrightarrow> main_outcome cfg p = None"
  by (auto elim: prog_step.cases)

text \<open>Where the cache of the running server comes from, and what was saved.\<close>

definition served_cache :: "('n, 're, 'r, 'cat) program_env \<Rightarrow> cache \<Rightarrow> bool" where
  "served_cache env c \<longleftrightarrow> (\<exists>fs sv fs'. pe_net_start env fs = Some (Inr sv, fs') \<and> cache_step\<^sup>*\<^sup>* (sv_cache sv) c)"

definition program_inv :: "('n, 're, 'r, 'cat) program_env \<Rightarrow> ('n, 're, 'r, 'cat) program \<Rightarrow> bool" where
  "program_inv env p \<longleftrightarrow>
     (case pr_net p of
        Starting \<Rightarrow> pr_saved p = None
      | Serving sv \<Rightarrow> pr_saved p = None \<and> served_cache env (sv_cache sv)
      | Returned (Inl e) \<Rightarrow> pr_saved p = None
      | Returned (Inr _) \<Rightarrow> pr_ctrl_c p
          \<and> (case pr_saved p of None \<Rightarrow> False | Some (c, snap) \<Rightarrow> served_cache env c \<and> is_snapshot c snap))
     \<and> (case pr_api p of Returned (Inr _) \<Rightarrow> pr_ctrl_c p | _ \<Rightarrow> True)"

lemma served_cache_start: "pe_net_start env fs = Some (Inr sv, fs') \<Longrightarrow> served_cache env (sv_cache sv)"
  unfolding served_cache_def by blast

lemma served_cache_step: "served_cache env c \<Longrightarrow> cache_step c c' \<Longrightarrow> served_cache env c'"
  unfolding served_cache_def by (meson rtranclp.rtrancl_into_rtrancl)

lemma program_inv_step:
  "prog_step env cfg p p' \<Longrightarrow> program_inv env p \<Longrightarrow> program_inv env p'"
  by (induction rule: prog_step.induct)
    (auto simp: program_inv_def split: part.splits sum.splits option.splits
      intro: served_cache_start served_cache_step elim: api_serve_returns.cases)

lemma program_inv_reachable: "prog_reachable env cfg fs p \<Longrightarrow> program_inv env p"
  by (induction rule: prog_reachable.induct) (auto simp: program_inv_def program_init_def dest: program_inv_step)

subsection \<open>Properties\<close>


definition demo_server :: "(string list, string, unit, unit) server" where
  "demo_server = \<lparr>sv_cache = demo_cache, sv_handler = \<lparr>hd_catalog = (), hd_secondaries = []\<rparr>,
     sv_forwarder = demo_authority, sv_resolver = (), sv_listeners = []\<rparr>"

definition demo_env :: "(string list, string, unit, unit) program_env" where
  "demo_env = \<lparr>pe_net_start = (\<lambda>fs. Some (Inr demo_server, fs)), pe_api_start = (\<lambda>fs. Inr (ApiTls (SockV4 1 443))),
     pe_api_effect = (=), pe_to_json = (\<lambda>s. Inr ''[...]'')\<rparr>"

definition empty_fs :: file_system where
  "empty_fs = \<lparr>fs_files = Map.empty, io_fault = (\<lambda>_. None)\<rparr>"

definition demo_running :: "(string list, string, unit, unit) program" where
  "demo_running = (program_init empty_fs)\<lparr>pr_net := Serving demo_server, pr_api := Serving (ApiTls (SockV4 1 443))\<rparr>"

lemma demo_running_reachable: "prog_reachable demo_env default_config empty_fs demo_running"
proof -
  let ?p = "program_init empty_fs\<lparr>pr_net := Serving demo_server, pr_fs := empty_fs\<rparr> :: (string list, string, unit, unit) program"
  have "prog_step demo_env default_config (program_init empty_fs) ?p"
    by (rule net_ready) (simp_all add: main_outcome_parts program_init_def part_result_def demo_env_def)
  moreover have "prog_step demo_env default_config ?p (?p\<lparr>pr_api := Serving (ApiTls (SockV4 1 443))\<rparr>)"
    by (rule api_ready) (simp_all add: main_outcome_parts program_init_def part_result_def demo_env_def)
  moreover have "?p\<lparr>pr_api := Serving (ApiTls (SockV4 1 443))\<rparr> = demo_running"
    by (simp add: demo_running_def program_init_def)
  ultimately show ?thesis using prog_next [OF prog_next [OF prog_init]] by metis
qed


text \<open>
  C16. A failure of the API takes the DNS server down. While the server is serving, a start of the
  API that fails, or with TLS a single error of \<open>accept\<close>, ends the program at once with
  the error of the API: the server is dropped where it stands and its cache is not saved,
  whatever the configuration says.
\<close>

theorem api_failure_discards_cache:
  assumes "prog_reachable env cfg fs p" "pr_net p = Serving sv"
    and "(pr_api p = Starting \<and> pe_api_start env (pr_fs p) = Inl e)
      \<or> (pr_api p = Serving (ApiTls addr) \<and> e = ApiAccept msg)"
  shows "\<exists>p'. prog_step env cfg p p' \<and> main_outcome cfg p' = Some (Inl (ApiFailed e))
    \<and> pr_saved p' = None \<and> pr_fs p' = pr_fs p \<and> {p''. prog_step env cfg p' p''} = {}"
proof -
  let ?p = "p\<lparr>pr_api := Returned (Inl (ApiFailed e))\<rparr>"
  have saved: "pr_saved p = None" using program_inv_reachable [OF assms(1)] assms(2) by (simp add: program_inv_def)
  have run: "main_outcome cfg p = None"
    using assms(2,3) by (auto simp: main_outcome_parts part_result_def)
  have out: "main_outcome cfg ?p = Some (Inl (ApiFailed e))"
    using assms(2) by (simp add: main_outcome_parts part_result_def)
  have "prog_step env cfg p ?p"
    using assms(3) api_failed [OF run] api_returns [OF run _ tls_accept_error] by auto
  moreover have "{p''. prog_step env cfg ?p p''} = {}"
    using prog_step_running [of env cfg ?p] out by auto
  ultimately show ?thesis using saved out by (intro exI [of _ ?p]) simp
qed

theorem api_failure_discards_cache_witness:
  "\<exists>p'. prog_step demo_env default_config demo_running p'
    \<and> main_outcome default_config p' = Some (Inl (ApiFailed (ApiAccept ''too many open files'')))
    \<and> pr_saved p' = None"
proof -
  have "pr_net demo_running = Serving demo_server" "pr_api demo_running = Serving (ApiTls (SockV4 1 443))"
    by (simp_all add: demo_running_def)
  then show ?thesis
    using api_failure_discards_cache [OF demo_running_reachable, of demo_server "ApiAccept ''too many open files''"
        "SockV4 1 443" "''too many open files''"] by blast
qed

text \<open>
  The command line: with \<open>--check-config\<close> the program reports success exactly for a
  configuration that it would run with, and starts nothing.
\<close>

theorem check_config_agrees:
  "(\<exists>path listen. main_plan toml fs (a\<lparr>arg_check_config := True\<rparr>) = Inr (ConfigChecked path listen))
    \<longleftrightarrow> (\<exists>cfg q. main_plan toml fs (a\<lparr>arg_check_config := False\<rparr>) = Inr (RunWith cfg q) \<and> config_ok cfg)"
proof -
  have "load_config toml fs (a\<lparr>arg_check_config := b\<rparr>) = load_config toml fs a" for b
    by (simp add: load_config_def override_api_def override_listen_def)
  then show ?thesis
    using load_config_ok [of toml fs a] by (auto simp: main_plan_def try_bind_Inr_iff)
qed

end
