(* ===== verification/Tasks.thy ===== *)
theory Tasks
  imports Main
begin

text \<open>
  Tasks that share a state, as \<open>tokio::spawn\<close> starts them. A task is stepped by a function
  that may fail to end (\<open>None\<close>); the steps of all tasks are interleaved with the start of
  new tasks and with changes of the shared state from outside. The locales state what a
  kind of task has to show of one step, and derive what then holds in every interleaving.
\<close>

subsection \<open>Interleavings\<close>

text \<open>
  \<open>pool_run step init start env a r (cs, s)\<close>: after \<open>a\<close> tasks were started, which took
  \<open>r\<close> steps together, the tasks are \<open>cs\<close> and the shared state is \<open>s\<close>.
\<close>

inductive pool_run ::
  "('c \<Rightarrow> 's \<Rightarrow> ('c \<times> 's) option) \<Rightarrow> ('s \<Rightarrow> bool) \<Rightarrow> ('s \<Rightarrow> 'c \<Rightarrow> 's \<Rightarrow> bool) \<Rightarrow> ('s \<Rightarrow> 's \<Rightarrow> bool)
     \<Rightarrow> nat \<Rightarrow> nat \<Rightarrow> 'c list \<times> 's \<Rightarrow> bool"
  for step init start env
where
  pool_init: "init s \<Longrightarrow> pool_run step init start env 0 0 ([], s)"
| pool_start: "pool_run step init start env a r (cs, s) \<Longrightarrow> start s c s' \<Longrightarrow>
    pool_run step init start env (Suc a) r (cs @ [c], s')"
| pool_step: "pool_run step init start env a r (cs, s) \<Longrightarrow> i < length cs \<Longrightarrow> step (cs ! i) s = Some (c', s') \<Longrightarrow>
    pool_run step init start env a (Suc r) (cs[i := c'], s')"
| pool_env: "pool_run step init start env a r (cs, s) \<Longrightarrow> env s s' \<Longrightarrow>
    pool_run step init start env a r (cs, s')"

text \<open>A task that runs alone until it is finished.\<close>

partial_function (option) run_alone ::
  "('c \<Rightarrow> 's \<Rightarrow> ('c \<times> 's) option) \<Rightarrow> ('c \<Rightarrow> bool) \<Rightarrow> 'c \<Rightarrow> 's \<Rightarrow> ('c \<times> 's) option"
where
  "run_alone step fin c s =
     (if fin c then Some (c, s)
      else Option.bind (step c s) (\<lambda>(c', s'). run_alone step fin c' s'))"

declare run_alone.simps [code]

lemma run_alone_finished [simp]: "fin c \<Longrightarrow> run_alone step fin c s = Some (c, s)"
  by (simp add: run_alone.simps)

lemma run_alone_step:
  "\<not> fin c \<Longrightarrow> run_alone step fin c s = Option.bind (step c s) (\<lambda>(c', s'). run_alone step fin c' s')"
  by (subst run_alone.simps) simp

lemma sum_list_update_less:
  fixes f :: "'a \<Rightarrow> nat"
  assumes "i < length xs" "f y < f (xs ! i)"
  shows "sum_list (map f (xs[i := y])) < sum_list (map f xs)"
  using assms
proof (induction xs arbitrary: i)
  case (Cons x xs)
  then show ?case by (cases i) auto
qed simp

subsection \<open>Safety\<close>

text \<open>
  An invariant of the shared state and one of tasks, kept by every step: they hold in every
  interleaving.
\<close>

locale pool_safety =
  fixes step :: "'c \<Rightarrow> 's \<Rightarrow> ('c \<times> 's) option"
    and init :: "'s \<Rightarrow> bool"
    and start :: "'s \<Rightarrow> 'c \<Rightarrow> 's \<Rightarrow> bool"
    and env :: "'s \<Rightarrow> 's \<Rightarrow> bool"
    and inv :: "'s \<Rightarrow> bool"
    and ok :: "'c \<Rightarrow> bool"
  assumes inv_init: "init s \<Longrightarrow> inv s"
    and inv_start: "inv s \<Longrightarrow> start s c s' \<Longrightarrow> inv s' \<and> ok c"
    and inv_step: "inv s \<Longrightarrow> ok c \<Longrightarrow> step c s = Some (c', s') \<Longrightarrow> inv s' \<and> ok c'"
    and inv_env: "inv s \<Longrightarrow> env s s' \<Longrightarrow> inv s'"
begin

lemma pool_invariant:
  "pool_run step init start env a r p \<Longrightarrow> inv (snd p) \<and> list_all ok (fst p)"
proof (induction rule: pool_run.induct)
  case (pool_init s)
  then show ?case using inv_init by simp
next
  case (pool_start a r cs s c s')
  then show ?case using inv_start by fastforce
next
  case (pool_step a r cs s i c' s')
  then have "ok (cs ! i)" by (simp add: list_all_length)
  then have "inv s' \<and> ok c'" using pool_step inv_step [of s "cs ! i" c' s'] by simp
  then show ?case
    using pool_step.IH set_update_subset_insert [of cs i c'] by (auto simp: list_all_iff)
next
  case (pool_env a r cs s s')
  then show ?case using inv_env [of s s'] by simp
qed

end

subsection \<open>Progress\<close>

text \<open>
  Tasks whose work decreases with every step and which can always go on: each of them can
  be finished in every state.
\<close>

locale pool_progress = pool_safety +
  fixes fin :: "'a \<Rightarrow> bool"
    and work :: "'a \<Rightarrow> nat"
  assumes step_work: "step c s = Some (c', s') \<Longrightarrow> work c' < work c"
    and can_step: "inv s \<Longrightarrow> ok c \<Longrightarrow> \<not> fin c \<Longrightarrow> \<exists>c' s'. step c s = Some (c', s')"
begin

lemma run_alone_completes:
  "inv s \<Longrightarrow> ok c \<Longrightarrow> \<exists>c' s'. run_alone step fin c s = Some (c', s') \<and> fin c'"
proof (induction "work c" arbitrary: c s rule: less_induct)
  case less
  show ?case
  proof (cases "fin c")
    case False
    then obtain c1 s1 where s: "step c s = Some (c1, s1)" using can_step less.prems by blast
    then show ?thesis
      using less.hyps [OF step_work [OF s]] inv_step [OF less.prems s] False by (simp add: run_alone_step)
  qed simp
qed

lemma pool_run_alone:
  "i < length cs \<Longrightarrow> pool_run step init start env a r (cs, s) \<Longrightarrow> run_alone step fin (cs ! i) s = Some (c', s') \<Longrightarrow>
    \<exists>r'. pool_run step init start env a r' (cs[i := c'], s')"
proof (induction "work (cs ! i)" arbitrary: r cs s rule: less_induct)
  case less
  show ?case
  proof (cases "fin (cs ! i)")
    case True
    then show ?thesis using less.prems by auto
  next
    case False
    then obtain c1 s1 where s: "step (cs ! i) s = Some (c1, s1)" and run: "run_alone step fin c1 s1 = Some (c', s')"
      using less.prems(3) by (auto simp: run_alone_step split: bind_splits)
    have "pool_run step init start env a (Suc r) (cs[i := c1], s1)"
      using pool_step [OF less.prems(2,1) s] .
    then show ?thesis
      using less.hyps [of "cs[i := c1]" "Suc r" s1] step_work [OF s] less.prems(1) run by simp
  qed
qed

lemma task_completes:
  assumes "pool_run step init start env a r (cs, s)" "i < length cs"
  shows "\<exists>c' s' r'. run_alone step fin (cs ! i) s = Some (c', s') \<and> fin c'
    \<and> pool_run step init start env a r' (cs[i := c'], s')"
proof -
  have "inv s" "ok (cs ! i)" using pool_invariant [OF assms(1)] assms(2) by (auto simp: list_all_length)
  then show ?thesis using run_alone_completes pool_run_alone [OF assms(2,1)] by blast
qed

end

text \<open>
  Tasks that also start with a bounded amount of work: all of them together take a bounded
  number of steps.
\<close>

locale pool_bounded = pool_progress +
  fixes bound :: nat
  assumes start_work: "start s c s' \<Longrightarrow> work c \<le> bound"
begin

lemma pool_work: "pool_run step init start env a r p \<Longrightarrow> r + sum_list (map work (fst p)) \<le> bound * a"
proof (induction rule: pool_run.induct)
  case (pool_start a r cs s c s')
  then show ?case using start_work by fastforce
next
  case (pool_step a r cs s i c' s')
  then show ?case using sum_list_update_less [of i cs work c'] step_work [of "cs ! i" s c' s'] by simp
qed simp_all

end

end
