(* ===== verification/Clients.thy ===== *)
theory Clients
  imports Forward Tasks
begin

text \<open>
  Concurrent lookups on the shared cache. The server runs the lookups of
  \<open>src/core/resolver/forward.rs\<close> as tasks that share one cache behind a lock, which a
  lookup takes twice: to read and to store. Between the two, other lookups and the
  background prefetches run. Here a lookup is a sequence of steps, each with at most one
  access to the cache, and \<open>sys_reachable\<close> interleaves the steps of any number of lookups and
  prefetches with arrivals and with changes of the outside world.

  The lemmas show that a lookup that runs alone is \<open>forward_lookup\<close>, and what holds in
  every interleaving: the invariant of the cache, where its entries come from, and that
  no lookup is blocked or starved by the others.
\<close>

subsection \<open>Lookups in steps\<close>

datatype 'n client =
    CheckCache 'n record_type
  | QueryUpstream 'n record_type
  | Enrich 'n record_type "'n lookup"
  | Store 'n record_type "'n lookup" "'n rr list" "'n rr list"
  | Flatten 'n record_type "'n lookup" "'n rr list" "'n rr list"
  | AnyCheck 'n "record_type list"
  | AnyQuery 'n record_type "record_type list"
  | AnyStore 'n record_type "'n rr list"
  | PrefetchQuery 'n record_type
  | PrefetchStore 'n record_type "'n rr list"
  | Answered 'n record_type "(string, 'n lookup) result"
  | PrefetchDone

fun finished :: "'n client \<Rightarrow> bool" where
  "finished (Answered n t r) = True"
| "finished PrefetchDone = True"
| "finished c = False"

definition new_client :: "'n \<Rightarrow> record_type \<Rightarrow> 'n client" where
  "new_client n t = (if t = T_ANY then AnyCheck n [T_A, T_AAAA] else CheckCache n t)"

text \<open>
  DNS64, redirection records, the chain limit and rebinding detection: the synthesised
  records and, unless the chain is too long, all records to store.
\<close>

definition enrich ::
  "'n hickory \<Rightarrow> ('n, 'w) upstream \<Rightarrow> ('n, 're) forward_authority \<Rightarrow> 'n \<Rightarrow> record_type \<Rightarrow> 'n lookup
     \<Rightarrow> ('n, 'w) forward_state \<Rightarrow> 'n rr list \<times> 'n rr list option \<times> ('n, 'w) forward_state"
where
  "enrich h up fa fwd_name rtype lk st =
     (let (dns64, st1) = dns64_stage h up fa fwd_name rtype (lk_answers lk) st;
          records = dname_stage (lk_answers lk @ dns64) fwd_name;
          (truncated, m2) =
            (if fl_cname_cloaking (fa_filter fa) then cname_chain_truncated (fa_filter fa) (fw_metrics st1) records
             else (False, fw_metrics st1))
      in if truncated then (dns64, None, st1\<lparr>fw_metrics := m2\<rparr>)
         else (dns64, Some records, st1\<lparr>fw_metrics :=
           (if fl_rebinding (fa_filter fa) then snd (rebinding_detected (fa_filter fa) m2 records) else m2)\<rparr>))"

text \<open>
  One step of a lookup; \<open>None\<close> is a step that never ends, or no step at all. The
  scope of a client subnet is never extracted, so the key of an entry is name and type.
\<close>

fun client_step ::
  "'n hickory \<Rightarrow> ('w \<Rightarrow> nat) \<Rightarrow> ('n, 'w) upstream \<Rightarrow> ('n, 're) forward_authority \<Rightarrow> 'n client
     \<Rightarrow> ('n, 'w) forward_state \<Rightarrow> ('n client \<times> ('n, 'w) forward_state) option"
where
  "client_step h clock up fa (CheckCache n t) st =
     (case check_cache h clock (cache_key_of h n t None) n t st of
        (Some lk, st1) \<Rightarrow> Some (Answered n t (Inr lk), st1)
      | (None, st1) \<Rightarrow> Some (QueryUpstream n t, st1))"
| "client_step h clock up fa (QueryUpstream n t) st =
     (case forward_query h up fa (set_fqdn_false h n) t st of
        None \<Rightarrow> None
      | Some (Inl e, st1) \<Rightarrow> Some (Answered n t (Inl e), st1)
      | Some (Inr lk, st1) \<Rightarrow> Some (Enrich n t lk, st1))"
| "client_step h clock up fa (Enrich n t lk) st =
     (case enrich h up fa (set_fqdn_false h n) t lk st of
        (dns64, None, st1) \<Rightarrow> Some (Answered n t (Inl ''CNAME chain truncated (limit exceeded)''), st1)
      | (dns64, Some records, st1) \<Rightarrow> Some (Store n t lk dns64 records, st1))"
| "client_step h clock up fa (Store n t lk dns64 records) st =
     map_option (\<lambda>st1. (Flatten n t lk dns64 records, st1))
       (store_records h clock (cache_key_of h n t None) records st)"
| "client_step h clock up fa (Flatten n t lk dns64 records) st =
     (case flatten_stage h up records st of (records', st1) \<Rightarrow>
        Some (Answered n t (if dns64 \<noteq> [] then Inr (new_lookup (set_fqdn_false h n) t records') else Inr lk), st1))"
| "client_step h clock up fa (AnyCheck n []) st =
     Some (Answered n T_ANY (Inl ''RFC 8482: no address records for ANY query''), st)"
| "client_step h clock up fa (AnyCheck n (t # ts)) st =
     (case cached_bytes clock (cache_key_of h n t None) st of (hit, st1) \<Rightarrow>
        (case (case hit of None \<Rightarrow> None | Some bs \<Rightarrow> msg_from_vec h bs) of
           Some (r # rs) \<Rightarrow> Some (Answered n T_ANY (Inr (new_lookup n t (r # rs))), st1)
         | _ \<Rightarrow> Some (AnyQuery n t ts, st1)))"
| "client_step h clock up fa (AnyQuery n t ts) st =
     (case ask up (set_fqdn_false h n) t st of
        (Inl e, st1) \<Rightarrow> Some (AnyCheck n ts, st1)
      | (Inr lk, st1) \<Rightarrow>
          Some (if lk_answers lk = [] then AnyCheck n ts else AnyStore n t (lk_answers lk), st1))"
| "client_step h clock up fa (AnyStore n t records) st =
     map_option (\<lambda>st1. (Answered n T_ANY (Inr (new_lookup n t records)), st1))
       (store_records h clock (cache_key_of h n t None) records st)"
| "client_step h clock up fa (PrefetchQuery n t) st =
     (case ask up (set_fqdn_false h n) t st of
        (Inl e, st1) \<Rightarrow> Some (PrefetchDone, st1)
      | (Inr lk, st1) \<Rightarrow> Some (PrefetchStore n t (lk_answers lk), st1))"
| "client_step h clock up fa (PrefetchStore n t records) st =
     map_option (\<lambda>st1. (PrefetchDone, st1)) (store_records h clock (cache_key_of h n t None) records st)"
| "client_step h clock up fa (Answered n t r) st = None"
| "client_step h clock up fa PrefetchDone st = None"

text \<open>How many steps a lookup can still take.\<close>

fun client_work :: "'n client \<Rightarrow> nat" where
  "client_work (CheckCache n t) = 5"
| "client_work (QueryUpstream n t) = 4"
| "client_work (Enrich n t lk) = 3"
| "client_work (Store n t lk d rs) = 2"
| "client_work (Flatten n t lk d rs) = 1"
| "client_work (AnyCheck n ts) = Suc (2 * length ts)"
| "client_work (AnyQuery n t ts) = 2 + 2 * length ts"
| "client_work (AnyStore n t rs) = 1"
| "client_work (PrefetchQuery n t) = 2"
| "client_work (PrefetchStore n t rs) = 1"
| "client_work (Answered n t r) = 0"
| "client_work PrefetchDone = 0"

lemma client_step_work:
  "client_step h clock up fa c st = Some (c', st') \<Longrightarrow> client_work c' < client_work c"
  by (cases "(h, clock, up, fa, c, st)" rule: client_step.cases)
    (auto split: prod.splits option.splits sum.splits list.splits if_splits)

text \<open>A lookup that runs alone.\<close>

definition client_run ::
  "'n hickory \<Rightarrow> ('w \<Rightarrow> nat) \<Rightarrow> ('n, 'w) upstream \<Rightarrow> ('n, 're) forward_authority \<Rightarrow> 'n client
     \<Rightarrow> ('n, 'w) forward_state \<Rightarrow> ('n client \<times> ('n, 'w) forward_state) option"
where
  "client_run h clock up fa = run_alone (client_step h clock up fa) finished"

subsection \<open>A lookup that runs alone\<close>

lemma client_run_finished [simp]: "finished c \<Longrightarrow> client_run h clock up fa c st = Some (c, st)"
  by (simp add: client_run_def)

lemma client_run_step:
  "\<not> finished c \<Longrightarrow> client_run h clock up fa c st =
     Option.bind (client_step h clock up fa c st) (\<lambda>(c', st'). client_run h clock up fa c' st')"
  by (simp add: client_run_def run_alone_step)

lemma finish_lookup_steps:
  "client_run h clock up fa (Enrich n t lk) st =
     map_option (\<lambda>(r, st'). (Answered n t r, st'))
       (finish_lookup h clock up fa (cache_key_of h n t None) (set_fqdn_false h n) t lk st)"
  by (simp add: client_run_step enrich_def finish_lookup_def Let_def comp_def Option.map_conv_bind_option case_prod_beta)

lemma any_store_steps:
  "client_run h clock up fa (AnyStore n t rs) st =
     map_option (\<lambda>st'. (Answered n T_ANY (Inr (new_lookup n t rs)), st'))
       (store_records h clock (cache_key_of h n t None) rs st)"
  by (simp add: client_run_step Option.map_conv_bind_option comp_def)

lemma any_query_steps:
  "client_run h clock up fa (AnyQuery n t ts) st =
     (case ask up (set_fqdn_false h n) t st of
        (Inl e, st1) \<Rightarrow> client_run h clock up fa (AnyCheck n ts) st1
      | (Inr lk, st1) \<Rightarrow> if lk_answers lk = [] then client_run h clock up fa (AnyCheck n ts) st1
          else client_run h clock up fa (AnyStore n t (lk_answers lk)) st1)"
  by (simp add: client_run_step [of "AnyQuery n t ts"] split: prod.split sum.split)

lemma lookup_any_steps:
  "client_run h clock up fa (AnyCheck n ts) st =
     map_option (\<lambda>(r, st'). (Answered n T_ANY r, st')) (lookup_any_loop h clock up n ts st)"
proof (induction ts arbitrary: st)
  case Nil
  show ?case by (simp add: client_run_step)
next
  case (Cons t ts)
  show ?case
    by (simp add: client_run_step [of "AnyCheck n (t # ts)"] any_query_steps any_store_steps Cons.IH
        try_any_def Let_def Option.map_conv_bind_option comp_def split: prod.split option.split list.split sum.split)
qed

lemma client_run_lookup:
  "client_run h clock up fa (new_client n t) st =
     map_option (\<lambda>(r, st'). (Answered n t r, st')) (forward_lookup h clock up fa n t info st)"
proof (cases "t = T_ANY")
  case True
  then show ?thesis by (simp add: new_client_def lookup_any_steps forward_lookup_def lookup_any_def del: lookup_any_loop.simps)
next
  case False
  have "client_run h clock up fa (QueryUpstream n t) st1 =
      Option.bind (forward_query h up fa (set_fqdn_false h n) t st1) (\<lambda>(r, st2). case r of
          Inl e \<Rightarrow> Some (Answered n t (Inl e), st2)
        | Inr lk \<Rightarrow> client_run h clock up fa (Enrich n t lk) st2)" for st1
    by (simp add: client_run_step [of "QueryUpstream n t"] split: option.split prod.split sum.split)
  then show ?thesis
    using False
    by (simp add: new_client_def client_run_step [of "CheckCache n t"] forward_lookup_eq finish_lookup_steps
        Option.map_conv_bind_option split: prod.split option.split sum.split bind_split)
qed

lemma prefetch_steps:
  "client_run h clock up fa (PrefetchQuery n t) st =
     map_option (\<lambda>st'. (PrefetchDone, st')) (prefetch_task h clock up n t st)"
  by (simp add: client_run_step prefetch_task_def Option.map_conv_bind_option comp_def
      split: prod.split sum.split)

subsection \<open>What the cache serves\<close>

definition served :: "cache \<Rightarrow> cache_key \<Rightarrow> bytes option" where
  "served c k = map_option response_bytes (map_of (entries c) k)"

lemma served_new [simp]: "served (cache_new cfg) k = None"
  by (simp add: served_def cache_new_def)

lemma served_lookup:
  assumes "cache_lookup c k now = (r, c')"
  shows "served c' = served c" "map_option fst r = served c k"
  using assms by (auto simp: cache_lookup_def served_def map_of_update_entry Let_def fun_eq_iff split: option.splits)

lemma served_cached_bytes:
  assumes "cached_bytes clock k st = (hit, st')"
  shows "served (fw_cache st') = served (fw_cache st)" "hit = served (fw_cache st) k"
proof -
  obtain r c' where l: "cache_lookup (fw_cache st) k (clock (fw_world st)) = (r, c')" by fastforce
  have "served (c'\<lparr>cache_misses := x\<rparr>) = served c'" for x by (simp add: served_def fun_eq_iff)
  with assms l served_lookup [OF l]
  show "served (fw_cache st') = served (fw_cache st)" "hit = served (fw_cache st) k"
    by (auto simp: cached_bytes_def lookup_with_metrics_def record_miss_def split: option.splits)
qed

lemma evict_lru_served: "served (evict_lru c) k = Some bs \<Longrightarrow> served c k = Some bs"
  by (auto simp: served_def evict_lru_def AList.delete_conv split: list.splits if_splits)

lemma evict_while_full_served:
  assumes "evict_while_full c = Some c'" "served c' k = Some bs"
  shows "served c k = Some bs"
proof -
  have "served c' k = Some bs \<longrightarrow> served c k = Some bs"
    by (rule evict_while_full.raw_induct [OF _ assms(1)]) (metis evict_lru_served option.inject)
  then show ?thesis using assms(2) by blast
qed

lemma served_insert:
  assumes "cache_insert c key bs ttl now = Some c'" "served c' k = Some bs'"
  shows "(k = key \<and> bs' = bs) \<or> served c k = Some bs'"
proof -
  obtain d where d: "evict_while_full c = Some d" "c' = put_entry d key (new_entry bs ttl now)"
    using assms(1) by (auto simp: cache_insert_def)
  show ?thesis
    using assms(2) evict_while_full_served [OF d(1), of k bs']
    by (auto simp: d(2) put_entry_def served_def update_conv new_entry_def Let_def split: if_splits)
qed

lemma served_store:
  assumes "store_records h clock key rs st = Some st'" "served (fw_cache st') k = Some bs"
  shows "(k = key \<and> msg_to_vec h rs = Some bs) \<or> served (fw_cache st) k = Some bs"
  using assms by (auto simp: store_records_def dest: served_insert split: option.splits)

subsection \<open>The system\<close>

type_synonym ('n, 'w) system = "'n client list \<times> ('n, 'w) forward_state"

text \<open>
  Tasks start with the arrival of a query and when a prefetch that was spawned begins to
  run; from outside, the world changes.
\<close>

definition sys_init :: "cache_config \<Rightarrow> ('n, 'w) forward_state \<Rightarrow> bool" where
  "sys_init cfg st \<longleftrightarrow> fw_cache st = cache_new cfg \<and> fw_tasks st = []"

inductive sys_start :: "('n, 'w) forward_state \<Rightarrow> 'n client \<Rightarrow> ('n, 'w) forward_state \<Rightarrow> bool" where
  arrive: "sys_start st (new_client n t) st"
| spawn: "fw_tasks st = ts @ (n, t) # ts' \<Longrightarrow> sys_start st (PrefetchQuery n t) (st\<lparr>fw_tasks := ts @ ts'\<rparr>)"

inductive sys_env :: "('n, 'w) forward_state \<Rightarrow> ('n, 'w) forward_state \<Rightarrow> bool" where
  world: "sys_env st (st\<lparr>fw_world := w\<rparr>)"

text \<open>
  \<open>sys_reachable h clock up fa cfg a r s\<close>: from an empty cache, the system came to \<open>s\<close>
  after \<open>a\<close> lookups and prefetches were started, which took \<open>r\<close> steps together.
\<close>

definition sys_reachable ::
  "'n hickory \<Rightarrow> ('w \<Rightarrow> nat) \<Rightarrow> ('n, 'w) upstream \<Rightarrow> ('n, 're) forward_authority \<Rightarrow> cache_config
     \<Rightarrow> nat \<Rightarrow> nat \<Rightarrow> ('n, 'w) system \<Rightarrow> bool"
where
  "sys_reachable h clock up fa cfg = pool_run (client_step h clock up fa) (sys_init cfg) sys_start sys_env"

subsection \<open>The cache in every interleaving\<close>

lemma enrich_frame:
  "enrich h up fa n t lk st = (d, r, st') \<Longrightarrow> fw_cache st' = fw_cache st"
  by (auto simp: enrich_def Let_def dest: dns64_stage_frame split: prod.splits if_splits)

lemma store_records_reachable:
  assumes "store_records h clock key rs st = Some st'" "cache_reachable cfg (fw_cache st)"
  shows "cache_reachable cfg (fw_cache st')"
  using assms reach_step step_insert by (fastforce simp: store_records_def split: option.splits)

lemma forward_query_frame:
  "forward_query h up fa n t st = Some (r, st') \<Longrightarrow> fw_cache st' = fw_cache st"
  by (auto simp: forward_query_def dest: ask_frame split: if_splits)

lemma check_cache_served:
  assumes "check_cache h clock key n t st = (r, st')"
  shows "served (fw_cache st') = served (fw_cache st)"
    "r = Some lk \<Longrightarrow> \<exists>bs rs. served (fw_cache st) key = Some bs \<and> msg_from_vec h bs = Some rs \<and> lk = new_lookup n t rs"
proof -
  obtain hit st1 where cb: "cached_bytes clock key st = (hit, st1)" by fastforce
  show "served (fw_cache st') = served (fw_cache st)"
    using assms served_cached_bytes(1) [OF cb] cb by (auto simp: check_cache_def Let_def split: option.splits)
  show "r = Some lk \<Longrightarrow> \<exists>bs rs. served (fw_cache st) key = Some bs \<and> msg_from_vec h bs = Some rs \<and> lk = new_lookup n t rs"
    using assms served_cached_bytes(2) [OF cb] cb by (auto simp: check_cache_def Let_def split: option.splits)
qed

lemma client_step_cache_reachable:
  assumes "client_step h clock up fa c st = Some (c', st')" "cache_reachable cfg (fw_cache st)"
  shows "cache_reachable cfg (fw_cache st')"
  using assms
  by (cases "(h, clock, up, fa, c, st)" rule: client_step.cases)
    (auto dest: check_cache_frame(2) forward_query_frame enrich_frame store_records_reachable flatten_stage_frame
      cached_bytes_frame(3) ask_frame(1) split: prod.splits option.splits sum.splits list.splits)

subsection \<open>Where answers come from\<close>

text \<open>
  Records that the upstream gave for a name and type, in some state of the outside world:
  as a lookup asks for them, with the records added by DNS64 and for redirections, and
  as prefetches and queries of type ANY ask for them.
\<close>

definition upstream_answer ::
  "'n hickory \<Rightarrow> ('n, 'w) upstream \<Rightarrow> ('n, 're) forward_authority \<Rightarrow> 'n \<Rightarrow> record_type \<Rightarrow> 'n lookup \<Rightarrow> bool"
where
  "upstream_answer h up fa n t lk \<longleftrightarrow>
     (\<exists>st st'. forward_query h up fa (set_fqdn_false h n) t st = Some (Inr lk, st'))"

definition enriched_answer ::
  "'n hickory \<Rightarrow> ('n, 'w) upstream \<Rightarrow> ('n, 're) forward_authority \<Rightarrow> 'n \<Rightarrow> record_type
     \<Rightarrow> 'n lookup \<Rightarrow> 'n rr list \<Rightarrow> 'n rr list \<Rightarrow> bool"
where
  "enriched_answer h up fa n t lk d rs \<longleftrightarrow> upstream_answer h up fa n t lk
     \<and> (\<exists>st st'. enrich h up fa (set_fqdn_false h n) t lk st = (d, Some rs, st'))"

definition direct_answer :: "'n hickory \<Rightarrow> ('n, 'w) upstream \<Rightarrow> 'n \<Rightarrow> record_type \<Rightarrow> 'n rr list \<Rightarrow> bool" where
  "direct_answer h up n t rs \<longleftrightarrow>
     (\<exists>w lk w'. up (set_fqdn_false h n) t w = (Inr lk, w') \<and> rs = lk_answers lk)"

definition origin ::
  "'n hickory \<Rightarrow> ('n, 'w) upstream \<Rightarrow> ('n, 're) forward_authority \<Rightarrow> cache_key \<Rightarrow> 'n rr list \<Rightarrow> bool"
where
  "origin h up fa k rs \<longleftrightarrow> (\<exists>n t. k = cache_key_of h n t None
     \<and> ((\<exists>lk d. enriched_answer h up fa n t lk d rs) \<or> direct_answer h up n t rs))"

text \<open>What may be answered to a query of a name and type.\<close>

definition legitimate ::
  "'n hickory \<Rightarrow> ('n, 'w) upstream \<Rightarrow> ('n, 're) forward_authority \<Rightarrow> 'n \<Rightarrow> record_type \<Rightarrow> 'n lookup \<Rightarrow> bool"
where
  "legitimate h up fa n t lk \<longleftrightarrow>
     upstream_answer h up fa n t lk
     \<or> (\<exists>t'\<in>(if t = T_ANY then {T_A, T_AAAA} else {t}). origin h up fa (cache_key_of h n t' None) (lk_answers lk))
     \<or> (\<exists>lk0 d rs st st'. enriched_answer h up fa n t lk0 d rs \<and> d \<noteq> []
          \<and> flatten_stage h up rs st = (lk_answers lk, st'))"

definition cache_genuine ::
  "'n hickory \<Rightarrow> ('n, 'w) upstream \<Rightarrow> ('n, 're) forward_authority \<Rightarrow> cache \<Rightarrow> bool"
where
  "cache_genuine h up fa c \<longleftrightarrow>
     (\<forall>k bs. served c k = Some bs \<longrightarrow> (\<exists>rs. origin h up fa k rs \<and> msg_to_vec h rs = Some bs))"

fun client_genuine ::
  "'n hickory \<Rightarrow> ('n, 'w) upstream \<Rightarrow> ('n, 're) forward_authority \<Rightarrow> 'n client \<Rightarrow> bool"
where
  "client_genuine h up fa (Enrich n t lk) \<longleftrightarrow> upstream_answer h up fa n t lk"
| "client_genuine h up fa (Store n t lk d rs) \<longleftrightarrow> enriched_answer h up fa n t lk d rs"
| "client_genuine h up fa (Flatten n t lk d rs) \<longleftrightarrow> enriched_answer h up fa n t lk d rs"
| "client_genuine h up fa (CheckCache n t) \<longleftrightarrow> t \<noteq> T_ANY"
| "client_genuine h up fa (AnyCheck n ts) \<longleftrightarrow> set ts \<subseteq> {T_A, T_AAAA}"
| "client_genuine h up fa (AnyQuery n t ts) \<longleftrightarrow> set (t # ts) \<subseteq> {T_A, T_AAAA}"
| "client_genuine h up fa (AnyStore n t rs) \<longleftrightarrow> t \<in> {T_A, T_AAAA} \<and> direct_answer h up n t rs"
| "client_genuine h up fa (PrefetchStore n t rs) \<longleftrightarrow> direct_answer h up n t rs"
| "client_genuine h up fa (Answered n t (Inr lk)) \<longleftrightarrow> legitimate h up fa n t lk"
| "client_genuine h up fa c \<longleftrightarrow> True"

lemma ask_direct:
  "ask up (set_fqdn_false h n) t st = (Inr lk, st') \<Longrightarrow> direct_answer h up n t (lk_answers lk)"
  by (auto simp: ask_def direct_answer_def split: prod.splits)

lemma origin_direct: "direct_answer h up n t rs \<Longrightarrow> origin h up fa (cache_key_of h n t None) rs"
  by (auto simp: origin_def)

lemma origin_enriched: "enriched_answer h up fa n t lk d rs \<Longrightarrow> origin h up fa (cache_key_of h n t None) rs"
  by (auto simp: origin_def)

lemma genuine_served:
  assumes "codec_law h" "cache_genuine h up fa c" "served c k = Some bs" "msg_from_vec h bs = Some rs"
  shows "origin h up fa k rs"
  using assms by (fastforce simp: cache_genuine_def codec_law_def)

lemma genuine_store:
  assumes "store_records h clock (cache_key_of h n t None) rs st = Some st'"
    and "origin h up fa (cache_key_of h n t None) rs" "cache_genuine h up fa (fw_cache st)"
  shows "cache_genuine h up fa (fw_cache st')"
  using assms by (auto simp: cache_genuine_def dest!: served_store [OF assms(1)])

lemma genuine_cong: "served c = served c' \<Longrightarrow> cache_genuine h up fa c \<longleftrightarrow> cache_genuine h up fa c'"
  by (simp add: cache_genuine_def)

lemma client_step_genuine:
  assumes "codec_law h" "client_step h clock up fa c st = Some (c', st')"
    and "client_genuine h up fa c" "cache_genuine h up fa (fw_cache st)"
  shows "client_genuine h up fa c' \<and> cache_genuine h up fa (fw_cache st')"
proof (cases c)
  case (CheckCache n t)
  obtain r st1 where r: "check_cache h clock (cache_key_of h n t None) n t st = (r, st1)" by fastforce
  have g: "cache_genuine h up fa (fw_cache st1)"
    using assms(4) genuine_cong [OF check_cache_served(1) [OF r], of h up fa] by simp
  show ?thesis
  proof (cases r)
    case None
    then show ?thesis using assms(2) CheckCache r g by auto
  next
    case (Some lk)
    then have "origin h up fa (cache_key_of h n t None) (lk_answers lk)"
      using check_cache_served(2) [OF r Some] genuine_served [OF assms(1,4)] by (auto simp: new_lookup_def)
    then show ?thesis using assms(2,3) CheckCache r g Some by (auto simp: legitimate_def)
  qed
next
  case (QueryUpstream n t)
  then show ?thesis
    using assms forward_query_frame by (fastforce simp: upstream_answer_def split: option.splits prod.splits sum.splits)
next
  case (Enrich n t lk)
  then show ?thesis
    using assms enrich_frame by (fastforce simp: enriched_answer_def split: option.splits prod.splits)
next
  case (Store n t lk d rs)
  then show ?thesis using assms genuine_store origin_enriched by fastforce
next
  case (Flatten n t lk d rs)
  obtain rs' st1 where f: "flatten_stage h up rs st = (rs', st1)" by fastforce
  have e: "enriched_answer h up fa n t lk d rs" and u: "upstream_answer h up fa n t lk"
    using assms(3) Flatten by (simp_all add: enriched_answer_def)
  have "legitimate h up fa n t (if d \<noteq> [] then new_lookup (set_fqdn_false h n) t rs' else lk)"
  proof (cases "d = []")
    case False
    have "\<exists>lk0 d rs st st1. enriched_answer h up fa n t lk0 d rs \<and> d \<noteq> [] \<and> flatten_stage h up rs st = (rs', st1)"
      by (intro exI [of _ lk] exI [of _ d] exI [of _ rs] exI [of _ st] exI [of _ st1] conjI e f False)
    then show ?thesis using False by (simp add: legitimate_def new_lookup_def)
  qed (simp add: legitimate_def u)
  then show ?thesis using assms(2,4) Flatten f flatten_stage_frame [OF f] by (auto split: if_splits)
next
  case (AnyCheck n ts)
  show ?thesis
  proof (cases ts)
    case Nil
    then show ?thesis using assms AnyCheck by auto
  next
    case (Cons t ts')
    obtain hit st1 where cb: "cached_bytes clock (cache_key_of h n t None) st = (hit, st1)" by fastforce
    have g: "cache_genuine h up fa (fw_cache st1)"
      using assms(4) genuine_cong [OF served_cached_bytes(1) [OF cb], of h up fa] by simp
    show ?thesis
      using assms(2,3) AnyCheck Cons cb g served_cached_bytes(2) [OF cb] genuine_served [OF assms(1,4)]
      by (auto simp: legitimate_def new_lookup_def split: option.splits list.splits)
  qed
next
  case (AnyQuery n t ts)
  then show ?thesis
    using assms ask_direct ask_frame(1) by (fastforce split: prod.splits sum.splits if_splits)
next
  case (AnyStore n t rs)
  then show ?thesis
    using assms genuine_store origin_direct by (fastforce simp: legitimate_def new_lookup_def)
next
  case (PrefetchQuery n t)
  then show ?thesis
    using assms ask_direct ask_frame(1) by (fastforce split: prod.splits sum.splits)
next
  case (PrefetchStore n t rs)
  then show ?thesis using assms genuine_store origin_direct by fastforce
qed (use assms in simp_all)

text \<open>
  The laws of the pool: the cache is reachable by its own operations and, if the codec is
  faithful, it and the tasks hold genuine records only.
\<close>

definition sys_inv ::
  "'n hickory \<Rightarrow> ('n, 'w) upstream \<Rightarrow> ('n, 're) forward_authority \<Rightarrow> cache_config \<Rightarrow> ('n, 'w) forward_state \<Rightarrow> bool"
where
  "sys_inv h up fa cfg st \<longleftrightarrow> cache_reachable cfg (fw_cache st)
     \<and> (codec_law h \<longrightarrow> cache_genuine h up fa (fw_cache st))"

definition task_inv :: "'n hickory \<Rightarrow> ('n, 'w) upstream \<Rightarrow> ('n, 're) forward_authority \<Rightarrow> 'n client \<Rightarrow> bool" where
  "task_inv h up fa c \<longleftrightarrow> (codec_law h \<longrightarrow> client_genuine h up fa c)"

lemma sys_inv_start:
  "sys_inv h up fa cfg st \<Longrightarrow> sys_start st c st' \<Longrightarrow> sys_inv h up fa cfg st' \<and> task_inv h up fa c"
  by (auto simp: sys_inv_def task_inv_def new_client_def elim!: sys_start.cases)

lemma sys_inv_step:
  "sys_inv h up fa cfg st \<Longrightarrow> task_inv h up fa c \<Longrightarrow> client_step h clock up fa c st = Some (c', st') \<Longrightarrow>
    sys_inv h up fa cfg st' \<and> task_inv h up fa c'"
  using client_step_genuine [of h clock up fa c st c' st'] client_step_cache_reachable [of h clock up fa c st c' st' cfg]
  by (auto simp: sys_inv_def task_inv_def)

lemma sys_inv_env: "sys_inv h up fa cfg st \<Longrightarrow> sys_env st st' \<Longrightarrow> sys_inv h up fa cfg st'"
  by (auto simp: sys_inv_def elim!: sys_env.cases)

lemma sys_inv_init: "sys_init cfg st \<Longrightarrow> sys_inv h up fa cfg st"
  by (simp add: sys_init_def sys_inv_def reach_new cache_genuine_def)

interpretation lookups: pool_safety "client_step h clock up fa" "sys_init cfg" sys_start sys_env
    "sys_inv h up fa cfg" "task_inv h up fa"
  for h clock up fa cfg
  by (rule pool_safety.intro; elim sys_inv_init sys_inv_start sys_inv_step sys_inv_env)

lemma sys_invariant:
  "sys_reachable h clock up fa cfg a r (cs, st) \<Longrightarrow> sys_inv h up fa cfg st \<and> list_all (task_inv h up fa) cs"
  using lookups.pool_invariant [of h clock up fa cfg a r "(cs, st)"] by (simp add: sys_reachable_def)

subsection \<open>Progress\<close>

lemma client_step_progress:
  assumes "name_laws h labels" "cache_reachable cfg (fw_cache st)" "0 < cache_size cfg" "\<not> finished c"
  shows "\<exists>c' st'. client_step h clock up fa c st = Some (c', st')"
proof -
  have store: "\<exists>st'. store_records h clock key rs st = Some st'" for key rs
    using store_records_spec [OF assms(2,3)] by blast
  have query: "\<exists>r st'. forward_query h up fa n t st = Some (r, st')" for n t
    using forward_query_spec [OF assms(1)] by blast
  show ?thesis
  proof (cases c)
    case (QueryUpstream n t)
    then show ?thesis using query [of "set_fqdn_false h n" t] by (auto split: sum.splits)
  next
    case (AnyCheck n ts)
    then show ?thesis by (cases ts) (auto split: prod.splits option.splits list.splits)
  qed (use assms(4) store in \<open>auto split: prod.splits option.splits sum.splits\<close>)
qed

lemma sys_start_work: "sys_start st c st' \<Longrightarrow> client_work c \<le> 5"
  by (auto simp: new_client_def elim!: sys_start.cases)

text \<open>
  Progress needs names that lose their labels one by one and room for one entry; both are
  part of what the pool starts from.
\<close>

definition live_init :: "'n hickory \<Rightarrow> ('n \<Rightarrow> string list) \<Rightarrow> cache_config \<Rightarrow> ('n, 'w) forward_state \<Rightarrow> bool" where
  "live_init h labels cfg st \<longleftrightarrow> name_laws h labels \<and> 0 < cache_size cfg \<and> sys_init cfg st"

definition live_inv ::
  "'n hickory \<Rightarrow> ('n, 'w) upstream \<Rightarrow> ('n, 're) forward_authority \<Rightarrow> ('n \<Rightarrow> string list) \<Rightarrow> cache_config
     \<Rightarrow> ('n, 'w) forward_state \<Rightarrow> bool"
where
  "live_inv h up fa labels cfg st \<longleftrightarrow> name_laws h labels \<and> 0 < cache_size cfg \<and> sys_inv h up fa cfg st"

lemma live_step:
  "live_inv h up fa labels cfg st \<Longrightarrow> \<not> finished c \<Longrightarrow> \<exists>c' st'. client_step h clock up fa c st = Some (c', st')"
  unfolding live_inv_def sys_inv_def using client_step_progress by blast

interpretation live_lookups: pool_bounded "client_step h clock up fa" "live_init h labels cfg" sys_start sys_env
    "live_inv h up fa labels cfg" "task_inv h up fa" finished client_work 5
  for h clock up fa labels cfg
proof unfold_locales
  show "live_inv h up fa labels cfg s" if "live_init h labels cfg s" for s
    using that sys_inv_init by (auto simp: live_init_def live_inv_def)
  show "live_inv h up fa labels cfg s' \<and> task_inv h up fa c"
    if "live_inv h up fa labels cfg s" "sys_start s c s'" for s c s'
    using that sys_inv_start unfolding live_inv_def by blast
  show "live_inv h up fa labels cfg s' \<and> task_inv h up fa c'"
    if "live_inv h up fa labels cfg s" "task_inv h up fa c" "client_step h clock up fa c s = Some (c', s')"
    for s c c' s'
    using that sys_inv_step unfolding live_inv_def by blast
  show "live_inv h up fa labels cfg s'" if "live_inv h up fa labels cfg s" "sys_env s s'" for s s'
    using that sys_inv_env unfolding live_inv_def by blast
qed (simp_all add: client_step_work sys_start_work live_step)

lemma sys_live:
  assumes "name_laws h labels" "0 < cache_size cfg"
  shows "sys_reachable h clock up fa cfg = pool_run (client_step h clock up fa) (live_init h labels cfg) sys_start sys_env"
  by (simp add: sys_reachable_def live_init_def [abs_def] assms)

lemma sys_run_client:
  assumes "name_laws h labels" "0 < cache_size cfg" "sys_reachable h clock up fa cfg a r (cs, st)"
    and "i < length cs" "client_run h clock up fa (cs ! i) st = Some (c', st')"
  shows "\<exists>r'. sys_reachable h clock up fa cfg a r' (cs[i := c'], st')"
  using assms(3-5) unfolding sys_live [OF assms(1,2)] client_run_def
  by (intro live_lookups.pool_run_alone) simp_all

lemma sys_arrive:
  "sys_reachable h clock up fa cfg a r (cs, st) \<Longrightarrow>
    sys_reachable h clock up fa cfg (Suc a) r (cs @ [new_client n t], st)"
  unfolding sys_reachable_def by (erule pool_start) (rule sys_start.arrive)

subsection \<open>Properties\<close>



definition demo_system :: "(string list, nat) system" where
  "demo_system = ([new_client [''ads''] T_A, new_client [''ads''] T_ANY], demo_state)"

lemma demo_system_reachable:
  "sys_reachable h clock up fa (demo_cfg 2) 2 0 demo_system"
proof -
  have "sys_reachable h clock up fa (demo_cfg 2) 0 0 ([], demo_state)"
    unfolding sys_reachable_def by (rule pool_init) (simp add: sys_init_def demo_state_def)
  from sys_arrive [OF sys_arrive [OF this]] show ?thesis by (simp add: demo_system_def numeral_2_eq_2)
qed


text \<open>
  C5. No lookup is blocked or starved: in every reachable state every lookup can be run to its
  answer by its own steps alone, whatever the others are doing, and the system may go
  there; and all interleavings together take at most five steps per lookup or prefetch
  that was started.
\<close>

theorem concurrent_lookups_complete:
  assumes "name_laws h labels" "0 < cache_size cfg" "sys_reachable h clock up fa cfg a r (cs, st)" "i < length cs"
  shows "(\<exists>c' st' r'. client_run h clock up fa (cs ! i) st = Some (c', st') \<and> finished c'
      \<and> sys_reachable h clock up fa cfg a r' (cs[i := c'], st')) \<and> r \<le> 5 * a"
proof -
  note run = assms(3) [unfolded sys_live [OF assms(1,2)]]
  show ?thesis
    using live_lookups.task_completes [OF run assms(4)] live_lookups.pool_work [OF run]
    by (simp add: client_run_def sys_live [OF assms(1,2)])
qed

theorem concurrent_lookups_complete_witness:
  "\<exists>c' st' r'. client_run (list_hickory []) (\<lambda>w. w) demo_up demo_authority (new_client [''ads''] T_ANY) demo_state
      = Some (c', st') \<and> finished c'
    \<and> sys_reachable (list_hickory []) (\<lambda>w. w) demo_up demo_authority (demo_cfg 2) 2 r'
        ([new_client [''ads''] T_A, c'], st')"
  using concurrent_lookups_complete [OF list_hickory_names demo_state_reachable(2)
      demo_system_reachable [unfolded demo_system_def], of 1]
  by simp

text \<open>
  C19. A prefetch undoes what lookups add. After a prefetch of a name and type whose upstream
  answer can be encoded, clients are given the upstream's records as they came, from the
  cache: without the records of DNS64 and of redirections that the lookup before had
  stored, and without the test of the chain limit.
\<close>

theorem prefetch_serves_raw_answer:
  assumes "codec_law h" "t \<noteq> T_ANY" "up (set_fqdn_false h n) t (fw_world st) = (Inr lk, w)"
    and "msg_to_vec h (lk_answers lk) = Some bs" "prefetch_task h clock up n t st = Some st'"
  shows "\<exists>st2. forward_lookup h clock up fa n t info st' = Some (Inr (new_lookup n t (lk_answers lk)), st2)
    \<and> fw_world st2 = fw_world st'"
proof -
  have "store_records h clock (cache_key_of h n t None) (lk_answers lk) (st\<lparr>fw_world := w\<rparr>) = Some st'"
    using assms(3,5) by (simp add: prefetch_task_def ask_def)
  then obtain e where "map_of (entries (fw_cache st')) (cache_key_of h n t None) = Some e" "response_bytes e = bs"
    using assms(4) by (auto simp: store_records_def cache_insert_def new_entry_def)
  then obtain st2 where "check_cache h clock (cache_key_of h n t None) n t st' = (Some (new_lookup n t (lk_answers lk)), st2)"
    "fw_world st2 = fw_world st'"
    using check_cache_hit [of st' "cache_key_of h n t None" e h "lk_answers lk"] assms(1,4)
    unfolding codec_law_def by metis
  then show ?thesis by (simp add: forward_lookup_eq [OF assms(2)])
qed

text \<open>
  A forwarder with DNS64: the address of an A record is given to a client that asks for AAAA,
  and after the prefetch the answer is empty.
\<close>

definition dns64_authority :: "(string list, string) forward_authority" where
  "dns64_authority = demo_authority\<lparr>fa_dns64_prefix := dns64_parse ''64:ff9b::/96''\<rparr>"

definition v4_only_up :: "(string list, nat) upstream" where
  "v4_only_up n t w = (Inr (new_lookup n t (if t = T_A then demo_answer n else [])), Suc w)"

theorem prefetch_serves_raw_answer_witness:
  "\<exists>st' st2. prefetch_task (list_hickory []) (\<lambda>w. w) v4_only_up [''ads''] T_AAAA demo_state = Some st'
    \<and> forward_lookup (list_hickory []) (\<lambda>w. w) v4_only_up dns64_authority [''ads''] T_AAAA (None :: unit option) st'
        = Some (Inr (new_lookup [''ads''] T_AAAA []), st2)"
proof -
  let ?h = "list_hickory []" and ?st = "demo_state\<lparr>fw_world := Suc 0\<rparr>"
  have a: "v4_only_up (set_fqdn_false ?h [''ads'']) T_AAAA (fw_world demo_state)
      = (Inr (new_lookup [''ads''] T_AAAA []), Suc 0)"
    by (simp add: v4_only_up_def list_hickory_def demo_state_def)
  obtain st' where "store_records ?h (\<lambda>w. w) (cache_key_of ?h [''ads''] T_AAAA None) [] ?st = Some st'"
    using store_records_spec [of "demo_cfg 2" ?st] demo_state_reachable by fastforce
  then have p: "prefetch_task ?h (\<lambda>w. w) v4_only_up [''ads''] T_AAAA demo_state = Some st'"
    using a by (simp add: prefetch_task_def ask_def new_lookup_def)
  show ?thesis
    using prefetch_serves_raw_answer [OF list_hickory_codec _ a _ p, of "[1]" dns64_authority "None :: unit option"] p
    by (auto simp: new_lookup_def list_hickory_def)
qed

end
