(* ===== verification/Proxy.thy ===== *)
theory Proxy
  imports NetAddr
begin

text \<open>
  The PROXY protocol parser of \<open>src/net/proxy.rs\<close>, versions 1 (text) and 2
  (binary). Errors are the messages of the source.
\<close>

datatype proxy_version = PV1 | PV2
datatype proxy_command = CmdProxy | CmdLocal

record proxy_info =
  pi_version :: proxy_version
  pi_command :: proxy_command
  pi_source :: socket_addr

definition V1_PREFIX :: bytes where
  "V1_PREFIX = str_to_bytes ''PROXY ''"

definition V2_SIGNATURE :: bytes where
  "V2_SIGNATURE = [13, 10, 13, 10, 0, 13, 10, 81, 85, 73, 84, 10]"

definition bytes_start_with :: "bytes \<Rightarrow> bytes \<Rightarrow> bool" where
  "bytes_start_with p buf = (take (length p) buf = p)"

text \<open>\<open>windows(2).position(|w| w == b"\r\n")\<close>\<close>

fun crlf_position :: "bytes \<Rightarrow> nat option" where
  "crlf_position (a # b # r) =
     (if a = 13 \<and> b = 10 then Some 0 else map_option Suc (crlf_position (b # r)))"
| "crlf_position _ = None"

definition v1_source ::
  "string \<Rightarrow> (string \<Rightarrow> 'a option) \<Rightarrow> ('a \<Rightarrow> u16 \<Rightarrow> socket_addr) \<Rightarrow> string list
     \<Rightarrow> (string, proxy_info option) result" where
  "v1_source proto parse mk parts =
     (if length parts < 5 then
        Inl (''proxy v1 '' @ proto @ '': expected 5 fields, got '' @ show_nat (length parts))
      else
        try_bind (ok_or (''proxy v1 '' @ proto @ '': bad source IP'') (parse (parts ! 2))) (\<lambda>src_ip.
        try_bind (ok_or (''proxy v1 '' @ proto @ '': bad source port'') (parse_u16 (parts ! 4))) (\<lambda>src_port.
        Inr (Some \<lparr>pi_version = PV1, pi_command = CmdProxy, pi_source = mk src_ip src_port\<rparr>))))"

definition parse_v1 :: "bytes \<Rightarrow> (string, proxy_info option) result" where
  "parse_v1 buf =
     try_bind (ok_or ''proxy v1: missing CRLF terminator'' (crlf_position buf)) (\<lambda>crlf_pos.
     try_bind (ok_or ''proxy v1: header is not valid UTF-8'' (from_utf8 (take crlf_pos buf))) (\<lambda>header.
       let parts = split_on (CHR '' '') header
       in if length parts < 2 then Inl ''proxy v1: header too short''
          else let proto = parts ! 1
            in if proto = ''UNKNOWN'' then Inr None
               else if proto = ''TCP4'' then v1_source ''TCP4'' parse_ipv4 SockV4 parts
               else if proto = ''TCP6'' then v1_source ''TCP6'' parse_ipv6 (\<lambda>ip p. SockV6 ip p 0 0) parts
               else Inl (''proxy v1: unsupported protocol '' @ proto)))"

definition show_hex2 :: "u8 \<Rightarrow> string" where
  "show_hex2 b = (let s = show_radix 16 (unat b) in if length s < 2 then CHR ''0'' # s else s)"

definition parse_v2 :: "bytes \<Rightarrow> (string, proxy_info option) result" where
  "parse_v2 buf =
     (if length buf < 16 then Inl (''proxy v2: header too short ('' @ show_nat (length buf) @ '' < 16)'')
      else
        let ver_cmd = buf ! 12;
            version = drop_bit 4 ver_cmd AND 0x0F;
            command = ver_cmd AND 0x0F
        in if version \<noteq> 2 then Inl (''proxy v2: unsupported version '' @ show_nat (unat version))
           else try_bind (if command = 0 then Inr CmdProxy else if command = 1 then Inr CmdLocal
               else Inl (''proxy v2: unsupported command '' @ show_nat (unat command))) (\<lambda>proxy_cmd.
             let family = buf ! 13;
                 addr_len = unat (u16_from_be_bytes (buf ! 14) (buf ! 15))
             in if length buf < 16 + addr_len then
                  Inl (''proxy v2: header too short for address data ('' @ show_nat (length buf)
                    @ '' < '' @ show_nat (16 + addr_len) @ '')'')
                else
                  let addr_data = take addr_len (drop 16 buf)
                  in if family = 0x10 then
                       (if addr_len < 12 then
                          Inl (''proxy v2 TCP4: addr_len too short ('' @ show_nat addr_len @ '' < 12)'')
                        else Inr (Some \<lparr>pi_version = PV2, pi_command = proxy_cmd,
                          pi_source = SockV4 (ipv4_new (addr_data ! 0) (addr_data ! 1) (addr_data ! 2) (addr_data ! 3))
                            (u16_from_be_bytes (addr_data ! 8) (addr_data ! 9))\<rparr>))
                     else if family = 0x20 then
                       (if addr_len < 36 then
                          Inl (''proxy v2 TCP6: addr_len too short ('' @ show_nat addr_len @ '' < 36)'')
                        else Inr (Some \<lparr>pi_version = PV2, pi_command = proxy_cmd,
                          pi_source = SockV6 (ipv6_from_octets (take 16 addr_data))
                            (u16_from_be_bytes (addr_data ! 32) (addr_data ! 33)) 0 0\<rparr>))
                     else if family = 0x00 then
                       Inr (Some \<lparr>pi_version = PV2, pi_command = proxy_cmd, pi_source = SockV4 0 0\<rparr>)
                     else if family = 0x30 \<or> family = 0x31 then Inr None
                     else Inl (''proxy v2: unsupported family 0x'' @ show_hex2 family)))"

definition parse_proxy_header :: "bytes \<Rightarrow> (string, proxy_info option) result" where
  "parse_proxy_header buf =
     (if bytes_start_with V2_SIGNATURE buf then parse_v2 buf
      else if bytes_start_with V1_PREFIX buf then parse_v1 buf
      else Inr None)"

subsection \<open>Headers\<close>

definition v2_header :: "u8 \<Rightarrow> u8 \<Rightarrow> bytes \<Rightarrow> bytes" where
  "v2_header command family addr =
     V2_SIGNATURE @ [0x20 OR command, family] @ u16_to_be_bytes (of_nat (length addr)) @ addr"

definition v1_header :: "string \<Rightarrow> string \<Rightarrow> string \<Rightarrow> string \<Rightarrow> string \<Rightarrow> bytes" where
  "v1_header proto src dst sport dport =
     str_to_bytes (''PROXY '' @ proto @ '' '' @ src @ '' '' @ dst @ '' '' @ sport @ '' '' @ dport) @ [13, 10]"

lemma version_nibble:
  assumes "c < (16 :: u8)"
  shows "drop_bit 4 (0x20 OR c) AND 0x0F = 2" "(0x20 OR c) AND 0x0F = c"
proof -
  have "c = of_nat (unat c)" by simp
  moreover have "unat c \<in> set [0..<16]" using assms by (simp add: word_less_nat_alt)
  ultimately have "c \<in> set (map of_nat [0..<16])" by (metis imageI list.set_map)
  moreover have "list_all (\<lambda>c :: u8. drop_bit 4 (0x20 OR c) AND 0x0F = 2 \<and> (0x20 OR c) AND 0x0F = c) (map of_nat [0..<16])"
    by code_simp
  ultimately have "drop_bit 4 (0x20 OR c) AND 0x0F = 2 \<and> (0x20 OR c) AND 0x0F = c"
    unfolding list_all_iff by blast
  then show "drop_bit 4 (0x20 OR c) AND 0x0F = 2" "(0x20 OR c) AND 0x0F = c" by simp_all
qed

text \<open>The parser on a version 2 header, up to the address family.\<close>

lemma parse_v2_header:
  assumes "c < 16" "length addr < 65536"
  shows "parse_proxy_header (v2_header c f addr @ rest) =
    try_bind (if c = 0 then Inr CmdProxy else if c = 1 then Inr CmdLocal
        else Inl (''proxy v2: unsupported command '' @ show_nat (unat c))) (\<lambda>cmd.
      if f = 0x10 then
        (if length addr < 12 then Inl (''proxy v2 TCP4: addr_len too short ('' @ show_nat (length addr) @ '' < 12)'')
         else Inr (Some \<lparr>pi_version = PV2, pi_command = cmd,
           pi_source = SockV4 (ipv4_from_octets (take 4 addr)) (u16_from_be_bytes (addr ! 8) (addr ! 9))\<rparr>))
      else if f = 0x20 then
        (if length addr < 36 then Inl (''proxy v2 TCP6: addr_len too short ('' @ show_nat (length addr) @ '' < 36)'')
         else Inr (Some \<lparr>pi_version = PV2, pi_command = cmd,
           pi_source = SockV6 (ipv6_from_octets (take 16 addr)) (u16_from_be_bytes (addr ! 32) (addr ! 33)) 0 0\<rparr>))
      else if f = 0 then Inr (Some \<lparr>pi_version = PV2, pi_command = cmd, pi_source = SockV4 0 0\<rparr>)
      else if f = 0x30 \<or> f = 0x31 then Inr None
      else Inl (''proxy v2: unsupported family 0x'' @ show_hex2 f))"
proof -
  obtain a b where ab: "u16_to_be_bytes (of_nat (length addr)) = [a, b]"
    "u16_from_be_bytes a b = of_nat (length addr)" by (rule u16_bytes_cases)
  let ?buf = "V2_SIGNATURE @ [0x20 OR c, f, a, b] @ addr @ rest"
  have buf: "v2_header c f addr @ rest = ?buf" by (simp add: v2_header_def ab)
  have len: "length V2_SIGNATURE = 12" by (simp add: V2_SIGNATURE_def)
  have nth: "?buf ! 12 = 0x20 OR c" "?buf ! 13 = f" "?buf ! 14 = a" "?buf ! 15 = b"
    by (simp_all add: nth_append len)
  have al: "unat (u16_from_be_bytes (?buf ! 14) (?buf ! 15)) = length addr"
    unfolding nth ab(2) using assms(2) by (simp add: unat_of_nat)
  have dr: "take (length addr) (drop 16 ?buf) = addr" by (simp add: len)
  have l16: "\<not> length ?buf < 16" "\<not> length ?buf < 16 + length addr" by (simp_all add: len)
  have four: "ipv4_new (addr ! 0) (addr ! 1) (addr ! 2) (addr ! 3) = ipv4_from_octets (take 4 addr)"
    if "12 \<le> length addr"
  proof -
    have "take 4 addr = [addr ! 0, addr ! 1, addr ! 2, addr ! 3]"
      using that by (intro nth_equalityI) (auto simp: less_Suc_eq numeral_eq_Suc)
    then show ?thesis by (simp add: ipv4_new_def)
  qed
  have "parse_proxy_header ?buf = parse_v2 ?buf"
    by (simp add: parse_proxy_header_def bytes_start_with_def)
  then show ?thesis
    unfolding buf parse_v2_def Let_def al dr nth(1,2) version_nibble [OF assms(1)] if_not_P [OF l16(1)]
      if_not_P [OF l16(2)]
    using four by (simp cong: if_cong)
qed

subsection \<open>Version 1 headers\<close>

lemma crlf_position_append:
  "13 \<notin> set h \<Longrightarrow> crlf_position (h @ 13 # 10 # rest) = Some (length h)"
proof (induction h)
  case Nil
  then show ?case by simp
next
  case (Cons x h)
  then show ?case by (cases h) auto
qed

lemma crlf_position_bound: "crlf_position buf = Some p \<Longrightarrow> p + 2 \<le> length buf"
  by (induction buf arbitrary: p rule: crlf_position.induct) (auto split: if_splits)

lemma crlf_position_skip: "13 \<notin> set h \<Longrightarrow> crlf_position (h @ r) = Some p \<Longrightarrow> length h \<le> p"
proof (induction h arbitrary: p)
  case Nil
  then show ?case by simp
next
  case (Cons x h)
  then show ?case by (cases "h @ r") (auto split: if_splits)
qed

lemma no_cr_bytes: "(\<forall>c \<in> set s. code c \<noteq> 13) \<Longrightarrow> 13 \<notin> set (str_to_bytes s)"
proof
  assume a: "\<forall>c \<in> set s. code c \<noteq> 13" and "13 \<in> set (str_to_bytes s)"
  then obtain c where c: "c \<in> set s" "(of_nat (code c) :: u8) = 13" by (auto simp: str_to_bytes_def)
  have "unat (of_nat (code c) :: u8) = code c" by (simp add: unat_of_nat)
  then show False using c a by simp
qed

text \<open>A field of a version 1 line: ASCII, without blanks and carriage returns.\<close>

definition v1_field :: "string \<Rightarrow> bool" where
  "v1_field s = list_all (\<lambda>c. code c < 128 \<and> code c \<noteq> 13 \<and> c \<noteq> CHR '' '') s"

lemma v1_fieldD:
  assumes "v1_field s"
  shows "ascii s" "\<forall>c \<in> set s. code c \<noteq> 13" "CHR '' '' \<notin> set s"
  using assms by (auto simp: v1_field_def ascii_def list_all_iff)

lemma v1_field_digits: "(\<And>c. c \<in> set s \<Longrightarrow> c = CHR ''.'' \<or> is_digit 10 c) \<Longrightarrow> v1_field s"
  unfolding v1_field_def list_all_iff
proof
  fix c
  assume "\<And>c. c \<in> set s \<Longrightarrow> c = CHR ''.'' \<or> is_digit 10 c" "c \<in> set s"
  then consider "c = CHR ''.''" | "is_digit 10 c" by blast
  then show "code c < 128 \<and> code c \<noteq> 13 \<and> c \<noteq> CHR '' ''"
  proof cases
    case 1
    then show ?thesis by (simp add: code_def)
  next
    case 2
    have "code (CHR '' '') = 32" by (simp add: code_def)
    with digit_code [OF 2] show ?thesis by auto
  qed
qed

lemma parse_v1_header:
  assumes f: "v1_field proto" "v1_field src" "v1_field dst" "v1_field sport" "v1_field dport"
  shows "parse_proxy_header (v1_header proto src dst sport dport @ rest) =
    (let parts = [''PROXY'', proto, src, dst, sport, dport]
     in if proto = ''UNKNOWN'' then Inr None
        else if proto = ''TCP4'' then v1_source ''TCP4'' parse_ipv4 SockV4 parts
        else if proto = ''TCP6'' then v1_source ''TCP6'' parse_ipv6 (\<lambda>ip p. SockV6 ip p 0 0) parts
        else Inl (''proxy v1: unsupported protocol '' @ proto))"
proof -
  let ?h = "''PROXY '' @ proto @ '' '' @ src @ '' '' @ dst @ '' '' @ sport @ '' '' @ dport"
  let ?b = "str_to_bytes ?h"
  have lit: "ascii ''PROXY ''" "ascii '' ''" "\<forall>c \<in> set ''PROXY ''. code c \<noteq> 13" "\<forall>c \<in> set '' ''. code c \<noteq> 13"
    by code_simp+
  have cr: "13 \<notin> set ?b"
    using lit(3,4) f [THEN v1_fieldD(2)] by (intro no_cr_bytes) (simp only: set_append ball_Un)
  have asc: "ascii ?h" using lit(1,2) f [THEN v1_fieldD(1)] by (simp only: ascii_append)
  have sp: "CHR '' '' \<notin> set proto" "CHR '' '' \<notin> set src" "CHR '' '' \<notin> set dst"
    "CHR '' '' \<notin> set sport" "CHR '' '' \<notin> set dport" using f [THEN v1_fieldD(3)] by blast+
  have parts: "split_on (CHR '' '') ?h = [''PROXY'', proto, src, dst, sport, dport]"
    using split_on_cons [of "CHR '' ''" "''PROXY''"] sp by (simp add: split_on_cons split_on_single)
  have hd: "v1_header proto src dst sport dport @ rest = ?b @ 13 # 10 # rest" by (simp add: v1_header_def)
  have pre: "?b = V1_PREFIX @ str_to_bytes (proto @ '' '' @ src @ '' '' @ dst @ '' '' @ sport @ '' '' @ dport)"
    by (simp add: str_to_bytes_def V1_PREFIX_def)
  have "bytes_start_with V1_PREFIX (?b @ 13 # 10 # rest)"
    unfolding pre bytes_start_with_def append_assoc by simp
  moreover have "\<not> bytes_start_with V2_SIGNATURE (?b @ 13 # 10 # rest)"
    by (simp add: bytes_start_with_def V2_SIGNATURE_def str_to_bytes_def code_def)
  ultimately have "parse_proxy_header (v1_header proto src dst sport dport @ rest) = parse_v1 (?b @ 13 # 10 # rest)"
    by (simp add: hd parse_proxy_header_def)
  then show ?thesis
    by (simp only: parse_v1_def crlf_position_append [OF cr] ok_or_simps try_bind_simps take_append take_all
        order_refl diff_self_eq_0 take_0 append_Nil2 from_utf8_ascii [OF asc] parts Let_def) simp
qed

subsection \<open>Correctness of the parser\<close>

text \<open>
  C36. Version 2 round trip: a header with this parser's family code for TCP over IPv4 (0x10) or
  IPv6 (0x20) gives back the source address and port, with command 0 read as PROXY and
  command 1 as LOCAL, whatever follows the addresses in the header and after it.
\<close>

theorem proxy_v2_roundtrip:
  assumes "length dst4 = 4" "length dst6 = 16" "length dport = 2" "length tlv < 60000" "c \<in> {0, 1}"
  shows "parse_proxy_header (v2_header c 0x10 (ipv4_octets ip4 @ dst4 @ u16_to_be_bytes p @ dport @ tlv) @ rest)
      = Inr (Some \<lparr>pi_version = PV2, pi_command = (if c = 0 then CmdProxy else CmdLocal), pi_source = SockV4 ip4 p\<rparr>)
    \<and> parse_proxy_header (v2_header c 0x20 (ipv6_octets ip6 @ dst6 @ u16_to_be_bytes p @ dport @ tlv) @ rest)
      = Inr (Some \<lparr>pi_version = PV2, pi_command = (if c = 0 then CmdProxy else CmdLocal), pi_source = SockV6 ip6 p 0 0\<rparr>)"
proof -
  obtain a b where ab: "u16_to_be_bytes p = [a, b]" "u16_from_be_bytes a b = p" by (rule u16_bytes_cases)
  let ?a4 = "ipv4_octets ip4 @ dst4 @ u16_to_be_bytes p @ dport @ tlv"
  let ?a6 = "ipv6_octets ip6 @ dst6 @ u16_to_be_bytes p @ dport @ tlv"
  have n4: "?a4 ! 8 = a" "?a4 ! 9 = b" "take 4 ?a4 = ipv4_octets ip4"
    using assms(1) by (simp_all add: nth_append ab)
  have n6: "?a6 ! 32 = a" "?a6 ! 33 = b" "take 16 ?a6 = ipv6_octets ip6"
    using assms(2) by (simp_all add: nth_append ab)
  have c: "c < 16" using assms(5) by auto
  have l: "length ?a4 < 65536" "length ?a6 < 65536" "\<not> length ?a4 < 12" "\<not> length ?a6 < 36"
    using assms by (simp_all add: ab)
  show ?thesis
    unfolding parse_v2_header [OF c l(1)] parse_v2_header [OF c l(2)] n4 n6 if_not_P [OF l(3)] if_not_P [OF l(4)]
    using assms(5) by (auto simp: ab ipv4_from_octets_octets ipv6_from_octets_octets)
qed

theorem proxy_v2_roundtrip_witness:
  "parse_proxy_header (v2_header 0 0x10 (ipv4_octets 0xC0000201 @ [10, 0, 0, 1] @ u16_to_be_bytes 5353 @ [0, 53] @ []) @ [])
    = Inr (Some \<lparr>pi_version = PV2, pi_command = CmdProxy, pi_source = SockV4 0xC0000201 5353\<rparr>)"
  using proxy_v2_roundtrip [of "[10, 0, 0, 1]" "replicate 16 0" "[0, 53]" "[]" 0 "0xC0000201" 5353 "[]" 0] by simp

text \<open>
  The headers that the HAProxy specification defines for TCP (family bytes 0x11 and 0x21, with
  the transport in the low nibble) are refused, whatever the command and the addresses.
\<close>

theorem proxy_v2_standard_family_refused:
  assumes "c < 16" "length addr < 65536" "f \<in> {0x11, 0x21}"
  shows "\<exists>e. parse_proxy_header (v2_header c f addr @ rest) = Inl e"
  unfolding parse_v2_header [OF assms(1,2)] using assms(3) by (auto simp: try_bind_def)

theorem proxy_v2_standard_family_refused_witness:
  "\<exists>e. parse_proxy_header (v2_header 1 0x11 (replicate 12 1) @ []) = Inl e"
  using proxy_v2_standard_family_refused [of 1 "replicate 12 1" "0x11" "[]"] by simp

text \<open>
  Version 1 round trip: the line of the protocol for TCP over IPv4 gives the source address and
  the source port, whatever follows the line; the destination is not inspected.
\<close>

theorem proxy_v1_roundtrip:
  assumes "v1_field dst" "v1_field dport"
  shows "parse_proxy_header (v1_header ''TCP4'' (show_ipv4 ip) dst (show_nat (unat p)) dport @ rest)
    = Inr (Some \<lparr>pi_version = PV1, pi_command = CmdProxy, pi_source = SockV4 ip (p :: u16)\<rparr>)"
proof -
  have t: "v1_field ''TCP4''" by code_simp
  have i: "v1_field (show_ipv4 ip)" using show_ipv4_chars by (rule v1_field_digits)
  have p: "v1_field (show_nat (unat p))" using show_nat_digit by (intro v1_field_digits) blast
  show ?thesis
    unfolding parse_v1_header [OF t i assms(1) p assms(2)] Let_def
    by (simp add: v1_source_def parse_show_ipv4 parse_u16_show)
qed

theorem proxy_v1_roundtrip_witness:
  "parse_proxy_header (v1_header ''TCP4'' (show_ipv4 0xC0000201) ''10.0.0.1'' (show_nat (unat (5353 :: u16))) ''53'' @ [])
    = Inr (Some \<lparr>pi_version = PV1, pi_command = CmdProxy, pi_source = SockV4 0xC0000201 5353\<rparr>)"
proof -
  have "v1_field ''10.0.0.1''" "v1_field ''53''" by code_simp+
  then show ?thesis by (rule proxy_v1_roundtrip)
qed

end
