(* ===== verification/Tcp.thy ===== *)
theory Tcp
  imports Proxy Tasks
begin

text \<open>
  The TCP listener of \<open>src/net/tcp.rs\<close>: recovery of the client address from a PROXY
  header, the length-prefixed message loop, and the accept loop, whose connections run
  as tasks on a shared handler. A connection is the list of bytes that arrive before it
  ends or stalls past the read timeout, and the number of bytes the peer takes (\<open>room\<close>)
  before writing to it fails. The request handler is a parameter: it refuses a message
  that does not parse (\<open>None\<close>) or answers with messages, and carries a state of its own.
  What \<open>peek\<close> returned is the argument \<open>peeked\<close>: an error, or the number of bytes.
\<close>

definition MAX_DNS_MESSAGE :: nat where
  "MAX_DNS_MESSAGE = 65535"

definition PEEK_SIZE :: nat where
  "PEEK_SIZE = 16"

definition show_socket_addr :: "socket_addr \<Rightarrow> string" where
  "show_socket_addr a =
     (case a of
        SockV4 ip p \<Rightarrow> show_ipv4 ip @ '':'' @ show_nat (unat p)
      | SockV6 ip p _ scope \<Rightarrow>
          ''['' @ show_ipv6 ip @ (if scope = 0 then [] else CHR ''%'' # show_nat (unat scope))
          @ '']:'' @ show_nat (unat p))"

text \<open>\<open>read_exact\<close> with its timeout: the bytes and what is left, or an error.\<close>

definition read_exact_timeout :: "nat \<Rightarrow> bytes \<Rightarrow> (bytes \<times> bytes) option" where
  "read_exact_timeout n stream = (if length stream < n then None else Some (take n stream, drop n stream))"

definition header_len :: "proxy_version \<Rightarrow> bytes \<Rightarrow> nat" where
  "header_len v peek_buf =
     (case v of
        PV1 \<Rightarrow> unwrap_or 0 (map_option (\<lambda>p. p + 2) (crlf_position peek_buf))
      | PV2 \<Rightarrow> if 16 \<le> length peek_buf
          then 16 + unat (u16_from_be_bytes (peek_buf ! 14) (peek_buf ! 15)) else 0)"

definition resolve_src_addr ::
  "socket_addr \<Rightarrow> bool \<Rightarrow> string list \<Rightarrow> (string, nat) result \<Rightarrow> bytes
     \<Rightarrow> (string, socket_addr) result \<times> bytes" where
  "resolve_src_addr peer proxy_enabled proxy_allow peeked stream =
     (if \<not> proxy_enabled then (Inr peer, stream)
      else case peeked of
          Inl e \<Rightarrow> (Inl e, stream)
        | Inr n \<Rightarrow>
            if n < 6 then (Inr peer, stream)
            else let peek_buf = take n (take PEEK_SIZE stream)
              in case parse_proxy_header peek_buf of
                   Inl e \<Rightarrow> (Inl (''tcp: bad PROXY header from '' @ show_socket_addr peer @ '': '' @ e), stream)
                 | Inr None \<Rightarrow> (Inr peer, stream)
                 | Inr (Some info) \<Rightarrow>
                     if proxy_allow \<noteq> [] \<and> show_ip (socket_ip (pi_source info)) \<notin> set proxy_allow then
                       (Inl (''tcp: proxy source '' @ show_socket_addr (pi_source info) @ '' not in allow list''), stream)
                     else let hl = header_len (pi_version info) peek_buf
                       in if 0 < hl then
                            (case read_exact_timeout hl stream of
                               None \<Rightarrow> (Inl ''early eof'', [])
                             | Some (_, rest) \<Rightarrow> (Inr (pi_source info), rest))
                          else (Inr (pi_source info), stream))"

type_synonym 's dns_handler = "bytes \<Rightarrow> socket_addr \<Rightarrow> 's \<Rightarrow> bytes list option \<times> 's"

text \<open>
  \<open>write_all\<close> to a peer that takes \<open>room\<close> more bytes: what it gets, and whether the write
  succeeds. The first write that fails ends the writing of the answers, but not the loop.
\<close>

definition write_all :: "bytes \<Rightarrow> nat \<Rightarrow> bytes \<times> bool" where
  "write_all bs room = (take room bs, length bs \<le> room)"

fun write_messages :: "bytes list \<Rightarrow> nat \<Rightarrow> bytes \<times> bool" where
  "write_messages [] room = ([], True)"
| "write_messages (msg # msgs) room =
     (case write_all (u16_to_be_bytes (of_nat (length msg))) room of
        (out1, False) \<Rightarrow> (out1, False)
      | (out1, True) \<Rightarrow>
          (case write_all msg (room - length out1) of
             (out2, False) \<Rightarrow> (out1 @ out2, False)
           | (out2, True) \<Rightarrow>
               (case write_messages msgs (room - length out1 - length out2) of
                  (out3, ok) \<Rightarrow> (out1 @ out2 @ out3, ok))))"

definition handle_dns_query ::
  "'s dns_handler \<Rightarrow> bytes \<Rightarrow> socket_addr \<Rightarrow> nat \<Rightarrow> 's \<Rightarrow> bytes \<times> 's" where
  "handle_dns_query handler msg_bytes src_addr room s =
     (case handler msg_bytes src_addr s of
        (None, s') \<Rightarrow> ([], s')
      | (Some msgs, s') \<Rightarrow> (fst (write_messages msgs room), s'))"

text \<open>One turn of the loop: \<open>None\<close> ends it.\<close>

definition next_message :: "bytes \<Rightarrow> (bytes \<times> bytes) option" where
  "next_message stream =
     (case read_exact_timeout 2 stream of
        None \<Rightarrow> None
      | Some (len_bytes, stream1) \<Rightarrow>
          (let msg_len = unat (u16_from_be_bytes (len_bytes ! 0) (len_bytes ! 1))
           in if msg_len = 0 \<or> MAX_DNS_MESSAGE < msg_len then None
              else read_exact_timeout msg_len stream1))"

lemma next_message_shorter: "next_message stream = Some (msg, rest) \<Longrightarrow> length rest < length stream"
  by (auto simp: next_message_def read_exact_timeout_def Let_def split: option.splits if_splits)

function message_loop :: "'s dns_handler \<Rightarrow> socket_addr \<Rightarrow> bytes \<Rightarrow> nat \<Rightarrow> 's \<Rightarrow> bytes \<times> 's" where
  "message_loop handler src stream room s =
     (case next_message stream of
        None \<Rightarrow> ([], s)
      | Some (msg_bytes, rest) \<Rightarrow>
          (let (out, s1) = handle_dns_query handler msg_bytes src room s;
               (out', s2) = message_loop handler src rest (room - length out) s1
           in (out @ out', s2)))"
  by pat_completeness auto
termination
  by (relation "measure (\<lambda>(handler, src, stream, room, s). length stream)") (auto dest: next_message_shorter)

declare message_loop.simps [simp del]

definition handle_connection ::
  "'s dns_handler \<Rightarrow> socket_addr \<Rightarrow> bool \<Rightarrow> string list \<Rightarrow> (string, nat) result \<Rightarrow> bytes \<Rightarrow> nat \<Rightarrow> 's
     \<Rightarrow> (string, bytes) result \<times> 's" where
  "handle_connection handler peer proxy_enabled proxy_allow peeked stream room s =
     (case resolve_src_addr peer proxy_enabled proxy_allow peeked stream of
        (Inl e, _) \<Rightarrow> (Inl e, s)
      | (Inr src, stream') \<Rightarrow>
          (case message_loop handler src stream' room s of (out, s') \<Rightarrow> (Inr out, s')))"

subsection \<open>Framing\<close>

definition frame :: "bytes \<Rightarrow> bytes" where
  "frame data = u16_to_be_bytes (of_nat (length data)) @ data"

text \<open>The whole answer to a message, as far as it is not cut off.\<close>

definition full_answer :: "'s dns_handler \<Rightarrow> bytes \<Rightarrow> socket_addr \<Rightarrow> 's \<Rightarrow> bytes" where
  "full_answer handler msg src s =
     (case fst (handler msg src s) of None \<Rightarrow> [] | Some msgs \<Rightarrow> concat (map frame msgs))"

lemma write_messages_take:
  "write_messages msgs room = (take room (concat (map frame msgs)), length (concat (map frame msgs)) \<le> room)"
  by (induction msgs arbitrary: room)
    (auto simp: write_all_def frame_def not_le min_def split: bool.split)

lemma handle_dns_query_take:
  "handle_dns_query handler msg src room s = (take room (full_answer handler msg src s), snd (handler msg src s))"
  by (simp add: handle_dns_query_def full_answer_def write_messages_take split: prod.split option.split)

lemma next_message_frame:
  assumes "0 < length msg" "length msg \<le> MAX_DNS_MESSAGE"
  shows "next_message (frame msg @ rest) = Some (msg, rest)"
proof -
  obtain a b where ab: "u16_to_be_bytes (of_nat (length msg)) = [a, b]"
    "u16_from_be_bytes a b = of_nat (length msg)" by (rule u16_bytes_cases)
  have len: "unat (of_nat (length msg) :: u16) = length msg"
    using assms(2) by (simp add: unat_of_nat MAX_DNS_MESSAGE_def)
  show ?thesis
    using assms by (simp add: next_message_def read_exact_timeout_def frame_def ab len Let_def)
qed

lemma next_message_Some:
  assumes "next_message stream = Some (msg, rest)"
  shows "stream = frame msg @ rest"
proof -
  obtain a b t where s: "stream = a # b # t"
    using assms by (cases stream; cases "tl stream") (auto simp: next_message_def read_exact_timeout_def)
  have m: "msg = take (unat (u16_from_be_bytes a b)) t" "rest = drop (unat (u16_from_be_bytes a b)) t"
    "unat (u16_from_be_bytes a b) \<le> length t"
    using assms by (auto simp: s next_message_def read_exact_timeout_def Let_def split: if_splits)
  then have "of_nat (length msg) = u16_from_be_bytes a b" by (simp add: min_absorb2)
  then have "frame msg = [a, b] @ msg" by (simp add: frame_def u16_be_roundtrip)
  then show ?thesis using m(1,2) by (simp add: s)
qed

fun answer_all :: "'s dns_handler \<Rightarrow> socket_addr \<Rightarrow> bytes list \<Rightarrow> 's \<Rightarrow> bytes \<times> 's" where
  "answer_all handler src [] s = ([], s)"
| "answer_all handler src (m # ms) s =
     (let (out', s2) = answer_all handler src ms (snd (handler m src s))
      in (full_answer handler m src s @ out', s2))"

text \<open>A tail that is not a complete message: the connection ends there.\<close>

definition incomplete :: "bytes \<Rightarrow> bool" where
  "incomplete t \<longleftrightarrow> length t < 2 \<or> u16_from_be_bytes (t ! 0) (t ! 1) = 0
     \<or> length t < 2 + unat (u16_from_be_bytes (t ! 0) (t ! 1))"

lemma next_message_incomplete: "incomplete t \<Longrightarrow> next_message t = None"
  by (auto simp: next_message_def read_exact_timeout_def incomplete_def Let_def unat_eq_0 split: if_splits)

lemma message_loop_frames:
  assumes "list_all (\<lambda>m. 0 < length m \<and> length m \<le> MAX_DNS_MESSAGE) msgs" "incomplete tail"
  shows "message_loop handler src (concat (map frame msgs) @ tail) room s
    = (take room (fst (answer_all handler src msgs s)), snd (answer_all handler src msgs s))"
  using assms(1)
proof (induction msgs arbitrary: room s)
  case Nil
  then show ?case by (simp add: message_loop.simps [of handler src tail] next_message_incomplete [OF assms(2)])
next
  case (Cons m ms)
  then have "next_message (frame m @ concat (map frame ms) @ tail) = Some (m, concat (map frame ms) @ tail)"
    by (intro next_message_frame) simp_all
  then show ?case
    using Cons by (simp add: message_loop.simps [of handler src "frame m @ concat (map frame ms) @ tail"]
        handle_dns_query_take case_prod_beta Let_def min_def)
qed

subsection \<open>A header seen through sixteen bytes\<close>

lemma parse_empty: "parse_ipv4 [] = None" "parse_ipv6 [] = None" "parse_u16 [] = None"
  by code_simp+

lemma v1_source_fields:
  assumes "v1_source proto parse mk parts = Inr (Some i)" "parse [] = None"
  shows "5 \<le> length parts" "parts ! 2 \<noteq> []" "parts ! 4 \<noteq> []"
  using assms parse_empty(3) by (auto simp: v1_source_def try_bind_Inr_iff ok_or_def split: if_splits option.splits)

lemma v1_fields_long:
  assumes "5 \<le> length (''PROXY'' # split_on (CHR '' '') x)"
    and "(''PROXY'' # split_on (CHR '' '') x) ! 1 = p" "length p = 4"
    and "(''PROXY'' # split_on (CHR '' '') x) ! 2 \<noteq> []" "(''PROXY'' # split_on (CHR '' '') x) ! 4 \<noteq> []"
  shows "8 < length x"
proof -
  obtain a b c d r where ps: "split_on (CHR '' '') x = a # b # c # d # r"
    using assms(1) by (auto simp: Suc_le_length_iff numeral_eq_Suc)
  have "length a = 4" "b \<noteq> []" "d \<noteq> []" using assms(2-5) by (auto simp: ps numeral_eq_Suc)
  then show ?thesis
    using split_on_length [of "CHR '' ''" x] by (cases b; cases d) (auto simp: ps)
qed

lemma parse_v1_short:
  assumes "length buf \<le> 16" "bytes_start_with V1_PREFIX buf"
  shows "parse_v1 buf \<noteq> Inr (Some i)"
proof
  assume "parse_v1 buf = Inr (Some i)"
  then obtain p h where p: "crlf_position buf = Some p" "from_utf8 (take p buf) = Some h"
    and src: "let parts = split_on (CHR '' '') h; proto = parts ! 1
      in (proto = ''TCP4'' \<and> v1_source ''TCP4'' parse_ipv4 SockV4 parts = Inr (Some i))
       \<or> (proto = ''TCP6'' \<and> v1_source ''TCP6'' parse_ipv6 (\<lambda>ip p. SockV6 ip p 0 0) parts = Inr (Some i))"
    by (auto simp: parse_v1_def try_bind_Inr_iff ok_or_def Let_def split: option.splits if_splits)
  obtain r where r: "buf = V1_PREFIX @ r"
    using assms(2) by (metis append_take_drop_id bytes_start_with_def)
  have pre: "length V1_PREFIX = 6" "13 \<notin> set V1_PREFIX" "bytes_to_str V1_PREFIX = ''PROXY '' " by code_simp+
  have six: "6 \<le> p" using crlf_position_skip [OF pre(2)] p(1) r pre(1) by auto
  have le: "p \<le> 14" using crlf_position_bound [OF p(1)] assms(1) by simp
  have "h = bytes_to_str (take p buf)" using p(2) by (simp add: from_utf8_def split: if_splits)
  then have h: "h = ''PROXY '' @ bytes_to_str (take (p - 6) r)"
    using six pre by (simp add: r bytes_to_str_def)
  let ?x = "bytes_to_str (take (p - 6) r)"
  have parts: "split_on (CHR '' '') h = ''PROXY'' # split_on (CHR '' '') ?x"
    using split_on_cons [of "CHR '' ''" "''PROXY''" ?x] by (simp add: h)
  have "length ?x \<le> 8" using le by (simp add: bytes_to_str_def)
  moreover have "8 < length ?x"
  proof -
    consider (t4) "(''PROXY'' # split_on (CHR '' '') ?x) ! 1 = ''TCP4''"
        "v1_source ''TCP4'' parse_ipv4 SockV4 (''PROXY'' # split_on (CHR '' '') ?x) = Inr (Some i)"
      | (t6) "(''PROXY'' # split_on (CHR '' '') ?x) ! 1 = ''TCP6''"
        "v1_source ''TCP6'' parse_ipv6 (\<lambda>ip p. SockV6 ip p 0 0) (''PROXY'' # split_on (CHR '' '') ?x) = Inr (Some i)"
      using src unfolding parts Let_def by blast
    then show ?thesis
    proof cases
      case t4
      note f = v1_source_fields [OF t4(2) parse_empty(1)]
      show ?thesis by (rule v1_fields_long [OF f(1) t4(1) _ f(2,3)]) simp
    next
      case t6
      note f = v1_source_fields [OF t6(2) parse_empty(2)]
      show ?thesis by (rule v1_fields_long [OF f(1) t6(1) _ f(2,3)]) simp
    qed
  qed
  ultimately show False by simp
qed

lemma parse_v2_short:
  assumes "length buf \<le> 16" "parse_v2 buf = Inr (Some i)"
  shows "pi_source i = SockV4 0 0"
proof -
  have l: "\<not> length buf < 16" using assms(2) by (auto simp: parse_v2_def)
  let ?n = "unat (u16_from_be_bytes (buf ! 14) (buf ! 15))"
  have "?n = 0"
  proof (rule ccontr)
    assume "?n \<noteq> 0"
    then have "length buf < 16 + ?n" using assms(1) by simp
    then show False using assms(2) l
      by (auto simp: parse_v2_def Let_def try_bind_Inr_iff split: if_splits)
  qed
  then show ?thesis
    using assms(2) l by (auto simp: parse_v2_def Let_def try_bind_Inr_iff split: if_splits)
qed

lemma parse_header_short:
  assumes "length buf \<le> 16" "parse_proxy_header buf = Inr (Some i)"
  shows "pi_source i = SockV4 0 0"
  using assms parse_v1_short [OF assms(1)] parse_v2_short [OF assms(1)]
  by (auto simp: parse_proxy_header_def split: if_splits)

subsection \<open>Correctness of the listener\<close>

text \<open>
  Pipelining: on a connection without PROXY handling that carries complete messages of legal
  length followed by an incomplete tail, the handler is run on exactly these messages, in
  order and with the peer's address, and the peer gets the framed answers in the same
  order, up to the number of bytes it takes; the loop ends at the tail. A peer that stops
  reading only loses its answers: its messages are still handled, all of them.
\<close>

theorem tcp_pipelining:
  assumes "list_all (\<lambda>m. 0 < length m \<and> length m \<le> MAX_DNS_MESSAGE) msgs" "incomplete tail"
  shows "handle_connection handler peer False allow peeked (concat (map frame msgs) @ tail) room s
    = (let (out, s') = answer_all handler peer msgs s in (Inr (take room out), s'))"
  using message_loop_frames [OF assms, of handler peer room s]
  by (simp add: handle_connection_def resolve_src_addr_def Let_def case_prod_beta)

theorem tcp_pipelining_witness:
  "handle_connection (\<lambda>m src s. (Some [rev m], s + length m)) (SockV4 1 2) False [] (Inr 0)
      (concat (map frame [[1, 2, 3], [4]]) @ [9]) 6 0
    = (Inr [0, 3, 3, 2, 1, 0], 4 :: nat)"
proof -
  have "incomplete [9]" by (simp add: incomplete_def)
  moreover have "list_all (\<lambda>m. 0 < length m \<and> length m \<le> MAX_DNS_MESSAGE) [[1, 2, 3 :: u8], [4]]"
    by (simp add: MAX_DNS_MESSAGE_def)
  moreover have "answer_all (\<lambda>m src s. (Some [rev m], s + length m)) (SockV4 1 2) [[1, 2, 3], [4]] (0 :: nat)
      = ([0, 3, 3, 2, 1] @ [0, 1, 4], 4)" by code_simp
  ultimately show ?thesis by (simp only: tcp_pipelining Let_def case_prod_conv) simp
qed

text \<open>
  Framing round trip: answers of legal length, written by the listener, are read back as the
  same answers by a reader with the listener's own message loop; and the length field of a
  longer answer is its length modulo 65536, so it no longer tells where the answer ends.
\<close>

theorem tcp_frames_roundtrip:
  "(list_all (\<lambda>m. 0 < length m \<and> length m \<le> MAX_DNS_MESSAGE) msgs \<longrightarrow>
      message_loop (\<lambda>m src got. (Some [], got @ [m])) src (concat (map frame msgs)) room got = ([], got @ msgs))
    \<and> be_nat (take 2 (frame data)) = length data mod 65536"
proof
  have fold: "answer_all (\<lambda>m src got. (Some [], got @ [m])) src ms got = ([], got @ ms)" for ms got
    by (induction ms arbitrary: got) (simp_all add: full_answer_def)
  have "incomplete []" by (simp add: incomplete_def)
  then show "list_all (\<lambda>m. 0 < length m \<and> length m \<le> MAX_DNS_MESSAGE) msgs \<longrightarrow>
      message_loop (\<lambda>m src got. (Some [], got @ [m])) src (concat (map frame msgs)) room got = ([], got @ msgs)"
    using message_loop_frames [of msgs "[]" "\<lambda>m src got. (Some [], got @ [m])" src room got] fold by auto
  show "be_nat (take 2 (frame data)) = length data mod 65536"
    using be_nat_be_bytes [of 2 "unat (of_nat (length data) :: u16)"]
    by (simp add: frame_def u16_to_be_bytes_def unat_of_nat)
qed

theorem tcp_frames_roundtrip_witness:
  "message_loop (\<lambda>m src got. (Some [], got @ [m])) (SockV4 1 2) (concat (map frame [[1, 2], [3]])) 0 []
    = ([], [[1, 2], [3]])"
  using tcp_frames_roundtrip [of "[[1, 2], [3]]" "SockV4 1 2" 0 "[]"] by (simp add: MAX_DNS_MESSAGE_def)

text \<open>
  C34. With PROXY handling on, the sixteen bytes that are peeked never hold an address: whatever the
  client sends and whatever \<open>peek\<close> returns, the connection is attributed to the peer
  itself or to 0.0.0.0 port 0, or it is refused. No client behind a proxy is ever
  recognised.
\<close>

theorem tcp_proxy_source_never_recovered:
  "fst (resolve_src_addr peer True allow peeked stream) \<in> {Inr peer, Inr (SockV4 0 0)} \<union> range Inl"
proof (cases peeked)
  case (Inl e)
  then show ?thesis by (simp add: resolve_src_addr_def)
next
  case (Inr n)
  let ?buf = "take n (take PEEK_SIZE stream)"
  have "length ?buf \<le> 16" by (simp add: PEEK_SIZE_def)
  then have "pi_source i = SockV4 0 0" if "parse_proxy_header ?buf = Inr (Some i)" for i
    using parse_header_short that by blast
  then show ?thesis
    using Inr by (auto simp: resolve_src_addr_def Let_def simp del: take_take split: sum.splits option.splits)
qed

subsection \<open>The accept loop\<close>

text \<open>
  A connection with what the listener learns of it, and how far its task has come: it waits
  for its source address, is in the loop with the bytes not read yet and those written, or
  has ended with the bytes written or an error.
\<close>

record connection =
  cn_peer :: socket_addr
  cn_peeked :: "(string, nat) result"
  cn_stream :: bytes
  cn_room :: nat

datatype conn_phase =
    Accepted
  | Reading socket_addr bytes bytes
  | Closed "(string, bytes) result"

definition conn_source :: "bool \<Rightarrow> string list \<Rightarrow> connection \<Rightarrow> (string, socket_addr) result \<times> bytes" where
  "conn_source proxy_enabled proxy_allow cn =
     resolve_src_addr (cn_peer cn) proxy_enabled proxy_allow (cn_peeked cn) (cn_stream cn)"

fun conn_step ::
  "'s dns_handler \<Rightarrow> bool \<Rightarrow> string list \<Rightarrow> connection \<times> conn_phase \<Rightarrow> 's
     \<Rightarrow> ((connection \<times> conn_phase) \<times> 's) option"
where
  "conn_step handler proxy_enabled proxy_allow (cn, Accepted) s =
     (case conn_source proxy_enabled proxy_allow cn of
        (Inl e, _) \<Rightarrow> Some ((cn, Closed (Inl e)), s)
      | (Inr src, stream) \<Rightarrow> Some ((cn, Reading src stream []), s))"
| "conn_step handler proxy_enabled proxy_allow (cn, Reading src stream out) s =
     (case next_message stream of
        None \<Rightarrow> Some ((cn, Closed (Inr out)), s)
      | Some (msg_bytes, rest) \<Rightarrow>
          (case handle_dns_query handler msg_bytes src (cn_room cn - length out) s of
             (out1, s1) \<Rightarrow> Some ((cn, Reading src rest (out @ out1)), s1)))"
| "conn_step handler proxy_enabled proxy_allow (cn, Closed r) s = None"

fun conn_finished :: "connection \<times> conn_phase \<Rightarrow> bool" where
  "conn_finished (cn, Closed r) = True"
| "conn_finished c = False"

fun conn_work :: "connection \<times> conn_phase \<Rightarrow> nat" where
  "conn_work (cn, Accepted) = 2 + length (cn_stream cn)"
| "conn_work (cn, Reading src stream out) = Suc (length stream)"
| "conn_work (cn, Closed r) = 0"

text \<open>
  The listener: every accepted connection starts a task, an error of \<open>accept\<close> changes
  nothing, and the loop does not end. The handler is shared with the other listeners, which
  may change its state at any time.
\<close>

inductive tcp_start :: "'s \<Rightarrow> connection \<times> conn_phase \<Rightarrow> 's \<Rightarrow> bool" where
  accept: "tcp_start s (cn, Accepted) s"

inductive tcp_env :: "'s \<Rightarrow> 's \<Rightarrow> bool" where
  accept_error: "tcp_env s s"
| other_listener: "tcp_env s s'"

definition run_tcp_listener ::
  "'s dns_handler \<Rightarrow> bool \<Rightarrow> string list \<Rightarrow> nat \<Rightarrow> nat \<Rightarrow> (connection \<times> conn_phase) list \<times> 's \<Rightarrow> bool"
where
  "run_tcp_listener handler proxy_enabled proxy_allow =
     pool_run (conn_step handler proxy_enabled proxy_allow) (\<lambda>s. True) tcp_start tcp_env"

text \<open>
  What a connection may have got: the framed answers, in order, to its own first messages,
  cut off where the peer stopped reading. Every answer is one that the handler gives to
  that message and that source in some state.
\<close>

definition answers_in_order :: "'s dns_handler \<Rightarrow> socket_addr \<Rightarrow> bytes list \<Rightarrow> nat \<Rightarrow> bytes \<Rightarrow> bool" where
  "answers_in_order handler src msgs room out \<longleftrightarrow>
     (\<exists>outs. list_all2 (\<lambda>m ans. \<exists>s. ans = full_answer handler m src s) msgs outs \<and> out = take room (concat outs))"

fun conn_ok :: "'s dns_handler \<Rightarrow> bool \<Rightarrow> string list \<Rightarrow> connection \<times> conn_phase \<Rightarrow> bool" where
  "conn_ok handler proxy_enabled proxy_allow (cn, Accepted) \<longleftrightarrow> True"
| "conn_ok handler proxy_enabled proxy_allow (cn, Reading src stream out) \<longleftrightarrow>
     (\<exists>msgs. conn_source proxy_enabled proxy_allow cn = (Inr src, concat (map frame msgs) @ stream)
        \<and> answers_in_order handler src msgs (cn_room cn) out)"
| "conn_ok handler proxy_enabled proxy_allow (cn, Closed (Inr out)) \<longleftrightarrow>
     (\<exists>src msgs tail. conn_source proxy_enabled proxy_allow cn = (Inr src, concat (map frame msgs) @ tail)
        \<and> next_message tail = None \<and> answers_in_order handler src msgs (cn_room cn) out)"
| "conn_ok handler proxy_enabled proxy_allow (cn, Closed (Inl e)) \<longleftrightarrow>
     fst (conn_source proxy_enabled proxy_allow cn) = Inl e"

lemma answers_snoc:
  assumes "answers_in_order handler src msgs room out"
  shows "answers_in_order handler src (msgs @ [m]) room (out @ take (room - length out) (full_answer handler m src s))"
proof -
  obtain outs where o: "list_all2 (\<lambda>m ans. \<exists>s. ans = full_answer handler m src s) msgs outs" "out = take room (concat outs)"
    using assms by (auto simp: answers_in_order_def)
  let ?a = "full_answer handler m src s"
  have "list_all2 (\<lambda>m ans. \<exists>s. ans = full_answer handler m src s) (msgs @ [m]) (outs @ [?a])"
    using o(1) by (auto intro: list_all2_appendI)
  moreover have "out @ take (room - length out) ?a = take room (concat (outs @ [?a]))"
    using o(2) by (cases "room \<le> length (concat outs)") (auto simp: min_def)
  ultimately show ?thesis unfolding answers_in_order_def by blast
qed

lemma conn_step_ok:
  assumes "conn_ok handler pe pa c" "conn_step handler pe pa c s = Some (c', s')"
  shows "conn_ok handler pe pa c'"
proof (cases "(handler, pe, pa, c, s)" rule: conn_step.cases)
  case (1 handler' pe' pa' cn s'')
  then show ?thesis
    using assms by (auto simp: answers_in_order_def split: prod.splits sum.splits intro!: exI [of _ "[]"])
next
  case (2 handler' pe' pa' cn src stream out s'')
  then have c: "c = (cn, Reading src stream out)" by simp
  obtain msgs where ok: "conn_source pe pa cn = (Inr src, concat (map frame msgs) @ stream)"
    "answers_in_order handler src msgs (cn_room cn) out"
    using assms(1) c by auto
  show ?thesis
  proof (cases "next_message stream")
    case None
    then have "c' = (cn, Closed (Inr out))" using assms(2) c by simp
    then show ?thesis using ok None by auto
  next
    case (Some mr)
    obtain m rest where mr: "mr = (m, rest)" by (cases mr)
    have c': "c' = (cn, Reading src rest (out @ take (cn_room cn - length out) (full_answer handler m src s)))"
      using assms(2) c Some mr by (simp add: handle_dns_query_take)
    have "conn_source pe pa cn = (Inr src, concat (map frame (msgs @ [m])) @ rest)"
      using ok(1) next_message_Some [of stream m rest] Some mr by simp
    then show ?thesis
      unfolding c' conn_ok.simps using answers_snoc [OF ok(2)] by (intro exI [of _ "msgs @ [m]"] conjI)
  qed
next
  case 3
  then show ?thesis using assms by simp
qed

lemma resolve_src_addr_shrinks: "length (snd (resolve_src_addr peer pe pa peeked stream)) \<le> length stream"
  by (auto simp: resolve_src_addr_def read_exact_timeout_def Let_def split: sum.split option.split)

lemma conn_step_work: "conn_step handler pe pa c s = Some (c', s') \<Longrightarrow> conn_work c' < conn_work c"
proof (induction handler pe pa c s rule: conn_step.induct)
  case (1 handler pe pa cn s)
  then show ?case
    using resolve_src_addr_shrinks [of "cn_peer cn" pe pa "cn_peeked cn" "cn_stream cn"]
    by (auto simp: conn_source_def split: prod.splits sum.splits)
qed (auto dest: next_message_shorter split: option.splits prod.splits)

lemma conn_can_step: "\<not> conn_finished c \<Longrightarrow> \<exists>c' s'. conn_step handler pe pa c s = Some (c', s')"
  by (cases "(handler, pe, pa, c, s)" rule: conn_step.cases) (auto split: prod.splits sum.splits option.splits)

interpretation connections: pool_progress "conn_step handler pe pa" "\<lambda>s. True" tcp_start tcp_env
    "\<lambda>s. True" "conn_ok handler pe pa" conn_finished conn_work
  for handler pe pa
proof unfold_locales
  show "\<exists>c' s'. conn_step handler pe pa c s = Some (c', s')" if "\<not> conn_finished c" for c s
    using that by (rule conn_can_step)
qed (auto elim: tcp_start.cases conn_step_ok conn_step_work)

text \<open>A connection that runs alone is the connection handler.\<close>

lemma reading_alone:
  "run_alone (conn_step handler pe pa) conn_finished (cn, Reading src stream out) s =
     (case message_loop handler src stream (cn_room cn - length out) s of
        (out', s') \<Rightarrow> Some ((cn, Closed (Inr (out @ out'))), s'))"
proof (induction "length stream" arbitrary: stream out s rule: less_induct)
  case less
  show ?case
  proof (cases "next_message stream")
    case None
    then show ?thesis by (simp add: run_alone_step message_loop.simps [of handler src stream])
  next
    case (Some mr)
    obtain m rest where mr: "mr = (m, rest)" by (cases mr)
    then show ?thesis
      using less [of rest] next_message_shorter [of stream m rest] Some
      by (simp add: run_alone_step message_loop.simps [of handler src stream] handle_dns_query_take Let_def case_prod_beta)
  qed
qed

lemma connection_alone:
  "run_alone (conn_step handler pe pa) conn_finished (cn, Accepted) s =
     (case handle_connection handler (cn_peer cn) pe pa (cn_peeked cn) (cn_stream cn) (cn_room cn) s of
        (r, s') \<Rightarrow> Some ((cn, Closed r), s'))"
  by (simp add: run_alone_step reading_alone handle_connection_def conn_source_def split: prod.split sum.split)


definition demo_handler :: "nat dns_handler" where
  "demo_handler m src s = (Some [rev m], s + length m)"

definition demo_connection :: connection where
  "demo_connection = \<lparr>cn_peer = SockV4 1 2, cn_peeked = Inr 0, cn_stream = concat (map frame [[1, 2, 3], [4]]), cn_room = 6\<rparr>"


end
