(* ===== verification/Udp.thy ===== *)
theory Udp
  imports DnsFilter ZoneTransfer Tasks
begin

text \<open>
  The UDP listener of \<open>src/net/udp.rs\<close>: what it does with one datagram, and the receive
  loop, which starts a task per datagram. (The server registers its UDP sockets with
  hickory instead and never starts this listener.) The listener consults the filter and
  then the resolver; the resolver takes the query name as text. The result of a datagram
  is the outcome, the datagrams sent, the metrics and the world.
\<close>

datatype udp_error = ParseQuery string | EncodeResponse string | SendResponse string | BadUdpListen string | UdpBind string

record udp_io =
  udp_write :: "bytes \<Rightarrow> socket_addr \<Rightarrow> (string, unit) result"

definition udp_listen_addr :: "string \<Rightarrow> (udp_error, socket_addr) result" where
  "udp_listen_addr addr = ok_or (BadUdpListen addr) (parse_socket_addr addr)"

definition response_message :: "u16 \<Rightarrow> bool \<Rightarrow> response_code \<Rightarrow> ('n \<times> record_type) list \<Rightarrow> 'n rr list \<Rightarrow> 'n message" where
  "response_message i ra rcode queries answers =
     \<lparr>ms_id = i, ms_type = MtResponse, ms_op = OpQuery, ms_aa = False, ms_tc = False, ms_rd = False,
      ms_ra = ra, ms_rcode = rcode, ms_queries = queries, ms_answers = answers\<rparr>"

definition respond ::
  "'n wire \<Rightarrow> udp_io \<Rightarrow> socket_addr \<Rightarrow> 'n message \<Rightarrow> (udp_error, unit) result \<times> 'n message list"
where
  "respond w io peer resp =
     (case msg_encode w resp of
        Inl e \<Rightarrow> (Inl (EncodeResponse e), [])
      | Inr bs \<Rightarrow>
          (case udp_write io bs peer of
             Inl e \<Rightarrow> (Inl (SendResponse e), [])
           | Inr _ \<Rightarrow> (Inr (), [resp])))"

text \<open>The resolver's lookup by text, and \<open>Name::from_utf8\<close>.\<close>

record ('n, 'w) udp_resolver =
  lookup_text :: "string \<Rightarrow> record_type \<Rightarrow> 'w \<Rightarrow> (string, 'n lookup) result \<times> 'w"
  name_from_utf8 :: "string \<Rightarrow> (string, 'n) result"

definition forward_response ::
  "'n hickory \<Rightarrow> ('n, 'w) udp_resolver \<Rightarrow> u16 \<Rightarrow> string \<Rightarrow> record_type \<Rightarrow> 'w \<Rightarrow> 'n message \<times> 'w"
where
  "forward_response h r i qname qtype st =
     (let name = trim_end_matches (CHR ''.'') qname;
          q = (case name_from_utf8 r name of Inr n \<Rightarrow> n | Inl _ \<Rightarrow> name_root h)
      in case lookup_text r name qtype st of
           (Inr lk, st') \<Rightarrow> (response_message i True NoErrorCode [(q, qtype)] (lk_answers lk), st')
         | (Inl _, st') \<Rightarrow> (response_message i True ServFail [(q, qtype)] [], st'))"

definition handle_query ::
  "'n hickory \<Rightarrow> 'n zone_ops \<Rightarrow> 'n wire \<Rightarrow> udp_io \<Rightarrow> ('n, 'w) udp_resolver \<Rightarrow> ('re \<Rightarrow> string \<Rightarrow> bool)
     \<Rightarrow> 're filter_state \<Rightarrow> socket_addr \<Rightarrow> bytes \<Rightarrow> metrics_registry \<Rightarrow> 'w
     \<Rightarrow> ((udp_error, unit) result \<times> 'n message list) \<times> metrics_registry \<times> 'w"
where
  "handle_query h z w io r is_match f peer datagram m st =
     (case msg_decode w datagram of
        Inl e \<Rightarrow> ((Inl (ParseQuery e), []), m, st)
      | Inr req \<Rightarrow>
          (case ms_queries req of
             [] \<Rightarrow> (respond w io peer (response_message (ms_id req) False FormErr [] []), m, st)
           | (n, qtype) # _ \<Rightarrow>
               (let qname = name_display z n
                in case is_blocked is_match f m qname (socket_ip peer) of
                     (True, m') \<Rightarrow> (respond w io peer (response_message (ms_id req) False NXDomain [] []), m', st)
                   | (False, m') \<Rightarrow>
                       (case forward_response h r (ms_id req) qname qtype st of
                          (resp, st') \<Rightarrow> (respond w io peer resp, m', st')))))"

subsection \<open>The receive loop\<close>

text \<open>
  The socket is read into a buffer of 4096 bytes: the rest of a longer datagram is lost. A
  datagram starts a task with its bytes and sender; an error of \<open>recv_from\<close> changes
  nothing, and the loop does not end. \<open>run\<close> itself fails only when the address
  cannot be bound.
\<close>

definition UDP_BUFFER :: nat where
  "UDP_BUFFER = 4096"

datatype 'n udp_task =
    Received socket_addr bytes
  | Handled socket_addr bytes "(udp_error, unit) result" "'n message list"

fun udp_step ::
  "'n hickory \<Rightarrow> 'n zone_ops \<Rightarrow> 'n wire \<Rightarrow> udp_io \<Rightarrow> ('n, 'w) udp_resolver \<Rightarrow> ('re \<Rightarrow> string \<Rightarrow> bool)
     \<Rightarrow> 're filter_state \<Rightarrow> 'n udp_task \<Rightarrow> metrics_registry \<times> 'w
     \<Rightarrow> ('n udp_task \<times> metrics_registry \<times> 'w) option"
where
  "udp_step h z w io r is_match f (Received peer bs) (m, st) =
     (case handle_query h z w io r is_match f peer bs m st of
        ((res, out), m', st') \<Rightarrow> Some (Handled peer bs res out, m', st'))"
| "udp_step h z w io r is_match f (Handled peer bs res out) s = None"

inductive udp_recv :: "metrics_registry \<times> 'w \<Rightarrow> 'n udp_task \<Rightarrow> metrics_registry \<times> 'w \<Rightarrow> bool" where
  udp_datagram: "udp_recv s (Received peer (take UDP_BUFFER datagram)) s"

inductive udp_env :: "metrics_registry \<times> 'w \<Rightarrow> metrics_registry \<times> 'w \<Rightarrow> bool" where
  udp_recv_error: "udp_env s s"
| udp_world: "udp_env (m, st) (m', st')"

definition udp_run ::
  "'n hickory \<Rightarrow> 'n zone_ops \<Rightarrow> 'n wire \<Rightarrow> udp_io \<Rightarrow> ('n, 'w) udp_resolver \<Rightarrow> ('re \<Rightarrow> string \<Rightarrow> bool)
     \<Rightarrow> 're filter_state \<Rightarrow> nat \<Rightarrow> nat \<Rightarrow> 'n udp_task list \<times> metrics_registry \<times> 'w \<Rightarrow> bool"
where
  "udp_run h z w io r is_match f = pool_run (udp_step h z w io r is_match f) (\<lambda>s. True) udp_recv udp_env"

definition udp_listener_start ::
  "(socket_addr \<Rightarrow> (string, unit) result) \<Rightarrow> string \<Rightarrow> (udp_error, socket_addr) result"
where
  "udp_listener_start bind_udp addr =
     try_bind (udp_listen_addr addr) (\<lambda>sock. try_bind (map_err UdpBind (bind_udp sock)) (\<lambda>_. Inr sock))"

fun udp_finished :: "'n udp_task \<Rightarrow> bool" where
  "udp_finished (Handled peer bs res out) = True"
| "udp_finished (Received peer bs) = False"

fun udp_work :: "'n udp_task \<Rightarrow> nat" where
  "udp_work (Received peer bs) = 1"
| "udp_work (Handled peer bs res out) = 0"

subsection \<open>Lemmas\<close>

lemma respond_sent: "respond w io peer resp = (res, out) \<Longrightarrow> out = [resp] \<or> (out = [] \<and> \<not> is_ok res)"
  by (auto simp: respond_def split: sum.splits)

lemma forward_response_id:
  "forward_response h r i qname qtype st = (resp, st') \<Longrightarrow> ms_id resp = i \<and> ms_type resp = MtResponse"
  by (auto simp: forward_response_def response_message_def Let_def split: prod.splits sum.splits)

lemma is_blocked_cases: "\<exists>b m'. is_blocked is_match f m qname ip = (b, m')"
  by (cases "is_blocked is_match f m qname ip") blast

lemma handle_query_sent:
  assumes "msg_decode w datagram = Inr req"
  shows "\<exists>resp. fst (handle_query h z w io r is_match f peer datagram m st) = respond w io peer resp
           \<and> ms_id resp = ms_id req \<and> ms_type resp = MtResponse"
proof (cases "ms_queries req")
  case Nil
  then show ?thesis
    using assms by (auto simp: handle_query_def response_message_def)
next
  case (Cons q qs)
  obtain n qtype where q: "q = (n, qtype)" by (cases q)
  obtain b m' where b: "is_blocked is_match f m (name_display z n) (socket_ip peer) = (b, m')"
    using is_blocked_cases by blast
  obtain resp st' where r: "forward_response h r (ms_id req) (name_display z n) qtype st = (resp, st')"
    by (cases "forward_response h r (ms_id req) (name_display z n) qtype st")
  show ?thesis
  proof (cases b)
    case True
    then show ?thesis
      using assms Cons q b by (auto simp: handle_query_def response_message_def Let_def)
  next
    case False
    then show ?thesis
      using assms Cons q b r forward_response_id [OF r] by (auto simp: handle_query_def Let_def)
  qed
qed

subsection \<open>Properties\<close>

text \<open>
  One datagram, one answer. A datagram that is a DNS message is answered with exactly
  one response, which carries the identifier of the query, unless encoding or sending
  fails, in which case nothing is sent and an error is reported; a datagram that is not
  a DNS message is never answered. A blocked name is answered without asking the
  resolver: the outside world is unchanged.
\<close>

theorem udp_answers_once:
  "case handle_query h z w io r is_match f peer datagram m st of
     ((res, out), m', st') \<Rightarrow>
       (case msg_decode w datagram of
          Inl e \<Rightarrow> res = Inl (ParseQuery e) \<and> out = [] \<and> m' = m \<and> st' = st
        | Inr req \<Rightarrow>
            (if is_ok res then length out = 1 else out = [])
            \<and> list_all (\<lambda>resp. ms_id resp = ms_id req \<and> ms_type resp = MtResponse) out
            \<and> (case ms_queries req of
                 [] \<Rightarrow> st' = st
               | (n, t) # _ \<Rightarrow>
                   if fst (is_blocked is_match f m (name_display z n) (socket_ip peer)) then st' = st
                   else m' = snd (is_blocked is_match f m (name_display z n) (socket_ip peer))))"
proof (cases "msg_decode w datagram")
  case (Inl e)
  then show ?thesis by (simp add: handle_query_def)
next
  case (Inr req)
  obtain res out m' st' where hq: "handle_query h z w io r is_match f peer datagram m st = ((res, out), m', st')"
    by (metis prod.exhaust)
  obtain resp where resp: "respond w io peer resp = (res, out)" "ms_id resp = ms_id req" "ms_type resp = MtResponse"
    using handle_query_sent [OF Inr, of h z io r is_match f peer m st] hq by auto
  have "(if is_ok res then length out = 1 else out = [])
      \<and> list_all (\<lambda>resp. ms_id resp = ms_id req \<and> ms_type resp = MtResponse) out"
    using resp by (auto simp: respond_def split: sum.splits)
  moreover have "case ms_queries req of
                 [] \<Rightarrow> st' = st
               | (n, t) # _ \<Rightarrow>
                   if fst (is_blocked is_match f m (name_display z n) (socket_ip peer)) then st' = st
                   else m' = snd (is_blocked is_match f m (name_display z n) (socket_ip peer))"
    using hq Inr by (auto simp: handle_query_def Let_def split: list.splits prod.splits bool.splits)
  ultimately show ?thesis using hq Inr by simp
qed

subsection \<open>The listener\<close>

text \<open>What a datagram may lead to: at most one response, to the query that it holds.\<close>

fun udp_ok :: "'n wire \<Rightarrow> 'n udp_task \<Rightarrow> bool" where
  "udp_ok w (Received peer bs) \<longleftrightarrow> length bs \<le> UDP_BUFFER"
| "udp_ok w (Handled peer bs res out) \<longleftrightarrow> length bs \<le> UDP_BUFFER
     \<and> (case msg_decode w bs of
          Inl e \<Rightarrow> res = Inl (ParseQuery e) \<and> out = []
        | Inr req \<Rightarrow> (if is_ok res then length out = 1 else out = [])
            \<and> list_all (\<lambda>resp. ms_id resp = ms_id req \<and> ms_type resp = MtResponse) out)"

lemma udp_step_ok:
  assumes "udp_ok w c" "udp_step h z w io r is_match f c s = Some (c', s')"
  shows "udp_ok w c'"
proof (cases c)
  case (Received peer bs)
  obtain m st where s: "s = (m, st)" by (cases s)
  obtain res out m' st' where hq: "handle_query h z w io r is_match f peer bs m st = ((res, out), m', st')"
    by (metis prod.exhaust)
  have "c' = Handled peer bs res out" using assms(2) Received s hq by simp
  then show ?thesis
    using assms(1) Received udp_answers_once [where h = h and z = z and w = w and io = io and r = r
        and is_match = is_match and f = f and peer = peer and datagram = bs and m = m and st = st]
    by (auto simp: hq split: sum.splits)
qed (use assms in simp)

interpretation datagrams: pool_bounded "udp_step h z w io r is_match f" "\<lambda>s. True" udp_recv udp_env
    "\<lambda>s. True" "udp_ok w" udp_finished udp_work 1
  for h z w io r is_match f
proof unfold_locales
  show "\<exists>c' s'. udp_step h z w io r is_match f c s = Some (c', s')" if "\<not> udp_finished c" for c s
    using that by (cases c; cases s) (auto split: prod.splits)
  show "udp_work c' < udp_work c" if "udp_step h z w io r is_match f c s = Some (c', s')" for c s c' s'
    using that by (cases c; cases s) (auto split: prod.splits)
qed (auto elim: udp_recv.cases udp_step_ok)


definition demo_wire :: "string list wire" where
  "demo_wire = \<lparr>msg_encode = (\<lambda>_. Inr [1]), msg_decode = (\<lambda>_. Inr (response_message 7 False NoErrorCode [] []))\<rparr>"

definition demo_udp_resolver :: "(string list, nat) udp_resolver" where
  "demo_udp_resolver = \<lparr>lookup_text = (\<lambda>_ _ st. (Inl ''no data'', Suc st)), name_from_utf8 = (\<lambda>_. Inr [])\<rparr>"

definition open_filter :: "string filter_state" where
  "open_filter =
     \<lparr>fl_cname_chain_limit = 8, fl_cname_cloaking = False, fl_rebinding = False,
      fl_blocklist = \<lparr>bl_entries = {}\<rparr>, fl_allowlist = \<lparr>al_entries = {}\<rparr>, fl_per_client = [],
      fl_sinkhole_v4 = 0, fl_sinkhole_v6 = 0, fl_regex_blocklist = []\<rparr>"


end
