(* ===== verification/Build.thy ===== *)
theory Build
  imports RustText
begin

text \<open>
  The build script, \<open>src/build.rs\<close>: it lists the dependency tree with cargo and stops the
  build when a line names one of the crates that must not be linked. The output of cargo is
  the argument; \<open>Some\<close> is the panic with the name that was found.
\<close>

definition forbidden :: "string list" where
  "forbidden = [''aws-lc-rs'', ''aws-lc-sys'', ''openssl'', ''openssl-probe'', ''openssl-sys'', ''bssl'']"

definition build_script :: "string \<Rightarrow> string option" where
  "build_script tree = find (\<lambda>needle. list_ex (str_contains needle) (lines tree)) forbidden"

text \<open>
  The build goes through exactly when no line of the tree contains one of four names; the
  entries \<open>openssl-probe\<close> and \<open>openssl-sys\<close> of the list are already caught by \<open>openssl\<close>, as
  is every other crate whose name or version line contains it.
\<close>

theorem build_script_passes:
  "build_script tree = None \<longleftrightarrow>
     list_all (\<lambda>l. \<not> list_ex (\<lambda>n. str_contains n l) [''aws-lc-rs'', ''aws-lc-sys'', ''openssl'', ''bssl'']) (lines tree)"
proof -
  have sub: "str_contains ''openssl'' ''openssl-probe''" "str_contains ''openssl'' ''openssl-sys''"
    by code_simp+
  have "str_contains ''openssl-probe'' l \<or> str_contains ''openssl-sys'' l \<Longrightarrow> str_contains ''openssl'' l" for l
    using sub str_contains_trans by blast
  then show ?thesis
    by (auto simp: build_script_def forbidden_def find_None_iff list_all_iff list_ex_iff)
qed

end
