(* ===== verification/TestsConfig.thy ===== *)
theory TestsConfig
  imports Config
begin

text \<open>
  The unit tests of \<open>src/config/mod.rs\<close>: the default configuration is accepted and safe, and
  validation refuses each of the mistakes the tests make. The TOML codec of \<open>toml_roundtrip\<close>
  is an argument.
\<close>

definition default_parses :: bool where
  "default_parses = is_ok (validate default_config)"

definition toml_roundtrip ::
  "(config \<Rightarrow> (string, string) result) \<Rightarrow> (string \<Rightarrow> (string, config) result) \<Rightarrow> bool" where
  "toml_roundtrip to_toml from_toml =
     (case to_toml default_config of Inl e \<Rightarrow> False | Inr s \<Rightarrow> is_ok (from_toml s))"

definition safe_defaults :: bool where
  "safe_defaults =
     (let cfg = default_config
      in api_listen (cfg_api cfg) = ''127.0.0.1:5380'' \<and> \<not> ac_totp (cfg_auth cfg) \<and> cfg_listen_tls cfg = []
         \<and> ds_validation (cfg_dnssec cfg) \<and> fc_cname_cloaking (cfg_filter cfg) \<and> fc_rebinding (cfg_filter cfg)
         \<and> \<not> qm_enable (rs_qname_minimization (cfg_resolver cfg))
         \<and> qm_mode (rs_qname_minimization (cfg_resolver cfg)) = Strict
         \<and> qm_max_iterations (rs_qname_minimization (cfg_resolver cfg)) > 0
         \<and> \<not> rs_ecs (cfg_resolver cfg) \<and> cs_serve_stale (cfg_cache cfg))"

definition refused :: "config \<Rightarrow> bool" where
  "refused cfg = (\<not> is_ok (validate cfg))"

definition validates_bad_listen_addr :: bool where
  "validates_bad_listen_addr = refused (default_config\<lparr>cfg_listen := [''not-an-addr'']\<rparr>)"

definition validates_bad_api_listen :: bool where
  "validates_bad_api_listen =
     refused (default_config\<lparr>cfg_api := (cfg_api default_config)\<lparr>api_listen := ''999.999.999.999:5380''\<rparr>\<rparr>)"

definition validates_bad_forward_protocol :: bool where
  "validates_bad_forward_protocol =
     refused (default_config\<lparr>cfg_resolver := (cfg_resolver default_config)\<lparr>rs_forward_protocol := ''invalid''\<rparr>\<rparr>)"

definition validates_zero_concurrency :: bool where
  "validates_zero_concurrency =
     refused (default_config\<lparr>cfg_resolver := (cfg_resolver default_config)\<lparr>rs_concurrency := 0\<rparr>\<rparr>)"

definition validates_zero_timeout :: bool where
  "validates_zero_timeout =
     refused (default_config\<lparr>cfg_resolver := (cfg_resolver default_config)\<lparr>rs_timeout_ms := 0\<rparr>\<rparr>)"

definition validates_zero_cache_size :: bool where
  "validates_zero_cache_size =
     refused (default_config\<lparr>cfg_cache := (cfg_cache default_config)\<lparr>cs_size := 0\<rparr>\<rparr>)"

definition validates_relative_zones_dir :: bool where
  "validates_relative_zones_dir = refused (default_config\<lparr>cfg_zones_dir := ''relative/path''\<rparr>)"

text \<open>The derived default of a zone section, whose algorithm is empty, not the default of the decoder.\<close>

definition default_zone_config :: zone_config where
  "default_zone_config = \<lparr>zc_name = [], zc_kind = [], zc_file = None, zc_primaries = [], zc_dnssec_signing = False,
     zc_dnssec_algorithm = [], zc_dnssec_key = None, zc_nx_proof = None\<rparr>"

definition test_zone :: "string \<Rightarrow> zone_config" where
  "test_zone kind = default_zone_config\<lparr>zc_name := ''test.'', zc_kind := kind, zc_file := None, zc_primaries := []\<rparr>"

definition validates_zone_primary_requires_file :: bool where
  "validates_zone_primary_requires_file = refused (default_config\<lparr>cfg_zones := [test_zone ''primary'']\<rparr>)"

definition validates_zone_secondary_requires_primaries :: bool where
  "validates_zone_secondary_requires_primaries = refused (default_config\<lparr>cfg_zones := [test_zone ''secondary'']\<rparr>)"

definition validates_bad_zone_kind :: bool where
  "validates_bad_zone_kind = refused (default_config\<lparr>cfg_zones := [test_zone ''invalid'']\<rparr>)"

definition validates_bad_log_level :: bool where
  "validates_bad_log_level =
     refused (default_config\<lparr>cfg_log := (cfg_log default_config)\<lparr>lg_level := ''invalid''\<rparr>\<rparr>)"

definition validates_bad_log_format :: bool where
  "validates_bad_log_format =
     refused (default_config\<lparr>cfg_log := (cfg_log default_config)\<lparr>lg_format := ''xml''\<rparr>\<rparr>)"

definition validates_bad_proxy_protocol :: bool where
  "validates_bad_proxy_protocol =
     refused (default_config\<lparr>cfg_proxy := (cfg_proxy default_config)\<lparr>px_protocol := ''v3''\<rparr>\<rparr>)"

lemma default_tests_pass: "default_parses" "safe_defaults"
  by code_simp+

lemma validation_tests_pass:
  "validates_bad_listen_addr" "validates_bad_api_listen" "validates_bad_forward_protocol" "validates_zero_concurrency"
  "validates_zero_timeout" "validates_zero_cache_size" "validates_relative_zones_dir"
  "validates_zone_primary_requires_file" "validates_zone_secondary_requires_primaries" "validates_bad_zone_kind"
  "validates_bad_log_level" "validates_bad_log_format" "validates_bad_proxy_protocol"
  by code_simp+

text \<open>The round trip passes for every codec whose decoder reads back the default configuration.\<close>

lemma toml_roundtrip_passes:
  "to_toml default_config = Inr s \<Longrightarrow> from_toml s = Inr default_config \<Longrightarrow> toml_roundtrip to_toml from_toml"
  by (simp add: toml_roundtrip_def)

end
