(* ===== verification/TestsProxy.thy ===== *)
theory TestsProxy
  imports Proxy
begin

text \<open>
  The unit tests of \<open>src/net/proxy.rs\<close>, as programs over the model's operations with the value
  \<open>True\<close> if every assertion holds.
\<close>

definition crlf :: string where
  "crlf = [char_of (13 :: nat), char_of (10 :: nat)]"

definition v1_tcp4_basic :: bool where
  "v1_tcp4_basic =
     (case parse_proxy_header (str_to_bytes (''PROXY TCP4 192.168.1.100 10.0.0.1 12345 53'' @ crlf)) of
        Inr (Some info) \<Rightarrow>
          pi_version info = PV1 \<and> pi_command info = CmdProxy \<and> pi_source info = SockV4 (ipv4_new 192 168 1 100) 12345
      | _ \<Rightarrow> False)"

definition v1_tcp6_basic :: bool where
  "v1_tcp6_basic =
     (case (parse_proxy_header (str_to_bytes (''PROXY TCP6 2001:db8::1 ::1 12345 53'' @ crlf)), parse_ipv6 ''2001:db8::1'') of
        (Inr (Some info), Some ip) \<Rightarrow> pi_version info = PV1 \<and> pi_source info = SockV6 ip 12345 0 0
      | _ \<Rightarrow> False)"

definition v1_unknown :: bool where
  "v1_unknown = (parse_proxy_header (str_to_bytes (''PROXY UNKNOWN'' @ crlf)) = Inr None)"

definition v2_tcp4_proxy :: bool where
  "v2_tcp4_proxy =
     (let buf = V2_SIGNATURE @ [0x20, 0x10] @ u16_to_be_bytes 12 @ [10, 0, 0, 1] @ [192, 168, 1, 1]
            @ u16_to_be_bytes 443 @ u16_to_be_bytes 80
      in case parse_proxy_header buf of
           Inr (Some info) \<Rightarrow>
             pi_version info = PV2 \<and> pi_command info = CmdProxy \<and> pi_source info = SockV4 (ipv4_new 10 0 0 1) 443
         | _ \<Rightarrow> False)"

definition v2_tcp6_proxy :: bool where
  "v2_tcp6_proxy =
     (let buf = V2_SIGNATURE @ [0x20, 0x20] @ u16_to_be_bytes 36 @ replicate 15 0 @ [1] @ replicate 16 0
            @ u16_to_be_bytes 53 @ u16_to_be_bytes 853
      in case (parse_proxy_header buf, parse_ipv6 ''::1'') of
           (Inr (Some info), Some ip) \<Rightarrow>
             pi_version info = PV2 \<and> pi_command info = CmdProxy \<and> pi_source info = SockV6 ip 53 0 0
         | _ \<Rightarrow> False)"

definition v2_local_command :: bool where
  "v2_local_command =
     (case parse_proxy_header (V2_SIGNATURE @ [0x21, 0x00] @ u16_to_be_bytes 0) of
        Inr (Some info) \<Rightarrow> pi_version info = PV2 \<and> pi_command info = CmdLocal
      | _ \<Rightarrow> False)"

definition not_proxy_protocol :: bool where
  "not_proxy_protocol = (parse_proxy_header (replicate 8 0 @ str_to_bytes ''hello'') = Inr None)"

definition v2_too_short :: bool where
  "v2_too_short = (\<not> is_ok (parse_proxy_header (V2_SIGNATURE @ [0x20])))"

definition v1_no_crlf :: bool where
  "v1_no_crlf = (\<not> is_ok (parse_proxy_header (str_to_bytes ''PROXY TCP4 1.2.3.4 5.6.7.8 1234 5678'')))"

lemma proxy_v1_tests_pass: "v1_tcp4_basic" "v1_tcp6_basic" "v1_unknown" "not_proxy_protocol" "v1_no_crlf"
  by code_simp+

lemma proxy_v2_tests_pass: "v2_tcp4_proxy" "v2_tcp6_proxy" "v2_local_command" "v2_too_short"
  by code_simp+

end
