(* ===== verification/TestsCache.thy ===== *)
theory TestsCache
  imports Cache "HOL-Library.Monad_Syntax"
begin

text \<open>
  The unit tests of \<open>src/core/cache/mod.rs\<close>. A test is the program of the source over the
  model's operations, with the value \<open>True\<close> if every assertion holds and the test returns.
  The instants that the operations read from the clock are the arguments \<open>clk\<close>, so the lemmas
  say for which delays a test passes; the random bytes of the fuzz test come from its seed.
  The JSON codec and the state of the disk are arguments as in \<open>Cache\<close>.
\<close>

subsection \<open>The tests\<close>

definition passes :: "bool option \<Rightarrow> bool" where
  "passes r = (r = Some True)"

lemma passes_simps [simp]: "passes (Some b) = b" "passes None = False"
  by (simp_all add: passes_def)

definition from_millis :: "nat \<Rightarrow> nat" where
  "from_millis n = n * 1000000"

definition test_config :: "nat \<Rightarrow> cache_config" where
  "test_config n = \<lparr>cache_size = n, serve_stale = from_millis 100, prefetch = 2\<rparr>"

definition test_key :: "string \<Rightarrow> cache_key" where
  "test_key q = \<lparr>key_qname = q, key_qtype = 1, key_client_subnet = None\<rparr>"

definition insert_and_lookup :: "(nat \<Rightarrow> nat) \<Rightarrow> bool" where
  "insert_and_lookup clk = passes (do {
     let key = test_key ''example.com'';
     cache \<leftarrow> cache_insert (cache_new (test_config 10)) key [1, 2, 3] (from_secs 60) (clk 0);
     (bs, stale, hits) \<leftarrow> fst (cache_lookup cache key (clk 1));
     Some (bs = [1, 2, 3] \<and> \<not> stale \<and> hits = 1)
   })"

definition hit_counter_increments :: "(nat \<Rightarrow> nat) \<Rightarrow> bool" where
  "hit_counter_increments clk = passes (do {
     let key = test_key ''example.com'';
     cache \<leftarrow> cache_insert (cache_new (test_config 10)) key [1, 2, 3] (from_secs 60) (clk 0);
     let cache = snd (cache_lookup cache key (clk 1));
     let cache = snd (cache_lookup cache key (clk 2));
     let (r, cache) = cache_lookup cache key (clk 3);
     (bs, stale, hits) \<leftarrow> r;
     Some (hits = 3 \<and> cache_hits cache = 3)
   })"

definition miss_counter :: "metrics_registry \<Rightarrow> (nat \<Rightarrow> nat) \<Rightarrow> bool" where
  "miss_counter m clk =
     (let key = test_key ''example.com'';
          (r, cache) = cache_lookup (cache_new (test_config 10)) key (clk 0);
          (cache, m) = record_miss cache m
      in r = None \<and> cache_misses cache = 1)"

fun insert_hosts :: "(nat \<Rightarrow> nat) \<Rightarrow> nat list \<Rightarrow> cache \<Rightarrow> cache option" where
  "insert_hosts clk [] cache = Some cache"
| "insert_hosts clk (i # ts) cache = do {
     cache \<leftarrow> cache_insert cache (test_key (''host'' @ show_nat i @ ''.com'')) [of_nat i] (from_secs 60) (clk i);
     insert_hosts clk ts cache
   }"

definition lru_eviction :: "(nat \<Rightarrow> nat) \<Rightarrow> bool" where
  "lru_eviction clk = passes (do {
     cache \<leftarrow> insert_hosts clk [0..<5] (cache_new (test_config 3));
     let (r0, c0) = cache_lookup cache (test_key ''host0.com'') (clk 5);
     let (r1, c1) = cache_lookup c0 (test_key ''host1.com'') (clk 6);
     let (r2, c2) = cache_lookup c1 (test_key ''host2.com'') (clk 7);
     Some (cache_len cache = 3 \<and> r0 = None \<and> r1 = None \<and> r2 \<noteq> None)
   })"

definition expiry_and_serve_stale :: "(nat \<Rightarrow> nat) \<Rightarrow> bool" where
  "expiry_and_serve_stale clk = passes (do {
     let key = test_key ''example.com'';
     cache \<leftarrow> cache_insert (cache_new \<lparr>cache_size = 10, serve_stale = from_millis 200, prefetch = 0\<rparr>)
       key [1, 2, 3] (from_millis 50) (clk 0);
     Some (\<not> cache_is_expired cache key (clk 1) \<and> cache_is_expired cache key (clk 2))
   })"

definition reap_expired_removes_old_entries :: "(nat \<Rightarrow> nat) \<Rightarrow> bool" where
  "reap_expired_removes_old_entries clk = passes (do {
     cache \<leftarrow> cache_insert (cache_new \<lparr>cache_size = 10, serve_stale = from_millis 50, prefetch = 0\<rparr>)
       (test_key ''example.com'') [1, 2, 3] (from_millis 10) (clk 0);
     Some (cache_is_empty (reap_expired cache (clk 1)))
   })"

fun lookup_times :: "(nat \<Rightarrow> nat) \<Rightarrow> cache_key \<Rightarrow> nat list \<Rightarrow> cache \<Rightarrow> cache" where
  "lookup_times clk key [] cache = cache"
| "lookup_times clk key (i # ts) cache = lookup_times clk key ts (snd (cache_lookup cache key (clk i)))"

definition prefetch_hint :: "(nat \<Rightarrow> nat) \<Rightarrow> bool" where
  "prefetch_hint clk = passes (do {
     let key = test_key ''example.com'';
     cache \<leftarrow> cache_insert (cache_new \<lparr>cache_size = 10, serve_stale = from_secs 30, prefetch = 2\<rparr>)
       key [1, 2, 3] (from_secs 60) (clk 0);
     let hint = should_prefetch cache key (clk 1);
     let cache = lookup_times clk key [2..<12] cache;
     Some (\<not> hint \<and> \<not> should_prefetch cache key (clk 12))
   })"

definition clear_resets_all :: "metrics_registry \<Rightarrow> (nat \<Rightarrow> nat) \<Rightarrow> bool" where
  "clear_resets_all m clk = passes (do {
     let key = test_key ''example.com'';
     cache \<leftarrow> cache_insert (cache_new (test_config 10)) key [1, 2, 3] (from_secs 60) (clk 0);
     let cache = snd (cache_lookup cache key (clk 1));
     let (cache, m) = record_miss cache m;
     let cache = cache_clear cache;
     Some (cache_is_empty cache \<and> cache_hits cache = 0 \<and> cache_misses cache = 0)
   })"

definition update_existing_key :: "(nat \<Rightarrow> nat) \<Rightarrow> bool" where
  "update_existing_key clk = passes (do {
     let key = test_key ''example.com'';
     cache \<leftarrow> cache_insert (cache_new (test_config 10)) key [1] (from_secs 60) (clk 0);
     cache \<leftarrow> cache_insert cache key [2] (from_secs 60) (clk 1);
     let (r, cache) = cache_lookup cache key (clk 2);
     (bs, stale, hits) \<leftarrow> r;
     Some (bs = [2] \<and> cache_len cache = 1)
   })"

text \<open>
  The pseudo-random bytes of the fuzz test (xorshift32), and its loop over the iterations; the
  iteration \<open>i\<close> reads the clock at \<open>clk i\<close>.
\<close>

definition fuzz_byte :: "u32 \<Rightarrow> u8 \<times> u32" where
  "fuzz_byte seed =
     (let seed = seed XOR push_bit 13 seed;
          seed = seed XOR drop_bit 17 seed;
          seed = seed XOR push_bit 5 seed
      in (ucast seed, seed))"

fun fuzz_bytes :: "nat \<Rightarrow> u32 \<Rightarrow> bytes \<times> u32" where
  "fuzz_bytes 0 seed = ([], seed)"
| "fuzz_bytes (Suc n) seed =
     (let (b, seed) = fuzz_byte seed; (bs, seed) = fuzz_bytes n seed in (b # bs, seed))"

definition fuzz_op :: "u8 \<Rightarrow> nat \<Rightarrow> cache_key \<Rightarrow> bytes \<Rightarrow> nat \<Rightarrow> nat \<Rightarrow> cache \<Rightarrow> cache option" where
  "fuzz_op op i key data ttl now cache =
     (if op \<le> 3 then cache_insert cache key data ttl now
      else if op \<le> 5 then Some (snd (cache_lookup cache key now))
      else if op = 6 then Some (reap_expired cache now)
      else if op = 7 \<and> i mod 500 = 0 then Some (cache_clear cache)
      else Some cache)"

fun fuzz_loop :: "(nat \<Rightarrow> nat) \<Rightarrow> nat list \<Rightarrow> u32 \<Rightarrow> cache \<Rightarrow> bool option" where
  "fuzz_loop clk [] seed cache = Some True"
| "fuzz_loop clk (i # ts) seed cache =
     (let (b1, seed) = fuzz_byte seed;
          (b2, seed) = fuzz_byte seed;
          key = \<lparr>key_qname = ''fuzz'' @ show_nat (unat b1 mod 100) @ ''.example.com'', key_qtype = ucast b2,
                 key_client_subnet = None\<rparr>;
          (b3, seed) = fuzz_byte seed;
          (b4, seed) = fuzz_byte seed;
          (data, seed) = fuzz_bytes (unat b4 mod 64) seed;
          (b5, seed) = fuzz_byte seed
      in case fuzz_op (b5 mod 8) i key data (from_millis (10 + unat b3 mod 200)) (clk i) cache of
           None \<Rightarrow> None
         | Some cache \<Rightarrow> if cache_len cache \<le> 64 then fuzz_loop clk ts seed cache else Some False)"

definition fuzz_cache :: cache where
  "fuzz_cache = cache_new \<lparr>cache_size = 64, serve_stale = from_millis 50, prefetch = 0\<rparr>"

definition cache_fuzz_insert_lookup_evict :: "(nat \<Rightarrow> nat) \<Rightarrow> bool" where
  "cache_fuzz_insert_lookup_evict clk = passes (fuzz_loop clk [0..<2000] 0xDEADBEEF fuzz_cache)"

fun rapid_hits :: "(nat \<Rightarrow> nat) \<Rightarrow> cache_key \<Rightarrow> nat list \<Rightarrow> cache \<Rightarrow> bool \<times> cache" where
  "rapid_hits clk key [] cache = (True, cache)"
| "rapid_hits clk key (i # ts) cache =
     (case cache_lookup cache key (clk i) of
        (None, cache) \<Rightarrow> (False, cache)
      | (Some (bs, stale, hits), cache) \<Rightarrow>
          if hits > 0 then rapid_hits clk key ts cache else (False, cache))"

definition cache_fuzz_rapid_hits :: "(nat \<Rightarrow> nat) \<Rightarrow> bool" where
  "cache_fuzz_rapid_hits clk = passes (do {
     let key = test_key ''fuzz-target.example.com'';
     cache \<leftarrow> cache_insert (cache_new \<lparr>cache_size = 32, serve_stale = from_secs 1, prefetch = 2\<rparr>)
       key (replicate 256 42) (from_secs 60) (clk 0);
     let (ok, cache) = rapid_hits clk key [1..<1001] cache;
     Some (ok \<and> should_prefetch cache key (clk 1001))
   })"

definition cache_fuzz_ttl_edge_cases :: "(nat \<Rightarrow> nat) \<Rightarrow> bool" where
  "cache_fuzz_ttl_edge_cases clk = passes (do {
     let key_zero = test_key ''zero-ttl.example.com'';
     let key_max = test_key ''max-ttl.example.com'';
     cache \<leftarrow> cache_insert (cache_new (test_config 10)) key_zero [1] 0 (clk 0);
     let zero_expired = cache_is_expired cache key_zero (clk 1);
     cache \<leftarrow> cache_insert cache key_max [2] (from_secs ((2 ^ 64 - 1) div 2)) (clk 2);
     let max_expired = cache_is_expired cache key_max (clk 3);
     Some (zero_expired \<and> \<not> max_expired \<and> fst (cache_lookup cache key_zero (clk 4)) \<noteq> None)
   })"

text \<open>
  The two tests on the registry read the process-wide counters. The tests of a binary run in
  threads of one process; \<open>others\<close> is what other tests add to the counter between the readings.
\<close>

definition lookup_with_metrics_bumps_cache_hits_total ::
  "u64 \<Rightarrow> metrics_registry \<Rightarrow> (nat \<Rightarrow> nat) \<Rightarrow> bool" where
  "lookup_with_metrics_bumps_cache_hits_total others m clk = passes (do {
     let key = test_key ''metric-hit.example.com'';
     cache \<leftarrow> cache_insert (cache_new (test_config 10)) key [0xAA] (from_secs 60) (clk 0);
     let before = metrics_read m CacheHitsTotal;
     let (r, cache, m) = lookup_with_metrics cache m key (clk 1);
     let m = metrics_increment m CacheHitsTotal others;
     let after = metrics_read m CacheHitsTotal;
     Some (r \<noteq> None \<and> after - before = 1)
   })"

definition lookup_with_metrics_bumps_cache_misses_total ::
  "u64 \<Rightarrow> metrics_registry \<Rightarrow> (nat \<Rightarrow> nat) \<Rightarrow> bool" where
  "lookup_with_metrics_bumps_cache_misses_total others m clk =
     (let cache = cache_new (test_config 10);
          key = test_key ''metric-miss.example.com'';
          before_global = metrics_read m CacheMissesTotal;
          before_local = cache_misses cache;
          (r, cache, m) = lookup_with_metrics cache m key (clk 0);
          m = metrics_increment m CacheMissesTotal others;
          after_global = metrics_read m CacheMissesTotal
      in r = None \<and> after_global - before_global = 1 \<and> cache_misses cache - before_local = 1)"

definition save_load_roundtrip_preserves_entries ::
  "(saved_record list \<Rightarrow> (string, string) result) \<Rightarrow> (string \<Rightarrow> (string, saved_record list) result)
     \<Rightarrow> file_system \<Rightarrow> string \<Rightarrow> (nat \<Rightarrow> nat) \<Rightarrow> bool"
where
  "save_load_roundtrip_preserves_entries to_json from_json fs path clk = passes (do {
     let key = test_key ''persist.example.com'';
     cache \<leftarrow> cache_insert (cache_new (test_config 10)) key [0xDE, 0xAD] (from_secs 120) (clk 0);
     let cache = snd (cache_lookup cache key (clk 1));
     let (saved, fs) = save_to_file to_json (snapshot cache) fs path;
     (case load_from_file from_json (clk 2) fs path of
        Inl e \<Rightarrow> None
      | Inr None \<Rightarrow> None
      | Inr (Some loaded) \<Rightarrow> do {
          (bs, stale, hits) \<leftarrow> fst (cache_lookup loaded key (clk 3));
          Some (saved = Inr () \<and> fs_exists fs path \<and> bs = [0xDE, 0xAD] \<and> hits = 2)
        })
   })"

definition save_load_empty_cache ::
  "(saved_record list \<Rightarrow> (string, string) result) \<Rightarrow> (string \<Rightarrow> (string, saved_record list) result)
     \<Rightarrow> file_system \<Rightarrow> string \<Rightarrow> (nat \<Rightarrow> nat) \<Rightarrow> bool"
where
  "save_load_empty_cache to_json from_json fs path clk =
     (let (saved, fs) = save_to_file to_json (snapshot (cache_new (test_config 10))) fs path
      in saved = Inr ()
         \<and> (case load_from_file from_json (clk 0) fs path of
              Inr (Some loaded) \<Rightarrow> cache_is_empty loaded
            | _ \<Rightarrow> False))"

definition load_fails_with :: "io_error_kind \<Rightarrow> (io_error, cache option) result \<Rightarrow> bool" where
  "load_fails_with kind r = (case r of Inl e \<Rightarrow> io_kind e = kind | Inr c \<Rightarrow> False)"

definition load_from_missing_file_returns_notfound ::
  "(string \<Rightarrow> (string, saved_record list) result) \<Rightarrow> file_system \<Rightarrow> string \<Rightarrow> (nat \<Rightarrow> nat) \<Rightarrow> bool"
where
  "load_from_missing_file_returns_notfound from_json fs path clk =
     load_fails_with NotFound (load_from_file from_json (clk 0) fs path)"

definition load_from_corrupt_file_returns_invalid_data ::
  "(string \<Rightarrow> (string, saved_record list) result) \<Rightarrow> file_system \<Rightarrow> string \<Rightarrow> (nat \<Rightarrow> nat) \<Rightarrow> bool"
where
  "load_from_corrupt_file_returns_invalid_data from_json fs path clk =
     (let (r, fs) = fs_write fs path ''this is not json''
      in r = Inr () \<and> load_fails_with InvalidData (load_from_file from_json (clk 0) fs path))"

subsection \<open>When the tests pass\<close>

lemma cache_insert_room:
  "length (entries c) < cache_size (cache_cfg c) \<Longrightarrow>
    cache_insert c key bs ttl now = Some (put_entry c key (new_entry bs ttl now))"
  by (simp add: cache_insert_def evict_while_full.simps)

lemma cache_insert_full:
  "cache_size (cache_cfg c) \<le> length (entries c) \<Longrightarrow>
    cache_insert c key bs ttl now = cache_insert (evict_lru c) key bs ttl now"
  by (simp add: cache_insert_def evict_while_full.simps [of c])

lemmas run_test = cache_insert_room cache_insert_full evict_lru_def cache_new_def test_config_def test_key_def put_entry_def
  new_entry_def cache_lookup_def update_entry_def Let_def

lemmas entry_times = entry_is_stale_def entry_is_expired_def ttl_remaining_def elapsed_def from_secs_def from_millis_def

text \<open>Tests that pass however long the operations take.\<close>

lemma hit_counter_increments_passes: "hit_counter_increments clk"
  by (simp add: hit_counter_increments_def run_test)

lemma miss_counter_passes: "miss_counter m clk"
  by (simp add: miss_counter_def run_test record_miss_def)

lemma clear_resets_all_passes: "clear_resets_all m clk"
  by (simp add: clear_resets_all_def run_test record_miss_def cache_clear_def cache_is_empty_def)

lemma update_existing_key_passes: "update_existing_key clk"
  by (simp add: update_existing_key_def run_test cache_len_def)

lemma host_names:
  "show_nat 0 = ''0''" "show_nat (Suc 0) = ''1''" "show_nat 2 = ''2''" "show_nat 3 = ''3''" "show_nat 4 = ''4''"
  by code_simp+

lemma lru_eviction_passes: "lru_eviction clk"
proof -
  have u: "[0..<5] = [0, Suc 0, 2, 3, 4]" by code_simp
  show ?thesis unfolding lru_eviction_def u by (simp add: host_names run_test cache_len_def)
qed

text \<open>Tests with a deadline.\<close>

lemma insert_and_lookup_passes_iff:
  "insert_and_lookup clk \<longleftrightarrow> \<not> (from_secs 60 \<le> clk 1 - clk 0 \<and> clk 1 - clk 0 \<le> from_secs 60 + from_millis 100)"
  by (auto simp: insert_and_lookup_def run_test entry_times)

lemma expiry_and_serve_stale_passes_iff:
  "expiry_and_serve_stale clk \<longleftrightarrow> clk 1 - clk 0 < from_millis 50 \<and> from_millis 50 \<le> clk 2 - clk 0"
  by (auto simp: expiry_and_serve_stale_def run_test cache_is_expired_def entry_times)

lemma reap_expired_passes_iff:
  "reap_expired_removes_old_entries clk \<longleftrightarrow> from_millis 60 < clk 1 - clk 0"
  by (auto simp: reap_expired_removes_old_entries_def run_test reap_expired_def dead_keys_def drop_key_def
      cache_is_empty_def entry_times)

text \<open>A cache with one entry under repeated hits.\<close>

lemma lookup_times_single:
  "\<exists>e'. lookup_times clk key ts (cache\<lparr>cache_hits := n, entries := [(key, e)]\<rparr>)
      = cache\<lparr>cache_hits := n + of_nat (length ts), entries := [(key, e')]\<rparr>
    \<and> hit_count e' = hit_count e + of_nat (length ts) \<and> original_ttl e' = original_ttl e
    \<and> inserted_at e' = inserted_at e"
proof (induction ts arbitrary: e n)
  case Nil
  show ?case by (rule exI [of _ e]) simp
next
  case (Cons i ts)
  show ?case
    using Cons.IH [where n = "n + 1" and e = "e\<lparr>hit_count := hit_count e + 1, last_access := clk i\<rparr>"]
    by (simp add: cache_lookup_def update_entry_def add.assoc)
qed

lemma prefetch_hint_passes_iff: "prefetch_hint clk \<longleftrightarrow> clk 12 - clk 0 \<le> from_secs 40"
proof -
  let ?c = "cache_new \<lparr>cache_size = 10, serve_stale = from_secs 30, prefetch = 2\<rparr>"
  let ?k = "test_key ''example.com''" and ?e = "new_entry [1, 2, 3] (from_secs 60) (clk 0)"
  have ins: "cache_insert ?c ?k [1, 2, 3] (from_secs 60) (clk 0)
      = Some ((?c\<lparr>access_order := [?k]\<rparr>)\<lparr>cache_hits := 0, entries := [(?k, ?e)]\<rparr>)"
    by (simp add: cache_insert_room put_entry_def cache_new_def)
  obtain e' where e': "lookup_times clk ?k [2..<12] ((?c\<lparr>access_order := [?k]\<rparr>)\<lparr>cache_hits := 0, entries := [(?k, ?e)]\<rparr>)
      = (?c\<lparr>access_order := [?k]\<rparr>)\<lparr>cache_hits := 10, entries := [(?k, e')]\<rparr>"
    "hit_count e' = 10" "original_ttl e' = from_secs 60" "inserted_at e' = clk 0"
    using lookup_times_single [where key = ?k and ts = "[2..<12]" and cache = "?c\<lparr>access_order := [?k]\<rparr>" and n = 0 and e = ?e] by (auto simp: new_entry_def)
  show ?thesis
    unfolding prefetch_hint_def Let_def ins bind.simps(2) e'(1)
    by (auto simp: should_prefetch_def cache_new_def new_entry_def e' entry_times)
qed

lemma cache_fuzz_ttl_edge_cases_passes_iff:
  "cache_fuzz_ttl_edge_cases clk \<longleftrightarrow> clk 3 - clk 2 < from_secs ((2 ^ 64 - 1) div 2)"
  by (auto simp: cache_fuzz_ttl_edge_cases_def run_test cache_is_expired_def entry_times)

text \<open>
  The fuzz test passes for every seed, every number of iterations and every clock: its
  assertion is the bound that all reachable caches keep.
\<close>

lemma fuzz_op_reachable:
  assumes "cache_reachable cfg c" "0 < cache_size cfg"
  shows "\<exists>c'. fuzz_op op i key data ttl now c = Some c' \<and> cache_reachable cfg c'"
proof -
  obtain ci where "cache_insert c key data ttl now = Some ci" "cache_reachable cfg ci"
    using cache_insert_spec [of c key data ttl now] cache_reachable_inv [OF assms(1)] assms(2)
      reach_step [OF assms(1) step_insert] by (metis cache_inv_def)
  moreover have "cache_reachable cfg (snd (cache_lookup c key now))"
    using reach_step [OF assms(1) step_lookup [of c key now]] by (metis prod.collapse)
  moreover have "cache_reachable cfg (reap_expired c now)" "cache_reachable cfg (cache_clear c)"
    using reach_step [OF assms(1)] step_reap step_clear by blast+
  ultimately show ?thesis using assms(1) by (simp add: fuzz_op_def)
qed

lemma fuzz_loop_passes:
  "cache_reachable cfg c \<Longrightarrow> cache_size cfg = 64 \<Longrightarrow> fuzz_loop clk ts seed c = Some True"
proof (induction ts arbitrary: seed c)
  case (Cons i ts)
  have "\<exists>c'. fuzz_op op i key data ttl now c = Some c' \<and> cache_reachable cfg c' \<and> cache_len c' \<le> 64"
    for op key data ttl now
    using fuzz_op_reachable [OF Cons.prems(1)] Cons.prems(2) cache_reachable_inv
    by (metis cache_inv_def cache_len_def zero_less_numeral)
  then show ?case
    using Cons.IH Cons.prems(2) by (auto simp: Let_def case_prod_beta split: option.split) (metis option.sel option.distinct(1))+
qed simp

lemma fuzz_any_seed: "fuzz_loop clk ts seed fuzz_cache = Some True"
  unfolding fuzz_cache_def by (rule fuzz_loop_passes [OF reach_new]) simp

lemma cache_fuzz_passes: "cache_fuzz_insert_lookup_evict clk"
  by (simp add: cache_fuzz_insert_lookup_evict_def fuzz_any_seed)

lemma rapid_hits_single:
  "unat (hit_count e) + length ts < 2 ^ 64 \<Longrightarrow>
    rapid_hits clk key ts (cache\<lparr>cache_hits := n, entries := [(key, e)]\<rparr>)
      = (True, lookup_times clk key ts (cache\<lparr>cache_hits := n, entries := [(key, e)]\<rparr>))"
proof (induction ts arbitrary: e n)
  case (Cons i ts)
  have u: "unat (hit_count e + 1) = unat (hit_count e) + 1"
    using Cons.prems by (simp add: unat_word_ariths)
  then have "hit_count e + 1 > 0" by (simp add: word_less_nat_alt)
  with Cons.IH [where e = "e\<lparr>hit_count := hit_count e + 1, last_access := clk i\<rparr>" and n = "n + 1"] u Cons.prems
  show ?case by (simp add: cache_lookup_def update_entry_def Let_def)
qed simp

lemma cache_fuzz_rapid_hits_passes: "cache_fuzz_rapid_hits clk"
proof -
  let ?c = "cache_new \<lparr>cache_size = 32, serve_stale = from_secs 1, prefetch = 2\<rparr>"
  let ?k = "test_key ''fuzz-target.example.com''" and ?e = "new_entry (replicate 256 42) (from_secs 60) (clk 0)"
  let ?c1 = "(?c\<lparr>access_order := [?k]\<rparr>)\<lparr>cache_hits := 0, entries := [(?k, ?e)]\<rparr>"
  have ins: "cache_insert ?c ?k (replicate 256 42) (from_secs 60) (clk 0) = Some ?c1"
    by (simp add: cache_insert_room put_entry_def cache_new_def)
  obtain e' where e': "lookup_times clk ?k [1..<1001] ?c1 = (?c\<lparr>access_order := [?k]\<rparr>)\<lparr>cache_hits := 1000, entries := [(?k, e')]\<rparr>"
    "hit_count e' = 1000" "original_ttl e' = from_secs 60"
    using lookup_times_single [where key = ?k and ts = "[1..<1001]" and cache = "?c\<lparr>access_order := [?k]\<rparr>" and n = 0 and e = ?e] by (auto simp: new_entry_def)
  have hits: "rapid_hits clk ?k [1..<1001] ?c1 = (True, (?c\<lparr>access_order := [?k]\<rparr>)\<lparr>cache_hits := 1000, entries := [(?k, e')]\<rparr>)"
    using rapid_hits_single [where key = ?k and ts = "[1..<1001]" and cache = "?c\<lparr>access_order := [?k]\<rparr>" and n = 0 and e = ?e] e'(1) by (simp add: new_entry_def)
  show ?thesis
    unfolding cache_fuzz_rapid_hits_def Let_def ins bind.simps(2) hits
    by (auto simp: should_prefetch_def cache_new_def e' entry_times)
qed

text \<open>
  The tests on the counters pass exactly when no other test counts a lookup meanwhile, so the
  difference of two readings does not make them independent of the other tests.
\<close>

lemma hits_total_test_passes_iff:
  assumes "metrics_populated m"
  shows "lookup_with_metrics_bumps_cache_hits_total others m clk \<longleftrightarrow> others = 0"
proof -
  have "metrics_populated (metrics_increment m CacheHitsTotal 1)" using assms by (rule registry.invar_incr)
  then show ?thesis
    using assms by (simp add: lookup_with_metrics_bumps_cache_hits_total_def run_test lookup_with_metrics_def registry.read_incr)
qed

lemma misses_total_test_passes_iff:
  assumes "metrics_populated m"
  shows "lookup_with_metrics_bumps_cache_misses_total others m clk \<longleftrightarrow> others = 0"
proof -
  have "metrics_populated (metrics_increment m CacheMissesTotal 1)" using assms by (rule registry.invar_incr)
  then show ?thesis
    using assms by (simp add: lookup_with_metrics_bumps_cache_misses_total_def run_test lookup_with_metrics_def
        record_miss_def registry.read_incr)
qed

text \<open>
  The tests on files pass when the path can be written and the JSON codec reads back what it
  wrote (and refuses a text that is not JSON).
\<close>

lemma save_load_empty_cache_passes:
  assumes "io_fault fs path = None" "to_json [] = Inr text" "from_json text = Inr []" "utf8_valid (map code text)"
  shows "save_load_empty_cache to_json from_json fs path clk"
  using assms by (simp add: save_load_empty_cache_def snapshot_def cache_new_def save_to_file_def fs_write_def
      load_from_file_def read_to_string_def load_snapshot_def cache_is_empty_def)

lemma load_from_missing_file_passes:
  "fs_files fs path = None \<Longrightarrow> io_fault fs path = None \<Longrightarrow> load_from_missing_file_returns_notfound from_json fs path clk"
  by (simp add: load_from_missing_file_returns_notfound_def load_fails_with_def load_from_file_def read_to_string_def)

lemma load_from_corrupt_file_passes:
  assumes "io_fault fs path = None" "from_json ''this is not json'' = Inl e"
  shows "load_from_corrupt_file_returns_invalid_data from_json fs path clk"
proof -
  have "utf8_valid (map code ''this is not json'')" by code_simp
  then show ?thesis
    using assms by (simp add: load_from_corrupt_file_returns_invalid_data_def load_fails_with_def fs_write_def
        load_from_file_def read_to_string_def)
qed

lemma save_load_roundtrip_passes:
  assumes "io_fault fs path = None" "\<And>snap. \<exists>text. to_json snap = Inr text \<and> from_json text = Inr snap \<and> utf8_valid (map code text)"
  shows "save_load_roundtrip_preserves_entries to_json from_json fs path clk"
proof -
  let ?snap = "[(test_key ''persist.example.com'', [0xDE, 0xAD], 120, 1)] :: saved_record list"
  obtain t where t: "to_json ?snap = Inr t" "from_json t = Inr ?snap" "utf8_valid (map code t)"
    using assms(2) [of ?snap] by blast
  have "as_secs (from_secs 120) = 120" by (simp add: as_secs_def from_secs_def)
  then show ?thesis
    unfolding save_load_roundtrip_preserves_entries_def
    using assms(1) t
    by (simp add: cache_insert_room put_entry_def cache_new_def test_config_def new_entry_def cache_lookup_def update_entry_def
        snapshot_def save_entry_def save_to_file_def fs_write_def load_from_file_def read_to_string_def load_snapshot_def
        fs_exists_def Let_def)
qed

subsection \<open>Loading and the counters\<close>

text \<open>
  The test that loading counts nothing; \<open>hits\<close> and \<open>misses\<close> are what other tests add meanwhile.
\<close>

definition load_does_not_bump_metrics ::
  "(saved_record list \<Rightarrow> (string, string) result) \<Rightarrow> (string \<Rightarrow> (string, saved_record list) result)
     \<Rightarrow> u64 \<Rightarrow> u64 \<Rightarrow> metrics_registry \<Rightarrow> file_system \<Rightarrow> string \<Rightarrow> (nat \<Rightarrow> nat) \<Rightarrow> bool"
where
  "load_does_not_bump_metrics to_json from_json hits misses m fs path clk = passes (do {
     cache \<leftarrow> cache_insert (cache_new (test_config 10)) (test_key ''x.com'') [1] (from_secs 60) (clk 0);
     let (saved, fs) = save_to_file to_json (snapshot cache) fs path;
     let h_before = metrics_read m CacheHitsTotal;
     let m_before = metrics_read m CacheMissesTotal;
     (case load_from_file from_json (clk 1) fs path of
        Inl e \<Rightarrow> None
      | Inr None \<Rightarrow> None
      | Inr (Some loaded) \<Rightarrow> do {
          let m = metrics_increment (metrics_increment m CacheHitsTotal hits) CacheMissesTotal misses;
          Some (saved = Inr () \<and> h_before \<le> metrics_read m CacheHitsTotal \<and> m_before \<le> metrics_read m CacheMissesTotal)
        })
   })"

text \<open>It passes as long as neither counter wraps around.\<close>

lemma load_does_not_bump_metrics_passes:
  assumes "io_fault fs path = None" "\<And>snap. \<exists>t. to_json snap = Inr t \<and> from_json t = Inr snap \<and> utf8_valid (map code t)"
    and "metrics_populated m" "unat (metrics_read m CacheHitsTotal) + unat hits < 2 ^ 64"
      "unat (metrics_read m CacheMissesTotal) + unat misses < 2 ^ 64"
  shows "load_does_not_bump_metrics to_json from_json hits misses m fs path clk"
proof -
  let ?snap = "[(test_key ''x.com'', [1], 60, 0)] :: saved_record list"
  obtain t where t: "to_json ?snap = Inr t" "from_json t = Inr ?snap" "utf8_valid (map code t)"
    using assms(2) [of ?snap] by blast
  have "as_secs (from_secs 60) = 60" by (simp add: as_secs_def from_secs_def)
  moreover have "metrics_populated (metrics_increment m CacheHitsTotal hits)" using assms(3) by (rule registry.invar_incr)
  moreover have "x \<le> x + y" if "unat x + unat y < 2 ^ 64" for x y :: u64
    using that by (simp add: word_le_nat_alt unat_word_ariths)
  ultimately show ?thesis
    unfolding load_does_not_bump_metrics_def using assms(1,3-5) t
    by (simp add: cache_insert_room put_entry_def cache_new_def test_config_def new_entry_def snapshot_def save_entry_def
        save_to_file_def fs_write_def load_from_file_def read_to_string_def load_snapshot_def update_entry_def
        registry.read_incr Let_def)
qed

end
