(* ===== verification/TestsNet.thy ===== *)
theory TestsNet
  imports Server Tcp TestsCache
begin

text \<open>
  The unit tests of \<open>src/net/\<close> (\<open>cert.rs\<close>, \<open>tcp.rs\<close>, \<open>mod.rs\<close>; those of \<open>proxy.rs\<close> are in \<open>TestsProxy\<close>), as programs over the
  model's operations with the value \<open>True\<close> if every assertion holds. The JSON codec, the TLS
  library and the state of the disk are arguments as in the modelled code.
\<close>

subsection \<open>Messages\<close>

definition max_dns_message_valid :: bool where
  "max_dns_message_valid = (MAX_DNS_MESSAGE = 65535)"

lemma tcp_test_passes: "max_dns_message_valid"
  by (simp add: max_dns_message_valid_def MAX_DNS_MESSAGE_def)

subsection \<open>Certificates\<close>

definition self_signed_roundtrip :: "('cert, 'key, 'ck) tls_lib \<Rightarrow> file_system \<Rightarrow> string \<Rightarrow> bool" where
  "self_signed_roundtrip lib fs dir =
     (case generate_self_signed lib ''test.localhost'' dir fs of
        (Inl e, fs) \<Rightarrow> False
      | (Inr (cert_path, key_path), fs) \<Rightarrow>
          fs_exists fs cert_path \<and> fs_exists fs key_path \<and> is_ok (load_tls_cert lib fs cert_path key_path)
          \<and> (case read_to_string fs cert_path of Inl e \<Rightarrow> False | Inr t \<Rightarrow> str_contains ''BEGIN CERTIFICATE'' t)
          \<and> (case read_to_string fs key_path of Inl e \<Rightarrow> False | Inr t \<Rightarrow> str_contains ''BEGIN PRIVATE KEY'' t))"

definition self_signed_idempotent :: "('cert, 'key, 'ck) tls_lib \<Rightarrow> file_system \<Rightarrow> string \<Rightarrow> bool" where
  "self_signed_idempotent lib fs dir =
     (let (r1, fs) = generate_self_signed lib ''idem.localhost'' dir fs;
          (r2, fs) = generate_self_signed lib ''idem.localhost'' dir fs
      in is_ok r1 \<and> is_ok r2 \<and> r1 = r2)"

definition load_cert_missing_file :: "('cert, 'key, 'ck) tls_lib \<Rightarrow> file_system \<Rightarrow> bool" where
  "load_cert_missing_file lib fs = (\<not> is_ok (load_tls_cert lib fs ''/nonexistent/cert.pem'' ''/nonexistent/key.pem''))"

definition auto_detect_missing :: "file_system \<Rightarrow> bool" where
  "auto_detect_missing fs = (auto_detect_cert_paths fs ''nohost.local'' ''/tmp/nonexistent'' = None)"

definition resolve_cert_explicit :: "file_system \<Rightarrow> bool" where
  "resolve_cert_explicit fs =
     (resolve_cert_paths fs (Some ''/c.pem'') (Some ''/k.pem'') ''host.local'' ''/tmp/le'' = Inr (''/c.pem'', ''/k.pem''))"

lemma certificate_lookup_tests_pass:
  "fs_files fs ''/nonexistent/cert.pem'' = None \<Longrightarrow> load_cert_missing_file lib fs"
  "fs_files fs ''/tmp/nonexistent/nohost.local/fullchain.pem'' = None \<Longrightarrow> auto_detect_missing fs"
  "resolve_cert_explicit fs"
proof -
  have "path_join (path_join ''/tmp/nonexistent'' (trim_end_matches (CHR ''.'') ''nohost.local'')) ''fullchain.pem''
      = ''/tmp/nonexistent/nohost.local/fullchain.pem''" by code_simp
  then show "fs_files fs ''/tmp/nonexistent/nohost.local/fullchain.pem'' = None \<Longrightarrow> auto_detect_missing fs"
    by (simp add: auto_detect_missing_def auto_detect_cert_paths_def fs_exists_def)
qed (auto simp: load_cert_missing_file_def load_tls_cert_def fs_read_def resolve_cert_explicit_def resolve_cert_paths_def
    split: option.split)

text \<open>
  On an empty disk the self-signed tests pass for every TLS library whose certificate and key
  for the host have the PEM marks and fit together.
\<close>

abbreviation empty_disk :: file_system where
  "empty_disk \<equiv> \<lparr>fs_files = Map.empty, io_fault = (\<lambda>p. None)\<rparr>"

definition self_signed_dir :: "string \<Rightarrow> string" where
  "self_signed_dir host = path_join (path_join ''/tmp/t'' ''self_signed'') (trim_end_matches (CHR ''.'') host)"

lemma self_signed_on_empty_disk:
  assumes "self_signed_pems lib (trim_end_matches (CHR ''.'') host) = Inr (cert, key)"
    and "path_join (self_signed_dir host) ''cert.pem'' \<noteq> path_join (self_signed_dir host) ''key.pem''"
  shows "generate_self_signed lib host ''/tmp/t'' empty_disk
    = (Inr (path_join (self_signed_dir host) ''cert.pem'', path_join (self_signed_dir host) ''key.pem''),
       \<lparr>fs_files = [path_join (self_signed_dir host) ''cert.pem'' \<mapsto> cert, path_join (self_signed_dir host) ''key.pem'' \<mapsto> key],
        io_fault = (\<lambda>p. None)\<rparr>)"
  using assms by (simp add: generate_self_signed_def Let_def self_signed_dir_def create_dir_all_def fs_exists_def fs_write_def)

lemma self_signed_roundtrip_passes:
  assumes "self_signed_pems lib ''test.localhost'' = Inr (cert, key)" "pem_certs lib cert = Inr chain" "chain \<noteq> []"
    and "pem_key lib key = Inr k" "certified_key lib chain k = Inr ck"
    and "str_contains ''BEGIN CERTIFICATE'' cert" "str_contains ''BEGIN PRIVATE KEY'' key"
    and "utf8_valid (map code cert)" "utf8_valid (map code key)"
  shows "self_signed_roundtrip lib empty_disk ''/tmp/t''"
proof -
  let ?c = "path_join (self_signed_dir ''test.localhost'') ''cert.pem''"
  let ?k = "path_join (self_signed_dir ''test.localhost'') ''key.pem''"
  have "trim_end_matches (CHR ''.'') ''test.localhost'' = ''test.localhost''" "?c \<noteq> ?k" by code_simp+
  with self_signed_on_empty_disk [of lib "''test.localhost''" cert key] assms(1)
  have "generate_self_signed lib ''test.localhost'' ''/tmp/t'' empty_disk
    = (Inr (?c, ?k), \<lparr>fs_files = [?c \<mapsto> cert, ?k \<mapsto> key], io_fault = (\<lambda>p. None)\<rparr>)" by simp
  then show ?thesis
    using assms \<open>?c \<noteq> ?k\<close>
    by (simp add: self_signed_roundtrip_def load_tls_cert_def fs_read_def fs_exists_def read_to_string_def)
qed

lemma self_signed_idempotent_passes:
  assumes "self_signed_pems lib ''idem.localhost'' = Inr (cert, key)"
  shows "self_signed_idempotent lib empty_disk ''/tmp/t''"
proof -
  let ?d = "self_signed_dir ''idem.localhost''"
  have "trim_end_matches (CHR ''.'') ''idem.localhost'' = ''idem.localhost''"
    and d: "path_join ?d ''cert.pem'' \<noteq> path_join ?d ''key.pem''" "?d \<noteq> path_join ?d ''cert.pem''" "?d \<noteq> path_join ?d ''key.pem''"
    by code_simp+
  then have g: "generate_self_signed lib ''idem.localhost'' ''/tmp/t'' empty_disk
    = (Inr (path_join ?d ''cert.pem'', path_join ?d ''key.pem''),
       \<lparr>fs_files = [path_join ?d ''cert.pem'' \<mapsto> cert, path_join ?d ''key.pem'' \<mapsto> key], io_fault = (\<lambda>p. None)\<rparr>)"
    using self_signed_on_empty_disk [of lib "''idem.localhost''" cert key] assms by simp
  show ?thesis
    using generate_self_signed_idem [OF g] d
    by (simp add: self_signed_idempotent_def g create_dir_all_def flip: self_signed_dir_def)
qed

subsection \<open>The persistent cache\<close>

definition with_persistent :: "string option \<Rightarrow> config" where
  "with_persistent p = default_config\<lparr>cfg_cache := default_cache_section\<lparr>cs_persistent := p\<rparr>\<rparr>"

definition load_persistent_returns_none_when_no_path_configured ::
  "(string \<Rightarrow> (string, saved_record list) result) \<Rightarrow> (string \<Rightarrow> nat option) \<Rightarrow> nat \<Rightarrow> file_system \<Rightarrow> bool" where
  "load_persistent_returns_none_when_no_path_configured from_json file_age now fs =
     (load_persistent_cache from_json file_age now fs (with_persistent None) = Inr None)"

definition load_persistent_returns_none_when_file_missing ::
  "(string \<Rightarrow> (string, saved_record list) result) \<Rightarrow> (string \<Rightarrow> nat option) \<Rightarrow> nat \<Rightarrow> file_system \<Rightarrow> string \<Rightarrow> bool" where
  "load_persistent_returns_none_when_file_missing from_json file_age now fs dir =
     (load_persistent_cache from_json file_age now fs (with_persistent (Some (path_join dir ''nonexistent.json''))) = Inr None)"

definition load_persistent_returns_some_when_file_present ::
  "(saved_record list \<Rightarrow> (string, string) result) \<Rightarrow> (string \<Rightarrow> (string, saved_record list) result)
     \<Rightarrow> (string \<Rightarrow> nat option) \<Rightarrow> (nat \<Rightarrow> nat) \<Rightarrow> file_system \<Rightarrow> string \<Rightarrow> bool"
where
  "load_persistent_returns_some_when_file_present to_json from_json file_age clk fs dir =
     (let path = path_join dir ''cache.json''
      in case cache_insert (cache_new default_cache_config) (test_key ''p.com'') [1, 2, 3] (from_secs 60) (clk 0) of
           None \<Rightarrow> False
         | Some cache \<Rightarrow>
             (case save_to_file to_json (snapshot cache) fs path of
                (Inl e, fs) \<Rightarrow> False
              | (Inr _, fs) \<Rightarrow>
                  (case load_persistent_cache from_json file_age (clk 1) fs (with_persistent (Some path)) of
                     Inr (Some (Some cache)) \<Rightarrow> cache_len cache = 1
                   | _ \<Rightarrow> False)))"

definition save_persistent_writes_to_configured_path ::
  "(saved_record list \<Rightarrow> (string, string) result) \<Rightarrow> file_system \<Rightarrow> string \<Rightarrow> bool" where
  "save_persistent_writes_to_configured_path to_json fs dir =
     (let path = path_join (path_join dir ''nested'') ''cache.json'';
          (r, fs) = save_persistent_cache to_json (with_persistent (Some path)) (snapshot (cache_new default_cache_config)) fs
      in is_ok r \<and> fs_exists fs path)"

definition save_persistent_is_noop_when_no_path_configured ::
  "(saved_record list \<Rightarrow> (string, string) result) \<Rightarrow> file_system \<Rightarrow> bool" where
  "save_persistent_is_noop_when_no_path_configured to_json fs =
     is_ok (fst (save_persistent_cache to_json (with_persistent None) (snapshot (cache_new default_cache_config)) fs))"

definition load_persistent_corrupt_file_is_handled_gracefully ::
  "(string \<Rightarrow> (string, saved_record list) result) \<Rightarrow> (string \<Rightarrow> nat option) \<Rightarrow> nat \<Rightarrow> file_system \<Rightarrow> string \<Rightarrow> bool" where
  "load_persistent_corrupt_file_is_handled_gracefully from_json file_age now fs dir =
     (let path = path_join dir ''corrupt.json'';
          (r, fs) = fs_write fs path ''not-json''
      in is_ok r
         \<and> (case load_persistent_cache from_json file_age now fs (with_persistent (Some path)) of
              Inl e \<Rightarrow> io_kind e = InvalidData
            | Inr c \<Rightarrow> False))"

lemma with_persistent_path [simp]: "cs_persistent (cfg_cache (with_persistent p)) = p"
  by (simp add: with_persistent_def)

lemma persistent_none_tests_pass:
  "load_persistent_returns_none_when_no_path_configured from_json file_age now fs"
  "save_persistent_is_noop_when_no_path_configured to_json fs"
  "fs_files fs (path_join dir ''nonexistent.json'') = None \<Longrightarrow>
    load_persistent_returns_none_when_file_missing from_json file_age now fs dir"
  by (simp_all add: load_persistent_returns_none_when_no_path_configured_def load_persistent_cache_def
      save_persistent_is_noop_when_no_path_configured_def save_persistent_cache_def
      load_persistent_returns_none_when_file_missing_def fs_exists_def)

text \<open>
  A file that was just written is younger than the limit of seven days, so it is read; one with
  another content is reported and not taken for a cache.
\<close>

lemma load_persistent_present_passes:
  assumes "io_fault fs (path_join dir ''cache.json'') = None" "file_age (path_join dir ''cache.json'') = Some age"
    and "age \<le> max_age default_config"
    and "\<And>snap. \<exists>t. to_json snap = Inr t \<and> from_json t = Inr snap \<and> utf8_valid (map code t)"
  shows "load_persistent_returns_some_when_file_present to_json from_json file_age clk fs dir"
proof -
  let ?snap = "[(test_key ''p.com'', [1, 2, 3], 60, 0)] :: saved_record list"
  obtain t where t: "to_json ?snap = Inr t" "from_json t = Inr ?snap" "utf8_valid (map code t)"
    using assms(4) [of ?snap] by blast
  have "as_secs (from_secs 60) = 60" by (simp add: as_secs_def from_secs_def)
  moreover have "max_age (with_persistent p) = max_age default_config" for p
    by (simp add: max_age_def with_persistent_def default_config_def)
  moreover have "cache_size default_cache_config = 50000" by (simp add: default_cache_config_def)
  ultimately show ?thesis
    using assms(1-3) t
    by (simp add: load_persistent_returns_some_when_file_present_def Let_def cache_insert_room put_entry_def cache_new_def
        new_entry_def snapshot_def save_entry_def save_to_file_def fs_write_def load_persistent_cache_def
        load_from_file_def read_to_string_def load_snapshot_def fs_exists_def update_entry_def cache_len_def)
qed

lemma save_persistent_passes:
  assumes "\<And>p. io_fault fs p = None" "fs_files fs = Map.empty" "to_json [] = Inr t"
  shows "save_persistent_writes_to_configured_path to_json fs ''/tmp/t''"
  using assms
  by (simp add: save_persistent_writes_to_configured_path_def save_persistent_cache_def save_to_file_def fs_write_def
      snapshot_def cache_new_def create_dir_all_def fs_exists_def Let_def split: option.split)

lemma load_persistent_corrupt_passes:
  assumes "io_fault fs (path_join dir ''corrupt.json'') = None" "file_age (path_join dir ''corrupt.json'') = None"
    and "from_json ''not-json'' = Inl e"
  shows "load_persistent_corrupt_file_is_handled_gracefully from_json file_age now fs dir"
proof -
  have "utf8_valid (map code ''not-json'')" by code_simp
  then show ?thesis
    using assms by (simp add: load_persistent_corrupt_file_is_handled_gracefully_def Let_def fs_write_def
        load_persistent_cache_def load_from_file_def read_to_string_def fs_exists_def)
qed

end
