(* ===== verification/TestsFilter.thy ===== *)
theory TestsFilter
  imports DnsFilter
begin

text \<open>
  The unit tests of \<open>src/core/filter/\<close> (\<open>blocklist.rs\<close>, \<open>mod.rs\<close>), as programs over the model's
  operations with the value \<open>True\<close> if every assertion holds. Temporary files are entries of
  a file system; nothing is downloaded.
\<close>

definition text_of :: "string list \<Rightarrow> string" where
  "text_of ls = concat (map (\<lambda>l. l @ [newline]) ls)"

definition tmp_files :: "(string \<times> string) list \<Rightarrow> string \<Rightarrow> (io_error, string) result" where
  "tmp_files files = fetch_text (\<lambda>url. Inl ''no network'') \<lparr>fs_files = map_of files, io_fault = (\<lambda>p. None)\<rparr>"

subsection \<open>Blocklists\<close>

definition parse_basic_hosts :: bool where
  "parse_basic_hosts =
     (let bl = parse_hosts blocklist_new (text_of [''# This is a comment'', ''0.0.0.0 ads.example.com'',
            ''127.0.0.1 tracker.example.net'', [], ''0.0.0.0 doubleclick.net''])
      in blocklist_len bl = 3 \<and> blocklist_is_blocked bl ''ads.example.com.'' \<and> blocklist_is_blocked bl ''ads.example.com''
         \<and> blocklist_is_blocked bl ''sub.ads.example.com'' \<and> \<not> blocklist_is_blocked bl ''example.com'')"

definition parse_adguard_format :: bool where
  "parse_adguard_format =
     (let bl = parse_hosts blocklist_new (text_of [''||ads.example.com^'', ''||allowed.example.com^''])
      in blocklist_is_blocked bl ''ads.example.com'' \<and> blocklist_is_blocked bl ''x.ads.example.com''
         \<and> blocklist_is_blocked bl ''allowed.example.com'')"

definition ignore_localhost_and_blank :: bool where
  "ignore_localhost_and_blank =
     blocklist_is_empty (parse_hosts blocklist_new
       (text_of [[], [], ''# c'', ''0.0.0.0 localhost'', ''0.0.0.0 localhost.localdomain'']))"

definition case_insensitive :: bool where
  "case_insensitive =
     (let bl = parse_hosts blocklist_new ''0.0.0.0 Ads.Example.COM''
      in blocklist_is_blocked bl ''ads.example.com'' \<and> blocklist_is_blocked bl ''ADS.EXAMPLE.COM''
         \<and> blocklist_is_blocked bl ''sub.ads.example.com'')"

definition suffix_match_walks_labels :: bool where
  "suffix_match_walks_labels =
     (let bl = parse_hosts blocklist_new ''0.0.0.0 example.com''
      in blocklist_is_blocked bl ''a.b.c.example.com'' \<and> blocklist_is_blocked bl ''example.com''
         \<and> \<not> blocklist_is_blocked bl ''notexample.com'' \<and> \<not> blocklist_is_blocked bl ''example.org'')"

definition allowlist_overrides_blocklist :: bool where
  "allowlist_overrides_blocklist =
     (let bl = parse_hosts blocklist_new (text_of [''0.0.0.0 example.com'']);
          allow = allowlist_load_sources (tmp_files [(''/tmp/allow'', text_of [''0.0.0.0 sub.example.com''])]) [''/tmp/allow'']
      in blocked bl allowlist_new ''x.example.com'' \<and> blocked bl allow ''x.example.com''
         \<and> \<not> blocked bl allow ''sub.example.com'' \<and> \<not> blocked bl allow ''deep.sub.example.com'')"

definition meta_list_detection :: bool where
  "meta_list_detection =
     (looks_like_meta_list (text_of [''# Hagezi lists'', ''https://example.com/a.txt'', ''https://example.com/b.txt'',
        ''https://example.com/c.txt''])
      \<and> \<not> looks_like_meta_list (text_of [''# Hosts file'', ''0.0.0.0 a.example'', ''0.0.0.0 b.example''])
      \<and> \<not> looks_like_meta_list (text_of [''0.0.0.0 a.example'', ''https://example.com/b.txt'']))"

definition meta_list_file_expands_recursively :: bool where
  "meta_list_file_expands_recursively =
     (let bl = blocklist_load_sources
            (tmp_files [(''/tmp/a'', text_of [''0.0.0.0 a.example'']), (''/tmp/b'', text_of [''0.0.0.0 b.example'']),
               (''/tmp/meta'', text_of [''# meta'', ''/tmp/a'', ''/tmp/b''])]) [''/tmp/meta'']
      in blocklist_is_blocked bl ''a.example'' \<and> blocklist_is_blocked bl ''b.example''
         \<and> \<not> blocklist_is_blocked bl ''c.example'')"

definition hosts_line_with_url_prefix_is_rejected :: bool where
  "hosts_line_with_url_prefix_is_rejected =
     blocklist_is_empty (parse_hosts blocklist_new (text_of [''0.0.0.0 https://example.com/list'']))"

definition load_sources_dedup :: bool where
  "load_sources_dedup =
     (blocklist_len (blocklist_load_sources (tmp_files [(''/tmp/a'', text_of [''0.0.0.0 a.example''])])
        [''/tmp/a'', ''/tmp/a'']) = 1)"

definition load_file_inline :: "file_system \<Rightarrow> string \<Rightarrow> (io_error, blocklist) result" where
  "load_file_inline fs path = try_bind (read_to_string fs path) (\<lambda>t. Inr (parse_hosts blocklist_new t))"

definition load_file_roundtrip :: bool where
  "load_file_roundtrip =
     (case load_file_inline \<lparr>fs_files = [''/tmp/a'' \<mapsto> text_of [''# header'', ''0.0.0.0 a.example'', ''0.0.0.0 b.example'']],
             io_fault = (\<lambda>p. None)\<rparr> ''/tmp/a'' of
        Inl e \<Rightarrow> False
      | Inr bl \<Rightarrow> blocklist_len bl = 2 \<and> blocklist_is_blocked bl ''a.example'')"

definition load_sources_missing_is_warned_not_errored :: bool where
  "load_sources_missing_is_warned_not_errored =
     blocklist_is_empty (blocklist_load_sources (tmp_files []) [''/nonexistent/path/hosts''])"

lemma hosts_tests_pass:
  "parse_basic_hosts" "parse_adguard_format" "ignore_localhost_and_blank" "case_insensitive"
  "suffix_match_walks_labels" "hosts_line_with_url_prefix_is_rejected" "load_file_roundtrip"
  by code_simp+

lemma list_tests_pass:
  "allowlist_overrides_blocklist" "meta_list_detection" "meta_list_file_expands_recursively"
  "load_sources_dedup" "load_sources_missing_is_warned_not_errored"
  by code_simp+

subsection \<open>The filter\<close>

text \<open>The tests configure no regular expressions, so the compiler of them is never called.\<close>

definition cfg_with :: "string list \<Rightarrow> filter_config" where
  "cfg_with paths = default_filter\<lparr>fc_blocklists := paths\<rparr>"

definition test_filter :: "(string \<times> string) list \<Rightarrow> filter_config \<Rightarrow> unit filter_state" where
  "test_filter files cfg = filter_new (\<lambda>s. None) (tmp_files files) cfg"

definition test_blocks :: "unit filter_state \<Rightarrow> metrics_registry \<Rightarrow> string \<Rightarrow> ip_addr \<Rightarrow> bool" where
  "test_blocks f m qname client = fst (is_blocked (\<lambda>re s. False) f m qname client)"

definition empty_filter_blocks_nothing :: "metrics_registry \<Rightarrow> bool" where
  "empty_filter_blocks_nothing m =
     (\<not> test_blocks (test_filter [] (cfg_with [])) m ''ads.example.com'' (V4 (ipv4_new 1 2 3 4)))"

definition loaded_blocklist_blocks_and_allows_subdomains :: "metrics_registry \<Rightarrow> bool" where
  "loaded_blocklist_blocks_and_allows_subdomains m =
     (let f = test_filter [(''/tmp/a'', text_of [''0.0.0.0 ads.example.com''])] (cfg_with [''/tmp/a'']);
          client = V4 (ipv4_new 10 0 0 5)
      in test_blocks f m ''ads.example.com'' client \<and> test_blocks f m ''x.ads.example.com'' client
         \<and> \<not> test_blocks f m ''example.com'' client)"

definition per_client_block_false_overrides_blocklist :: "metrics_registry \<Rightarrow> bool" where
  "per_client_block_false_overrides_blocklist m =
     (let cfg = (cfg_with [''/tmp/a''])\<lparr>fc_per_client := [(''10.0.0.0/24'', \<lparr>pc_block = False\<rparr>)]\<rparr>;
          f = test_filter [(''/tmp/a'', text_of [''0.0.0.0 ads.example.com''])] cfg
      in \<not> test_blocks f m ''ads.example.com'' (V4 (ipv4_new 10 0 0 5))
         \<and> test_blocks f m ''ads.example.com'' (V4 (ipv4_new 203 0 113 1)))"

definition cidr_test :: "string \<Rightarrow> ipv4 list \<Rightarrow> ipv4 list \<Rightarrow> bool" where
  "cidr_test s inside outside =
     (case cidr_from_str s of
        Inl e \<Rightarrow> False
      | Inr c \<Rightarrow> list_all (cidr_contains c) inside \<and> list_all (\<lambda>ip. \<not> cidr_contains c ip) outside)"

definition cidr_parse_and_match :: bool where
  "cidr_parse_and_match =
     (cidr_test ''10.0.0.0/24'' [ipv4_new 10 0 0 1, ipv4_new 10 0 0 255] [ipv4_new 10 0 1 1, ipv4_new 11 0 0 1]
      \<and> cidr_test ''192.0.2.1/32'' [ipv4_new 192 0 2 1] [ipv4_new 192 0 2 2]
      \<and> cidr_test ''0.0.0.0/0'' [ipv4_new 1 2 3 4] []
      \<and> \<not> is_ok (cidr_from_str ''not-a-cidr'') \<and> \<not> is_ok (cidr_from_str ''10.0.0.0/33'')
      \<and> \<not> is_ok (cidr_from_str ''10.0.0.0/abc''))"

lemma filter_tests_pass:
  "empty_filter_blocks_nothing metrics_new" "loaded_blocklist_blocks_and_allows_subdomains metrics_new"
  "per_client_block_false_overrides_blocklist metrics_new" "cidr_parse_and_match"
  by code_simp+

end
