(* ===== verification/TestsZone.thy ===== *)
theory TestsZone
  imports Api QueryLog TestsFilter
begin

text \<open>
  The unit tests of \<open>src/core/zone/\<close>, \<open>src/core/dnssec/\<close>, \<open>src/core/metrics/\<close>, \<open>src/core/log/\<close>, \<open>src/api/\<close>,
  \<open>src/auth/\<close> and \<open>src/apps/\<close>, as programs over the model's operations with the value \<open>True\<close> if
  every assertion holds. Names are lists of labels; hexadecimal decoding and the
  cryptography are arguments. The tests that only run hickory's parsers are left out.
\<close>

subsection \<open>Zone files and records\<close>

abbreviation zh :: "string list hickory" where
  "zh \<equiv> list_hickory []"

abbreviation zo :: "string list zone_ops" where
  "zo \<equiv> list_zone_ops []"

definition zone_name :: "string \<Rightarrow> string list" where
  "zone_name s = (case name_from_ascii zh s of Inr n \<Rightarrow> n | Inl e \<Rightarrow> [])"

definition missing_file_errors :: "'n hickory \<Rightarrow> 'n zone_ops \<Rightarrow> file_system \<Rightarrow> bool" where
  "missing_file_errors h z fs = (\<not> is_ok (load_zone_file h z fs ''nope.zone'' ''nope.test.'' ''/tmp'' ZT_Primary None))"

definition parse_tlsa_valid :: "(string \<Rightarrow> bytes option) \<Rightarrow> bool" where
  "parse_tlsa_valid hex =
     (case parse_tlsa_data hex ''3 1 1 d2abde240d7cd3ee6b4b28c54df034b97983a1d16e8a410e4561cb106618e971'' of
        Inl e \<Rightarrow> False
      | Inr t \<Rightarrow> tlsa_usage t = 3 \<and> tlsa_selector t = 1 \<and> tlsa_matching t = 1)"

definition parse_tlsa_bad_length :: "(string \<Rightarrow> bytes option) \<Rightarrow> bool" where
  "parse_tlsa_bad_length hex = (\<not> is_ok (parse_tlsa_data hex ''3 1 1 aabb''))"

definition parse_tlsa_bad_format :: "(string \<Rightarrow> bytes option) \<Rightarrow> bool" where
  "parse_tlsa_bad_format hex = (\<not> is_ok (parse_tlsa_data hex ''3 1''))"

definition parse_record_types :: "'n hickory \<Rightarrow> bool" where
  "parse_record_types h =
     (parse_record_type h ''A'' = Inr T_A \<and> parse_record_type h ''tlsa'' = Inr T_TLSA
      \<and> parse_record_type h ''AAAA'' = Inr T_AAAA \<and> \<not> is_ok (parse_record_type h ''INVALID''))"

lemma missing_file_passes:
  assumes "fs_files fs ''/tmp/nope.zone'' = None"
  shows "missing_file_errors h z fs"
proof -
  have "resolve_zone_path ''nope.zone'' ''/tmp'' = ''/tmp/nope.zone''" by code_simp
  with assms show ?thesis
    by (simp add: missing_file_errors_def load_zone_file_def load_zone_file_with_proof_def fs_exists_def)
qed

lemma tlsa_fields:
  "split_whitespace ''3 1 1 d2abde240d7cd3ee6b4b28c54df034b97983a1d16e8a410e4561cb106618e971''
     = [''3'', ''1'', ''1'', ''d2abde240d7cd3ee6b4b28c54df034b97983a1d16e8a410e4561cb106618e971'']"
  "split_whitespace ''3 1 1 aabb'' = [''3'', ''1'', ''1'', ''aabb'']" "split_whitespace ''3 1'' = [''3'', ''1'']"
  "trim ''aabb'' = ''aabb''" "parse_u8 ''3'' = Some 3" "parse_u8 ''1'' = Some 1"
  "trim ''d2abde240d7cd3ee6b4b28c54df034b97983a1d16e8a410e4561cb106618e971''
     = ''d2abde240d7cd3ee6b4b28c54df034b97983a1d16e8a410e4561cb106618e971''"
  by code_simp+

text \<open>
  The tests on TLSA data pass for every hexadecimal decoder that gives a byte for two digits
  of the two inputs.
\<close>

lemma tlsa_tests_pass:
  "hex ''d2abde240d7cd3ee6b4b28c54df034b97983a1d16e8a410e4561cb106618e971'' = Some cert \<Longrightarrow> length cert = 32 \<Longrightarrow>
    parse_tlsa_valid hex"
  "(\<And>bs. hex ''aabb'' = Some bs \<Longrightarrow> length bs = 2) \<Longrightarrow> parse_tlsa_bad_length hex"
  "parse_tlsa_bad_format hex"
  by (auto simp: parse_tlsa_valid_def parse_tlsa_bad_length_def parse_tlsa_bad_format_def parse_tlsa_data_def tlsa_fields
      ok_or_def split: option.split)

lemma record_type_test_passes: "parse_record_types h"
proof -
  have "to_uppercase ''A'' = ''A''" "to_uppercase ''tlsa'' = ''TLSA''" "to_uppercase ''AAAA'' = ''AAAA''"
    "to_uppercase ''INVALID'' = ''INVALID''" "parse_u16 ''INVALID'' = None" by code_simp+
  then show ?thesis by (simp add: parse_record_types_def parse_record_type_def type_table_def Let_def)
qed

subsection \<open>Catalog zones and NOTIFY\<close>

definition test_verify_catalog_version :: bool where
  "test_verify_catalog_version =
     (let handler = \<lparr>cz_origin = zone_name ''catalog.example.test.'', cz_type = ZT_Secondary\<rparr>;
          record = from_rdata (zone_name ''version.catalog.example.test.'') 300 (RD_TXT [''2''])
      in verify_version zh zo handler [record])"

definition test_parse_member_zones_and_primaries :: bool where
  "test_parse_member_zones_and_primaries =
     (let handler = \<lparr>cz_origin = zone_name ''catalog.example.test.'', cz_type = ZT_Secondary\<rparr>;
          member_name = zone_name ''example.com.'';
          records = [from_rdata (zone_name ''member1.zones.catalog.example.test.'') 300 (RD_PTR member_name),
            from_rdata (zone_name ''primaries.member1.zones.catalog.example.test.'') 300 (RD_A (ipv4_new 192 0 2 1))]
      in case parse_member_zones zo handler records of
           [(uid, name)] \<Rightarrow> uid = ''member1'' \<and> name_eq zo name member_name
             \<and> parse_primaries zh zo handler records uid = [V4 (ipv4_new 192 0 2 1)]
         | _ \<Rightarrow> False)"

definition handle_notify_extracts_zone_and_serial :: "string list message \<Rightarrow> bool" where
  "handle_notify_extracts_zone_and_serial query =
     (let msg = query\<lparr>ms_op := OpNotify, ms_queries := [(zone_name ''example.test.'', T_SOA)]\<rparr>
      in handle_notify zh msg = Inr (''example.test.'', 0))"

lemma catalog_tests_pass: "test_verify_catalog_version" "test_parse_member_zones_and_primaries"
  by code_simp+

lemma notify_test_passes:
  assumes "ms_answers query = []"
  shows "handle_notify_extracts_zone_and_serial query"
proof -
  have "name_utf8 zh (zone_name ''example.test.'') = ''example.test.''" by code_simp
  with assms show ?thesis
    by (simp add: handle_notify_extracts_zone_and_serial_def handle_notify_def answer_serial_def)
qed

subsection \<open>Signing keys\<close>

definition parse_aname_synthetic_cname :: bool where
  "parse_aname_synthetic_cname =
     (case parse_aname_data zh ''target.example.com.'' of
        Inr (RD_CNAME cname) \<Rightarrow> name_utf8 zh cname = ''target.example.com.''
      | _ \<Rightarrow> False)"

definition algorithm_parse :: bool where
  "algorithm_parse =
     (is_ok (algorithm_from_str ''ecdsa-p256'') \<and> is_ok (algorithm_from_str ''ecdsa-p384'')
      \<and> is_ok (algorithm_from_str ''ed25519'') \<and> is_ok (algorithm_from_str ''rsa-sha256'')
      \<and> \<not> is_ok (algorithm_from_str ''invalid''))"

definition key_path_deterministic :: bool where
  "key_path_deterministic =
     (let p1 = key_path_for_zone ''example.test.'' ''/tmp/keys'' ''ecdsa-p256'';
          p2 = key_path_for_zone ''example.test.'' ''/tmp/keys'' ''ecdsa-p256''
      in p1 = p2 \<and> str_contains ''example_test'' p1)"

definition generate_and_load ::
  "(string list, 'key, 'signer) crypto \<Rightarrow> ('signer \<Rightarrow> bool) \<Rightarrow> file_system \<Rightarrow> string \<Rightarrow> string \<Rightarrow> string \<Rightarrow> bool" where
  "generate_and_load c is_zone_signing_key fs keys_dir zone alg =
     (case generate_and_save_key c zone alg keys_dir fs of
        (Inl e, fs) \<Rightarrow> False
      | (Inr key_path, fs) \<Rightarrow>
          fs_exists fs key_path
          \<and> (case load_signer zh c key_path zone alg fs of Inl e \<Rightarrow> False | Inr signer \<Rightarrow> is_zone_signing_key signer))"

definition generate_and_load_ecdsa_p256 ::
  "(string list, 'key, 'signer) crypto \<Rightarrow> ('signer \<Rightarrow> bool) \<Rightarrow> file_system \<Rightarrow> string \<Rightarrow> bool" where
  "generate_and_load_ecdsa_p256 c zsk fs keys_dir = generate_and_load c zsk fs keys_dir ''test.example.'' ''ecdsa-p256''"

definition generate_and_load_ed25519 ::
  "(string list, 'key, 'signer) crypto \<Rightarrow> ('signer \<Rightarrow> bool) \<Rightarrow> file_system \<Rightarrow> string \<Rightarrow> bool" where
  "generate_and_load_ed25519 c zsk fs keys_dir = generate_and_load c zsk fs keys_dir ''test2.example.'' ''ed25519''"

lemma key_tests_pass: "parse_aname_synthetic_cname" "algorithm_parse" "key_path_deterministic"
  by code_simp+

text \<open>
  The key tests pass for every zone, algorithm and directory, as long as the library reads the
  keys that it generates, its signers are zone signing keys and the disk accepts the file.
\<close>

lemma generate_and_load_passes:
  assumes alg: "algorithm_from_str alg = Inr a" "a \<noteq> RSASHA256"
    and crypto: "generate_pkcs8 c a = Inr der" "from_pkcs8 c a der = Inr k" "to_public_key c k = Inr pk"
      "\<And>p k n d. zsk (make_signer c p k n d)"
    and disk: "create_dir_all fs dir = Inr ()" "fs_files fs (key_path_for_zone zone dir alg) = None"
      "io_fault fs (key_path_for_zone zone dir alg) = None"
  shows "generate_and_load c zsk fs dir zone alg"
proof -
  let ?p = "key_path_for_zone zone dir alg"
  have "generate_and_save_key c zone alg dir fs = (Inr ?p, fs\<lparr>fs_files := (fs_files fs)(?p \<mapsto> der)\<rparr>)"
    using alg crypto disk by (simp add: generate_and_save_key_def Let_def fs_exists_def fs_write_def)
  moreover have "load_signer zh c ?p zone alg (fs\<lparr>fs_files := (fs_files fs)(?p \<mapsto> der)\<rparr>)
      = Inr (make_signer c pk k (zone_name zone) DEFAULT_SIG_DURATION)"
    using alg(1) crypto disk(3) by (simp add: load_signer_def fs_read_def zone_name_def list_hickory_def)
  ultimately show ?thesis using crypto(4) by (simp add: generate_and_load_def fs_exists_def)
qed

subsection \<open>Counters, query log, sessions, applications and API\<close>

definition registry_increment_and_read :: bool where
  "registry_increment_and_read = (metrics_read (metrics_increment metrics_new BlockedTotal 3) BlockedTotal = 3)"

definition registry_serialize_contains_counters :: bool where
  "registry_serialize_contains_counters =
     (let text = metrics_serialize (metrics_increment metrics_new CacheHitsTotal 42)
      in str_contains ''# TYPE cache_hits_total counter'' text \<and> str_contains ''cache_hits_total 42'' text)"

definition registry_reset :: bool where
  "registry_reset = (metrics_read (metrics_reset (metrics_increment metrics_new CacheHitsTotal 5)) CacheHitsTotal = 0)"

definition default_url_matches_instance :: bool where
  "default_url_matches_instance = str_contains ''localhost:5432'' default_url"

definition auth_rbac_dns_admin_role :: bool where
  "auth_rbac_dns_admin_role =
     (let session = session_new ''admin''; session = session\<lparr>se_roles := se_roles session @ [''dns_admin'']\<rparr>
      in is_authorized_for_toggle session ''dns_admin'' \<and> \<not> is_authorized_for_toggle session ''dns_superadmin'')"

definition auth_session_default_roles :: bool where
  "auth_session_default_roles =
     (let session = session_new ''operator'' in has_role session ''dns_reader'' \<and> \<not> has_role session ''dns_admin'')"

definition app_registry_identity_override :: bool where
  "app_registry_identity_override =
     (let reg = registry_new
      in reg_apps reg = [] \<and> app_route_override (Some reg) (V4 (ipv4_new 192 0 2 1)) ''test.example.'' = None)"

definition metrics_enabled_default_true :: bool where
  "metrics_enabled_default_true = metrics_enabled default_config"

definition metrics_enabled_can_be_disabled :: bool where
  "metrics_enabled_can_be_disabled =
     (\<not> metrics_enabled (default_config\<lparr>cfg_metrics := (cfg_metrics default_config)\<lparr>mt_enable := False\<rparr>\<rparr>))"

definition filter_stats_reports_real_blocklist_count :: bool where
  "filter_stats_reports_real_blocklist_count =
     (let filter = test_filter [(''/tmp/a'', text_of [''0.0.0.0 a.example.com'', ''0.0.0.0 b.example.com'',
            ''0.0.0.0 c.example.com''])] (cfg_with [''/tmp/a'']);
          state = \<lparr>as_config = default_config, as_zones = [], as_filter = filter\<rparr>
      in blocklist_len (fl_blocklist filter) = 3 \<and> blocklist_len (fl_blocklist (as_filter state)) = 3)"

lemma registry_tests_pass: "registry_increment_and_read" "registry_reset"
  by code_simp+

lemma registry_serialize_test_passes: "registry_serialize_contains_counters"
proof -
  let ?m = "metrics_increment metrics_new CacheHitsTotal 42"
  have m: "metrics_read ?m CacheHitsTotal = 42"
    by (simp add: registry.read_incr metrics_new_populated metrics_read_new)
  have d: "show_nat 42 = ''42''" by code_simp
  obtain rest where "metrics_serialize ?m = metrics_block ?m CacheHitsTotal @ rest"
    by (simp add: metrics_serialize_concat all_metrics_def)
  then have "metrics_serialize ?m = [] @ ''# TYPE cache_hits_total counter'' @ ([newline] @ ''# HELP cache_hits_total Total cache hits''
      @ [newline] @ ''cache_hits_total 42'' @ [newline] @ rest)"
    and "metrics_serialize ?m = (''# TYPE cache_hits_total counter'' @ [newline] @ ''# HELP cache_hits_total Total cache hits''
      @ [newline]) @ ''cache_hits_total 42'' @ ([newline] @ rest)"
    by (simp_all add: metrics_block_def metric_type_def m d)
  then show ?thesis
    unfolding registry_serialize_contains_counters_def Let_def using str_containsI by metis
qed

lemma session_and_app_tests_pass:
  "default_url_matches_instance" "auth_rbac_dns_admin_role" "auth_session_default_roles" "app_registry_identity_override"
  by code_simp+

lemma api_tests_pass:
  "metrics_enabled_default_true" "metrics_enabled_can_be_disabled" "filter_stats_reports_real_blocklist_count"
  by code_simp+

text \<open>The last test also holds of the answer that the handler gives, which it does not call.\<close>

lemma filter_stats_answer:
  "fs_blocklist_entries (filter_stats \<lparr>as_config = default_config, as_zones = [],
     as_filter = test_filter [(''/tmp/a'', text_of [''0.0.0.0 a.example.com'', ''0.0.0.0 b.example.com'',
       ''0.0.0.0 c.example.com''])] (cfg_with [''/tmp/a''])\<rparr>) = 3"
  by code_simp

subsection \<open>Loading the example zones\<close>

text \<open>
  The tests that load the zone files of the repository; \<open>dir\<close> is the directory \<open>config/zones/live\<close>.
  What hickory reads from the files is its parser's, an argument. The names compared without
  case are written in ASCII.
\<close>

definition load_example_test_zone :: "'n hickory \<Rightarrow> 'n zone_ops \<Rightarrow> file_system \<Rightarrow> string \<Rightarrow> bool" where
  "load_example_test_zone h z fs dir =
     is_ok (load_zone_file h z fs ''example.test.zone'' ''example.test.'' dir ZT_Primary None)"

definition load_reverse_zone :: "'n hickory \<Rightarrow> 'n zone_ops \<Rightarrow> file_system \<Rightarrow> string \<Rightarrow> bool" where
  "load_reverse_zone h z fs dir =
     is_ok (load_zone_file h z fs ''10.in-addr.arpa.zone'' ''10.in-addr.arpa.'' dir ZT_Primary None)"

definition load_zone_records_count :: "'n hickory \<Rightarrow> 'n zone_ops \<Rightarrow> file_system \<Rightarrow> string \<Rightarrow> bool" where
  "load_zone_records_count h z fs dir =
     (case load_zone_file h z fs ''example.test.zone'' ''example.test.'' dir ZT_Primary None of
        Inl e \<Rightarrow> False
      | Inr zone \<Rightarrow> 8 \<le> length (zh_records zone))"

definition soa_rname_patched :: "'n hickory \<Rightarrow> 'n zone_ops \<Rightarrow> file_system \<Rightarrow> string \<Rightarrow> bool" where
  "soa_rname_patched h z fs dir =
     (case (load_zone_file h z fs ''example.test.zone'' ''example.test.'' dir ZT_Primary (Some ''admin.mynetwork.test.''),
            name_from_ascii h ''example.test.'', name_from_ascii h ''admin.mynetwork.test.'') of
        (Inr zone, Inr origin, Inr expected) \<Rightarrow>
          (case old_soa (lower_name z origin, T_SOA) zone of
             None \<Rightarrow> False
           | Some soa \<Rightarrow>
               to_ascii_lowercase (name_utf8 h (soa_rname_field soa)) = to_ascii_lowercase (name_utf8 h expected))
      | _ \<Rightarrow> False)"

text \<open>
  They pass when the files exist and hickory reads them; the one on the mailbox then needs no
  more than a SOA record at the origin, whatever mailbox the file names.
\<close>

lemma load_zone_tests_pass:
  assumes "fs_exists fs (resolve_zone_path ''example.test.zone'' dir)" "name_from_ascii h ''example.test.'' = Inr origin"
    and "try_from_config z fs (resolve_zone_path ''example.test.zone'' dir) origin ZT_Primary AxfrAllowAll (Some Nsec) = Inr a"
  shows "load_example_test_zone h z fs dir" "load_zone_records_count h z fs dir \<longleftrightarrow> 8 \<le> length (zh_records a)"
  using assms
  by (simp_all add: load_example_test_zone_def load_zone_records_count_def load_zone_file_def load_zone_file_with_proof_def)

lemma load_reverse_zone_passes:
  assumes "fs_exists fs (resolve_zone_path ''10.in-addr.arpa.zone'' dir)" "name_from_ascii h ''10.in-addr.arpa.'' = Inr origin"
    and "try_from_config z fs (resolve_zone_path ''10.in-addr.arpa.zone'' dir) origin ZT_Primary AxfrAllowAll (Some Nsec) = Inr a"
  shows "load_reverse_zone h z fs dir"
  using assms by (simp add: load_reverse_zone_def load_zone_file_def load_zone_file_with_proof_def)

lemma soa_rname_patched_passes:
  assumes "upsert_law z" "fs_exists fs (resolve_zone_path ''example.test.zone'' dir)"
    and names: "name_from_ascii h ''example.test.'' = Inr origin" "name_from_ascii h ''admin.mynetwork.test.'' = Inr rname"
    and zone: "try_from_config z fs (resolve_zone_path ''example.test.zone'' dir) origin ZT_Primary AxfrAllowAll (Some Nsec) = Inr a"
      "old_soa (lower_name z origin, T_SOA) a = Some soa"
  shows "soa_rname_patched h z fs dir"
proof -
  let ?key = "(lower_name z origin, T_SOA)" and ?new = "RD_SOA (soa\<lparr>soa_rname_field := rname\<rparr>)"
  let ?a = "upsert_mut z (from_rdata origin 86400 ?new) 0 (a\<lparr>zh_records := AList.delete ?key (zh_records a)\<rparr>)"
  have "map_of (zh_records ?a) ?key = Some \<lparr>rs_records = [from_rdata origin 86400 ?new], rs_rrsigs = []\<rparr>"
    using assms(1) by (simp add: upsert_law_def map_of_remove_key)
  then have "old_soa ?key ?a = Some (soa\<lparr>soa_rname_field := rname\<rparr>)" by (simp add: old_soa_def)
  moreover have "load_zone_file h z fs ''example.test.zone'' ''example.test.'' dir ZT_Primary (Some ''admin.mynetwork.test.'') = Inr ?a"
    using assms by (cases soa) (simp add: load_zone_file_def load_zone_file_with_proof_def patch_soa_rname_def)
  ultimately show ?thesis using names by (simp add: soa_rname_patched_def)
qed

end
