(* ===== verification/TestsResolver.thy ===== *)
theory TestsResolver
  imports Forward
begin

text \<open>
  The unit tests of \<open>src/core/resolver/\<close> (\<open>qname_min.rs\<close>, \<open>dns64.rs\<close>, \<open>forward.rs\<close>), as programs
  over the model's operations with the value \<open>True\<close> if every assertion holds. Names are
  lists of labels, as in the instance \<open>list_hickory\<close> of hickory. The mock resolver is the
  source's: a queue of canned responses and the list of the calls.
\<close>

subsection \<open>Query-name minimisation\<close>

abbreviation lh :: "string list hickory" where
  "lh \<equiv> list_hickory []"

definition test_name :: "string \<Rightarrow> string list" where
  "test_name s = (case name_from_ascii lh s of Inr n \<Rightarrow> n | Inl e \<Rightarrow> [])"

definition a_record :: "string list \<Rightarrow> ipv4 \<Rightarrow> string list rr" where
  "a_record qname ip = from_rdata qname 300 (RD_A ip)"

record seq_mock =
  mock_responses :: "(string list \<times> record_type \<times> (string, string list rr list) result) list"
  mock_calls :: "(string list \<times> record_type) list"

definition mock_new :: "(string list \<times> record_type \<times> (string, string list rr list) result) list \<Rightarrow> seq_mock" where
  "mock_new rs = \<lparr>mock_responses = rs, mock_calls = []\<rparr>"

definition mock_lookup :: "(string list, seq_mock) min_resolver" where
  "mock_lookup name qtype mock =
     (let mock = mock\<lparr>mock_calls := mock_calls mock @ [(name, qtype)]\<rparr>
      in case mock_responses mock of
           [] \<Rightarrow> (Inl ''SeqMock: no more responses'', mock)
         | (q, t, r) # rest \<Rightarrow> (r, mock\<lparr>mock_responses := rest\<rparr>))"

definition qmin_test_config :: "u8 \<Rightarrow> qmin_config" where
  "qmin_test_config k = default_qmin\<lparr>qm_enable := True, qm_max_iterations := k\<rparr>"

definition peel_full_name_yields_labels_in_order :: bool where
  "peel_full_name_yields_labels_in_order =
     (case peel_labels lh (test_name ''foo.bar.example.com.'') of
        None \<Rightarrow> False
      | Some labels \<Rightarrow>
          (let names = map (name_utf8 lh) labels
           in take 4 names = [''foo.bar.example.com.'', ''bar.example.com.'', ''example.com.'', ''com.'']
              \<and> is_root lh (last labels)))"

definition peel_single_label_name_includes_root_probe :: bool where
  "peel_single_label_name_includes_root_probe =
     (case peel_labels lh (test_name ''example.'') of
        Some [n0, n1] \<Rightarrow> name_utf8 lh n0 = ''example.'' \<and> is_root lh n1
      | _ \<Rightarrow> False)"

definition peel_root_name_yields_root_entry :: bool where
  "peel_root_name_yields_root_entry =
     (case peel_labels lh (name_root lh) of Some [n0] \<Rightarrow> is_root lh n0 | _ \<Rightarrow> False)"

definition peel_seven_labels_includes_root :: bool where
  "peel_seven_labels_includes_root =
     (case peel_labels lh (test_name ''a.b.c.d.e.f.g.'') of Some labels \<Rightarrow> length labels = 8 | None \<Rightarrow> False)"

definition root_name_returns_error_no_calls :: "metrics_registry \<Rightarrow> bool" where
  "root_name_returns_error_no_calls m =
     (case resolve_with_minimization lh mock_lookup (name_root lh) T_A default_qmin m (mock_new []) of
        Some (res, m, mock) \<Rightarrow> \<not> is_ok res \<and> mock_calls mock = []
      | None \<Rightarrow> False)"

definition single_label_name_two_queries_with_root_probe :: "metrics_registry \<Rightarrow> bool" where
  "single_label_name_two_queries_with_root_probe m =
     (let one = test_name ''example.'';
          mock = mock_new [(one, T_A, Inr [a_record one 0x01020304]), (name_root lh, T_A, Inr [])]
      in case resolve_with_minimization lh mock_lookup one T_A (qmin_test_config 7) m mock of
           Some (Inr r, m, mock) \<Rightarrow>
             map (\<lambda>rec. name_utf8 lh (rr_name rec)) (qr_records r) = [''example.''] \<and> qr_steps r = 2
             \<and> length (mock_calls mock) = 2
             \<and> (case mock_calls mock of (q, t) # _ \<Rightarrow> name_utf8 lh q = ''example.'' \<and> t = T_A | [] \<Rightarrow> False)
         | _ \<Rightarrow> False)"

definition has_a_record :: "string \<Rightarrow> string list rr list \<Rightarrow> bool" where
  "has_a_record s recs = list_ex (\<lambda>rec. name_utf8 lh (rr_name rec) = s
     \<and> (case rr_data rec of RD_A _ \<Rightarrow> True | _ \<Rightarrow> False)) recs"

definition four_label_name_peels_through_intermediate_steps :: "metrics_registry \<Rightarrow> bool" where
  "four_label_name_peels_through_intermediate_steps m =
     (let full = test_name ''a.b.example.com.'';
          mock = mock_new [(full, T_A, Inr [a_record full 0x0A000001]), (test_name ''b.example.com.'', T_A, Inr []),
            (test_name ''example.com.'', T_A, Inr []), (test_name ''com.'', T_A, Inr []), (name_root lh, T_A, Inr [])]
      in case resolve_with_minimization lh mock_lookup full T_A (qmin_test_config 7) m mock of
           Some (Inr r, m, mock) \<Rightarrow>
             (let asked = map (\<lambda>(q, t). name_utf8 lh q) (mock_calls mock)
              in \<not> qr_fell_back r \<and> has_a_record ''a.b.example.com.'' (qr_records r)
                 \<and> take 1 asked = [''a.b.example.com.''] \<and> map snd (take 1 (mock_calls mock)) = [T_A]
                 \<and> list_all (\<lambda>q. q \<in> set asked) [''b.example.com.'', ''example.com.'', ''com.''])
         | _ \<Rightarrow> False)"

definition timeout_falls_back_to_unminimized :: "metrics_registry \<Rightarrow> bool" where
  "timeout_falls_back_to_unminimized m =
     (let full = test_name ''x.example.com.'';
          mock = mock_new [(full, T_A, Inl ''request timed out''), (full, T_A, Inr [a_record full 0x0A000001])]
      in case resolve_with_minimization lh mock_lookup full T_A (qmin_test_config 1) m mock of
           Some (Inr r, m, mock) \<Rightarrow> qr_fell_back r \<and> has_a_record ''x.example.com.'' (qr_records r)
         | _ \<Rightarrow> False)"

definition empty_answers_during_peeling_still_proceeds :: "metrics_registry \<Rightarrow> bool" where
  "empty_answers_during_peeling_still_proceeds m =
     (let full = test_name ''y.example.com.'';
          mock = mock_new [(full, T_A, Inr []), (test_name ''example.com.'', T_A, Inr []), (test_name ''com.'', T_A, Inr []),
            (name_root lh, T_A, Inr []), (full, T_A, Inr [a_record full 0x0A000002])]
      in case resolve_with_minimization lh mock_lookup full T_A (qmin_test_config 7) m mock of
           Some (Inr r, m, mock) \<Rightarrow> qr_fell_back r \<and> qr_steps r = 4 \<and> length (mock_calls mock) = 5
         | _ \<Rightarrow> False)"

definition default_config_is_opt_in_strict_mode :: bool where
  "default_config_is_opt_in_strict_mode =
     (let cfg = default_qmin in \<not> qm_enable cfg \<and> qm_mode cfg = Strict \<and> qm_max_iterations cfg > 0)"

text \<open>The tests on the counter; \<open>others\<close> is what tests running at the same time add to it.\<close>

definition qmin_steps_total_bumped_per_peel_step :: "u64 \<Rightarrow> metrics_registry \<Rightarrow> bool" where
  "qmin_steps_total_bumped_per_peel_step others m =
     (let full = test_name ''a.b.example.com.'';
          mock = mock_new [(full, T_A, Inr [a_record full 0x0A000001]), (test_name ''b.example.com.'', T_A, Inr []),
            (test_name ''example.com.'', T_A, Inr []), (test_name ''com.'', T_A, Inr [])];
          before = metrics_read m QminStepsTotal
      in case resolve_with_minimization lh mock_lookup full T_A (qmin_test_config 7) m mock of
           Some (Inr r, m, mock) \<Rightarrow>
             metrics_read (metrics_increment m QminStepsTotal others) QminStepsTotal - before \<ge> 1
         | _ \<Rightarrow> False)"

definition qmin_steps_total_counts_fallback :: "u64 \<Rightarrow> metrics_registry \<Rightarrow> bool" where
  "qmin_steps_total_counts_fallback others m =
     (let full = test_name ''z.example.com.'';
          mock = mock_new [(full, T_A, Inr []), (test_name ''example.com.'', T_A, Inr []),
            (full, T_A, Inr [a_record full 0x0A000003])];
          before = metrics_read m QminStepsTotal
      in case resolve_with_minimization lh mock_lookup full T_A (qmin_test_config 2) m mock of
           Some (Inr r, m, mock) \<Rightarrow>
             qr_fell_back r
             \<and> metrics_read (metrics_increment m QminStepsTotal others) QminStepsTotal - before \<ge> 3
         | _ \<Rightarrow> False)"

declare peel_loop.simps [code]

lemma peel_tests_pass:
  "peel_full_name_yields_labels_in_order" "peel_single_label_name_includes_root_probe"
  "peel_root_name_yields_root_entry" "peel_seven_labels_includes_root"
  by code_simp+

lemma qmin_default_test_passes: "default_config_is_opt_in_strict_mode"
  by code_simp

lemma minimization_tests_pass:
  "root_name_returns_error_no_calls m" "single_label_name_two_queries_with_root_probe m"
  "four_label_name_peels_through_intermediate_steps m" "timeout_falls_back_to_unminimized m"
  "empty_answers_during_peeling_still_proceeds m"
  by code_simp+

lemma peeled_names:
  "peel_labels lh (test_name ''a.b.example.com.'') = Some [test_name ''a.b.example.com.'', test_name ''b.example.com.'',
     test_name ''example.com.'', test_name ''com.'', name_root lh]"
  "peel_labels lh (test_name ''z.example.com.'') = Some [test_name ''z.example.com.'', test_name ''example.com.'',
     test_name ''com.'', name_root lh]"
  "num_labels lh (test_name ''a.b.example.com.'') = 4" "num_labels lh (test_name ''z.example.com.'') = 3"
  by code_simp+

lemmas run_qmin = resolve_with_minimization_def peeled_names qmin_plan_def qmin_test_config_def default_qmin_def
  qmin_step_def mock_lookup_def mock_new_def Let_def

text \<open>
  The tests on the counter pass whatever other tests add, as long as the counter does not wrap:
  they ask for at least the steps of their own lookup.
\<close>

lemma qmin_steps_test_passes:
  assumes "metrics_populated m" "unat others < 2 ^ 63"
  shows "qmin_steps_total_bumped_per_peel_step others m"
proof -
  let ?m = "metrics_increment m QminStepsTotal 5"
  have "metrics_populated ?m" using assms(1) by (rule registry.invar_incr)
  then have "metrics_read (metrics_increment ?m QminStepsTotal others) QminStepsTotal - metrics_read m QminStepsTotal = 5 + others"
    using assms(1) by (simp add: registry.read_incr)
  moreover have "1 \<le> 5 + others" using assms(2) by (simp add: word_le_nat_alt unat_word_ariths)
  ultimately show ?thesis
    by (simp add: qmin_steps_total_bumped_per_peel_step_def run_qmin a_record_def)
qed

lemma qmin_fallback_test_passes:
  assumes "metrics_populated m" "unat others < 2 ^ 63"
  shows "qmin_steps_total_counts_fallback others m"
proof -
  let ?m = "metrics_increment (metrics_increment m QminStepsTotal 2) QminStepsTotal 1"
  have "metrics_populated (metrics_increment m QminStepsTotal 2)" "metrics_populated ?m"
    using assms(1) by (simp_all add: registry.invar_incr)
  then have "metrics_read (metrics_increment ?m QminStepsTotal others) QminStepsTotal - metrics_read m QminStepsTotal = 3 + others"
    using assms(1) by (simp add: registry.read_incr)
  moreover have "3 \<le> 3 + others" using assms(2) by (simp add: word_le_nat_alt unat_word_ariths)
  ultimately show ?thesis
    by (simp add: qmin_steps_total_counts_fallback_def run_qmin a_record_def)
qed

subsection \<open>DNS64\<close>

definition parse_prefix_basic :: bool where
  "parse_prefix_basic =
     (case dns64_parse ''64:ff9b::/96'' of
        None \<Rightarrow> False
      | Some p \<Rightarrow> px_addr p = ipv6_from_segments [0x64, 0xff9b, 0, 0, 0, 0, 0, 0] \<and> px_len p = 96)"

definition synthesize_prefix_96 :: "metrics_registry \<Rightarrow> bool" where
  "synthesize_prefix_96 m =
     (case dns64_parse ''64:ff9b::/96'' of
        None \<Rightarrow> False
      | Some prefix \<Rightarrow>
          fst (synthesize_aaaa m [ipv4_new 192 0 2 1] prefix)
            = [ipv6_from_segments [0x64, 0xff9b, 0, 0, 0, 0, 0xc000, 0x0201]])"

definition synthesize_prefix_64 :: "metrics_registry \<Rightarrow> bool" where
  "synthesize_prefix_64 m =
     (case dns64_parse ''64:ff9b::/64'' of
        None \<Rightarrow> False
      | Some prefix \<Rightarrow>
          fst (synthesize_aaaa m [ipv4_new 192 0 2 1] prefix)
            = [ipv6_from_segments [0x64, 0xff9b, 0, 0, 0xc000, 0x0201, 0, 0]])"

definition synthesize_multiple_a :: "metrics_registry \<Rightarrow> bool" where
  "synthesize_multiple_a m =
     (case dns64_parse ''64:ff9b::/96'' of
        None \<Rightarrow> False
      | Some prefix \<Rightarrow>
          map (\<lambda>a. drop 12 (ipv6_octets a)) (fst (synthesize_aaaa m [ipv4_new 192 0 2 1, ipv4_new 192 0 2 2] prefix))
            = [[192, 0, 2, 1], [192, 0, 2, 2]])"

definition synthesize_unsupported_prefix_len :: "metrics_registry \<Rightarrow> bool" where
  "synthesize_unsupported_prefix_len m =
     (case dns64_parse ''64:ff9b::/56'' of
        None \<Rightarrow> False
      | Some prefix \<Rightarrow> fst (synthesize_aaaa m [ipv4_new 192 0 2 1] prefix) = [])"

definition parse_invalid_prefix :: bool where
  "parse_invalid_prefix = (dns64_parse ''not-a-prefix'' = None \<and> dns64_parse ''64:ff9b::/200'' = None)"

definition synth_bumps_dns64_synthesized_total :: "u64 \<Rightarrow> metrics_registry \<Rightarrow> bool" where
  "synth_bumps_dns64_synthesized_total others m =
     (case dns64_parse ''64:ff9b::/96'' of
        None \<Rightarrow> False
      | Some prefix \<Rightarrow>
          (let before = metrics_read m Dns64SynthesizedTotal;
               (result, m) = synthesize_aaaa m [ipv4_new 192 0 2 1, ipv4_new 192 0 2 2] prefix;
               after = metrics_read (metrics_increment m Dns64SynthesizedTotal others) Dns64SynthesizedTotal
           in length result = 2 \<and> after - before = 2))"

definition synth_unsupported_prefix_does_not_bump_metric :: "u64 \<Rightarrow> metrics_registry \<Rightarrow> bool" where
  "synth_unsupported_prefix_does_not_bump_metric others m =
     (case dns64_parse ''64:ff9b::/56'' of
        None \<Rightarrow> False
      | Some prefix \<Rightarrow>
          (let before = metrics_read m Dns64SynthesizedTotal;
               (result, m) = synthesize_aaaa m [ipv4_new 192 0 2 1] prefix;
               after = metrics_read (metrics_increment m Dns64SynthesizedTotal others) Dns64SynthesizedTotal
           in result = [] \<and> after - before = 0))"

text \<open>The prefixes and addresses of the tests, evaluated once.\<close>

lemma test_prefixes:
  "dns64_parse ''64:ff9b::/96'' = Some \<lparr>px_addr = 0x64ff9b000000000000000000000000, px_len = 96\<rparr>"
  "dns64_parse ''64:ff9b::/64'' = Some \<lparr>px_addr = 0x64ff9b000000000000000000000000, px_len = 64\<rparr>"
  "dns64_parse ''64:ff9b::/56'' = Some \<lparr>px_addr = 0x64ff9b000000000000000000000000, px_len = 56\<rparr>"
  by code_simp+

lemma test_octets:
  "ipv6_octets 0x64ff9b000000000000000000000000 = [0, 0x64, 0xff, 0x9b, 0, 0, 0, 0, 0, 0, 0, 0, 0, 0, 0, 0]"
  "ipv4_octets (ipv4_new 192 0 2 1) = [192, 0, 2, 1]" "ipv4_octets (ipv4_new 192 0 2 2) = [192, 0, 2, 2]"
  "ipv6_from_segments [0x64, 0xff9b, 0, 0, 0, 0, 0xc000, 0x0201]
     = ipv6_from_octets [0, 0x64, 0xff, 0x9b, 0, 0, 0, 0, 0, 0, 0, 0, 192, 0, 2, 1]"
  "ipv6_from_segments [0x64, 0xff9b, 0, 0, 0xc000, 0x0201, 0, 0]
     = ipv6_from_octets [0, 0x64, 0xff, 0x9b, 0, 0, 0, 0, 192, 0, 2, 1, 0, 0, 0, 0]"
  by code_simp+

lemmas run_synthesis = test_prefixes test_octets synthesize_aaaa_def synthesize_one_def ipv6_octets_from_octets

lemma parse_prefix_tests_pass: "parse_prefix_basic" "parse_invalid_prefix"
  by code_simp+

lemma synthesis_tests_pass:
  "synthesize_prefix_96 m" "synthesize_prefix_64 m" "synthesize_multiple_a m" "synthesize_unsupported_prefix_len m"
  by (simp_all add: synthesize_prefix_96_def synthesize_prefix_64_def synthesize_multiple_a_def
      synthesize_unsupported_prefix_len_def run_synthesis)

text \<open>The tests on the counter of synthesised records pass exactly when no other test adds to it.\<close>

lemma synth_test_passes_iff:
  assumes "metrics_populated m"
  shows "synth_bumps_dns64_synthesized_total others m \<longleftrightarrow> others = 0"
proof -
  have "metrics_populated (metrics_increment m Dns64SynthesizedTotal 2)" using assms by (rule registry.invar_incr)
  then show ?thesis
    using assms by (simp add: synth_bumps_dns64_synthesized_total_def run_synthesis registry.read_incr)
qed

lemma synth_unsupported_test_passes_iff:
  "metrics_populated m \<Longrightarrow> synth_unsupported_prefix_does_not_bump_metric others m \<longleftrightarrow> others = 0"
  by (simp add: synth_unsupported_prefix_does_not_bump_metric_def run_synthesis registry.read_incr)

subsection \<open>Extended errors and client subnets\<close>

definition eden_encode_info_stale_answer :: bool where
  "eden_encode_info_stale_answer =
     (let buf = encode_info STALE_ANSWER ''stale because upstream timeout''
      in take 2 buf = u16_to_be_bytes 3 \<and> from_utf8 (drop 2 buf) = Some ''stale because upstream timeout'')"

definition eden_encode_info_cached_error :: bool where
  "eden_encode_info_cached_error =
     (let buf = encode_info CACHED_ERROR [] in take 2 buf = u16_to_be_bytes 13 \<and> drop 2 buf = [])"

definition eden_encode_info_roundtrip :: bool where
  "eden_encode_info_roundtrip =
     (let msg = ''test extra text''; buf = encode_info 42 msg
      in u16_from_be_bytes (buf ! 0) (buf ! 1) = 42 \<and> from_utf8 (drop 2 buf) = Some msg)"

definition scope_zero_test :: "u8 \<Rightarrow> string \<Rightarrow> bool" where
  "scope_zero_test len expected =
     (case parse_ip ''192.0.2.123'' of
        None \<Rightarrow> False
      | Some addr \<Rightarrow> (let (zeroed, prefix) = scope_zero_subnet addr len in show_ip zeroed = expected \<and> prefix = len))"

definition scope_zero_ipv4_24 :: bool where
  "scope_zero_ipv4_24 = scope_zero_test 24 ''192.0.2.0''"

definition scope_zero_ipv4_0 :: bool where
  "scope_zero_ipv4_0 = scope_zero_test 0 ''0.0.0.0''"

definition scope_zero_ipv4_32 :: bool where
  "scope_zero_ipv4_32 = scope_zero_test 32 ''192.0.2.123''"

lemma forward_tests_pass:
  "eden_encode_info_stale_answer" "eden_encode_info_cached_error" "eden_encode_info_roundtrip"
  "scope_zero_ipv4_24" "scope_zero_ipv4_0" "scope_zero_ipv4_32"
  by code_simp+

end
