(* ===== verification/Bench.thy ===== *)
theory Bench
  imports TestsCache Proxy
begin

text \<open>
  The benchmarks, \<open>src/benches/cache_bench.rs\<close>. They time stand-ins for the cache and for the
  PROXY parser, which are modelled here together with what each benchmark runs in one
  iteration; criterion, which repeats and times the iterations, is not. The lemmas compare the
  stand-ins with the modelled code that they are said to mirror.
\<close>

subsection \<open>The stand-in for the cache\<close>

record bench_key =
  bk_qname :: string
  bk_qtype :: u16

record bench_entry =
  be_response_bytes :: bytes

record bench_cache =
  bc_entries :: "bench_key \<rightharpoonup> bench_entry"

definition bench_lookup :: "bench_cache \<Rightarrow> bench_key \<Rightarrow> bench_entry option" where
  "bench_lookup c key = bc_entries c key"

definition bench_insert :: "bench_key \<Rightarrow> bytes \<Rightarrow> bench_cache \<Rightarrow> bench_cache" where
  "bench_insert key bs c = c\<lparr>bc_entries := (bc_entries c)(key \<mapsto> \<lparr>be_response_bytes = bs\<rparr>)\<rparr>"

subsection \<open>The stand-ins for the parser\<close>

text \<open>Indexing out of range is a panic, the outer \<open>None\<close>.\<close>

definition mock_parse_proxy_v1 :: "bytes \<Rightarrow> bytes option option" where
  "mock_parse_proxy_v1 header =
     (if \<not> bytes_start_with (str_to_bytes ''PROXY TCP4 '') header then Some None
      else let rest = drop 11 header
        in if 32 \<notin> set rest then Some None
           else if length rest < 4 then None
           else Some (Some [rest ! 0, rest ! 1, rest ! 2, rest ! 3]))"

definition mock_parse_proxy_v2 :: "bytes \<Rightarrow> bool" where
  "mock_parse_proxy_v2 header = bytes_start_with V2_SIGNATURE header"

subsection \<open>The benchmarks: the value of one iteration\<close>

definition bench_cache_lookup_hit :: "bench_entry option" where
  "bench_cache_lookup_hit =
     (let key = \<lparr>bk_qname = ''example.com.'', bk_qtype = 1\<rparr>;
          cache = \<lparr>bc_entries = [key \<mapsto> \<lparr>be_response_bytes = replicate 256 0\<rparr>]\<rparr>
      in bench_lookup cache key)"

definition bench_cache_lookup_miss :: "bench_entry option" where
  "bench_cache_lookup_miss =
     bench_lookup \<lparr>bc_entries = Map.empty\<rparr> \<lparr>bk_qname = ''miss.example.com.'', bk_qtype = 1\<rparr>"

definition bench_insert_key :: "u32 \<Rightarrow> bench_key" where
  "bench_insert_key i = \<lparr>bk_qname = ''bench'' @ show_nat (unat i) @ ''.example.com.'', bk_qtype = 1\<rparr>"

definition bench_cache_insert :: "u32 \<times> bench_cache \<Rightarrow> u32 \<times> bench_cache" where
  "bench_cache_insert = (\<lambda>(i, cache). (i + 1, bench_insert (bench_insert_key i) (replicate 256 0) cache))"

definition bench_proxy_v1_tcp4 :: "bytes option option" where
  "bench_proxy_v1_tcp4 =
     mock_parse_proxy_v1 (str_to_bytes (''PROXY TCP4 192.168.1.100 10.0.0.1 12345 53'' @ [char_of (13 :: nat), newline]))"

definition bench_proxy_v2_tcp4 :: bool where
  "bench_proxy_v2_tcp4 =
     mock_parse_proxy_v2 (V2_SIGNATURE @ [0x20, 0x10] @ u16_to_be_bytes 12 @ [10, 0, 0, 1] @ [192, 168, 1, 1]
       @ u16_to_be_bytes 443 @ u16_to_be_bytes 80)"

definition bench_cache_large_value :: "bench_entry option" where
  "bench_cache_large_value =
     (let key = \<lparr>bk_qname = ''large.example.com.'', bk_qtype = 28\<rparr>;
          cache = \<lparr>bc_entries = [key \<mapsto> \<lparr>be_response_bytes = replicate 4096 0\<rparr>]\<rparr>
      in bench_lookup cache key)"

subsection \<open>The stand-in and the cache\<close>

text \<open>A key of the stand-in as a key of the cache, and a sequence of insertions into both.\<close>

definition cache_key_of_bench :: "bench_key \<Rightarrow> cache_key" where
  "cache_key_of_bench k = \<lparr>key_qname = bk_qname k, key_qtype = bk_qtype k, key_client_subnet = None\<rparr>"

lemma cache_key_of_bench_inject: "cache_key_of_bench k = cache_key_of_bench k' \<longleftrightarrow> k = k'"
  by (cases k; cases k') (simp add: cache_key_of_bench_def)

fun bench_inserts :: "(bench_key \<times> bytes) list \<Rightarrow> bench_cache \<Rightarrow> bench_cache" where
  "bench_inserts [] b = b"
| "bench_inserts ((k, bs) # xs) b = bench_inserts xs (bench_insert k bs b)"

fun cache_inserts :: "nat \<Rightarrow> nat \<Rightarrow> (bench_key \<times> bytes) list \<Rightarrow> cache \<Rightarrow> cache option" where
  "cache_inserts ttl now [] c = Some c"
| "cache_inserts ttl now ((k, bs) # xs) c =
     Option.bind (cache_insert c (cache_key_of_bench k) bs ttl now) (cache_inserts ttl now xs)"

definition mirrors :: "bench_cache \<Rightarrow> cache \<Rightarrow> bool" where
  "mirrors b c \<longleftrightarrow> (\<forall>k. map_option be_response_bytes (bench_lookup b k)
     = map_option response_bytes (map_of (entries c) (cache_key_of_bench k)))"

lemma mirrors_insert:
  assumes "mirrors b c" "length (entries c) < cache_size (cache_cfg c)"
  shows "\<exists>c'. cache_insert c (cache_key_of_bench k) bs ttl now = Some c' \<and> mirrors (bench_insert k bs b) c'
    \<and> cache_cfg c' = cache_cfg c \<and> length (entries c') \<le> Suc (length (entries c))"
proof -
  let ?c' = "put_entry c (cache_key_of_bench k) (new_entry bs ttl now)"
  have "mirrors (bench_insert k bs b) ?c'"
    using assms(1) by (auto simp: mirrors_def bench_lookup_def bench_insert_def put_entry_def update_conv'
        new_entry_def Let_def cache_key_of_bench_inject)
  then show ?thesis using assms(2) put_entry_length by (simp add: cache_insert_room)
qed

text \<open>Up to the configured size, the stand-in returns what the cache returns.\<close>

lemma bench_mirrors_cache:
  "mirrors b c \<Longrightarrow> length (entries c) + length xs \<le> cache_size (cache_cfg c) \<Longrightarrow>
    \<exists>c'. cache_inserts ttl now xs c = Some c' \<and> mirrors (bench_inserts xs b) c'"
proof (induction xs arbitrary: b c)
  case (Cons x xs)
  obtain k bs where x: "x = (k, bs)" by (cases x)
  obtain c1 where c1: "cache_insert c (cache_key_of_bench k) bs ttl now = Some c1" "mirrors (bench_insert k bs b) c1"
    "cache_cfg c1 = cache_cfg c" "length (entries c1) \<le> Suc (length (entries c))"
    using mirrors_insert [OF Cons.prems(1), of k bs ttl now] Cons.prems(2) by auto
  with Cons.IH [OF c1(2)] Cons.prems(2) x show ?case by simp
qed simp

lemma bench_new_mirrors: "mirrors \<lparr>bc_entries = Map.empty\<rparr> (cache_new cfg)"
  by (simp add: mirrors_def bench_lookup_def cache_new_def)

text \<open>
  Beyond it they part: the stand-in keeps every key, the cache at most its size, so the
  benchmark of insertions never evicts anything.
\<close>

lemma bench_inserts_dom: "dom (bc_entries (bench_inserts xs b)) = dom (bc_entries b) \<union> fst ` set xs"
  by (induction xs b rule: bench_inserts.induct) (auto simp: bench_insert_def)

lemma cache_inserts_reachable:
  "cache_reachable cfg c \<Longrightarrow> cache_inserts ttl now xs c = Some c' \<Longrightarrow> cache_reachable cfg c'"
proof (induction xs arbitrary: c)
  case (Cons x xs)
  obtain k bs where x: "x = (k, bs)" by (cases x)
  with Cons.prems obtain c1 where c1: "cache_insert c (cache_key_of_bench k) bs ttl now = Some c1"
    "cache_inserts ttl now xs c1 = Some c'" by (auto simp: bind_eq_Some_conv)
  from Cons.IH [OF reach_step [OF Cons.prems(1) step_insert [OF c1(1)]] c1(2)] show ?case .
qed simp

lemma bench_outgrows_cache:
  assumes "distinct (map fst xs)" "cache_size cfg < length xs"
    and "cache_inserts ttl now xs (cache_new cfg) = Some c"
  shows "\<exists>k \<in> fst ` set xs. bench_lookup (bench_inserts xs \<lparr>bc_entries = Map.empty\<rparr>) k \<noteq> None
    \<and> map_of (entries c) (cache_key_of_bench k) = None"
proof (rule ccontr)
  have dom: "dom (bc_entries (bench_inserts xs \<lparr>bc_entries = Map.empty\<rparr>)) = fst ` set xs"
    by (simp add: bench_inserts_dom)
  assume "\<not> ?thesis"
  then have "cache_key_of_bench ` fst ` set xs \<subseteq> fst ` set (entries c)"
    using dom by (force simp: bench_lookup_def map_of_eq_None_iff)
  then have "card (cache_key_of_bench ` fst ` set xs) \<le> card (fst ` set (entries c))"
    by (intro card_mono) simp_all
  also have "card (cache_key_of_bench ` fst ` set xs) = length xs"
    using assms(1) distinct_card [of "map fst xs"]
    by (simp add: card_image inj_on_def cache_key_of_bench_inject)
  also have "card (fst ` set (entries c)) \<le> length (entries c)"
    using card_length [of "map fst (entries c)"] by simp
  also have "length (entries c) \<le> cache_size cfg"
    using cache_reachable_inv [OF cache_inserts_reachable [OF reach_new assms(3)]] by (auto simp: cache_inv_def)
  finally show False using assms(2) by simp
qed

text \<open>The keys of the insertion benchmark are distinct until its counter wraps around.\<close>

lemma bench_insert_key_inject: "bench_insert_key i = bench_insert_key j \<longleftrightarrow> i = j"
proof
  assume "bench_insert_key i = bench_insert_key j"
  then have "show_nat (unat i) = show_nat (unat j)" by (simp add: bench_insert_key_def)
  then have "parse_uint (2 ^ 32) (show_nat (unat i)) = parse_uint (2 ^ 32) (show_nat (unat j))" by simp
  moreover have "unat i \<le> 2 ^ 32" "unat j \<le> 2 ^ 32"
    using unsigned_less [of i, where 'a = nat] unsigned_less [of j, where 'a = nat] by simp_all
  ultimately have "unat i = unat j" by (simp add: parse_uint_show)
  then show "i = j" by (rule unsigned_word_eqI)
qed simp

subsection \<open>The stand-in and the parser\<close>

text \<open>
  The benchmark of version 1 gets the first four characters of the written address, not the
  address that the parser reads; and the stand-in panics on a header that the parser refuses.
\<close>

lemma bench_proxy_v1_reads_characters: "bench_proxy_v1_tcp4 = Some (Some (str_to_bytes ''192.''))"
  by code_simp

lemma mock_proxy_v1_panics:
  "mock_parse_proxy_v1 (str_to_bytes ''PROXY TCP4 1 '') = None \<and> \<not> is_ok (parse_proxy_header (str_to_bytes ''PROXY TCP4 1 ''))"
  by code_simp

lemma bench_proxy_v2_hits: "bench_proxy_v2_tcp4"
  by code_simp

lemma bench_lookups:
  "bench_cache_lookup_hit = Some \<lparr>be_response_bytes = replicate 256 0\<rparr>" "bench_cache_lookup_miss = None"
  "bench_cache_large_value = Some \<lparr>be_response_bytes = replicate 4096 0\<rparr>"
  by (simp_all add: bench_cache_lookup_hit_def bench_cache_lookup_miss_def bench_cache_large_value_def bench_lookup_def)

end
