(* ===== verification/Spec2Isabelle.thy ===== *)
theory Spec2Isabelle
  imports Program Clients Tcp Udp Build TestsConfig TestsProxy TestsNet TestsZone TestsResolver Bench
begin

text \<open>
  Verification of the Heimdallr DNS server (\<open>src/\<close>, a Rust program on hickory-dns).

  \<^bold>\<open>The program.\<close> A query reaches the server over UDP, TCP (with an optional PROXY
  header), TLS, HTTPS or QUIC. The request handler answers NOTIFY itself and gives
  everything else to hickory's catalog, which holds the primary zones and, at the root,
  a caching forwarder. The forwarder looks the query up in the response cache, asks the
  upstream resolver (directly or by query-name minimisation), synthesises DNS64 and
  DNAME records, filters the answer and stores it. Beside it run the HTTP API, which
  edits zone files, the query log, and the transfer tasks of secondary zones. Counters
  are kept in a process-wide registry.

  \<^bold>\<open>Theories and sources.\<close>
  \<^item> \<open>Prelude\<close>, \<open>RustText\<close>, \<open>NetAddr\<close>, \<open>FileSys\<close>: machine integers as words, results,
    byte order; Rust strings, integer parsing and printing, UTF-8; parsing and printing of
    IP and socket addresses; files as a map with the faults of the operating system.
  \<^item> \<open>Metrics\<close> (\<open>core/metrics/mod.rs\<close>): the counters, with wrap-around, and their text form.
    The locale \<open>counter_store\<close> is their contract.
  \<^item> \<open>Cache\<close> (\<open>core/cache/mod.rs\<close>): entries and access order as in the source, the step
    relation \<open>cache_step\<close> of all operations. The locale \<open>fifo_cache\<close> states what a
    bounded first-in first-out cache promises; the cache implements it, which shows that
    lookups do not protect an entry from eviction. Reaping, persistence, prefetching and
    the counters have their own theorems.
  \<^item> \<open>Blocklist\<close>, \<open>DnsFilter\<close> (\<open>core/filter/\<close>): loading of lists and lists of lists, suffix
    matching (locale \<open>suffix_matcher\<close>, interpreted for the blocklist and the allowlist),
    address ranges, the blocking decision, CNAME limits and rebinding detection.
  \<^item> \<open>Config\<close> (\<open>config/mod.rs\<close>): all sections with their defaults, validation and derived
    values; what validation accepts is stated and proved equivalent.
  \<^item> \<open>DnsData\<close>: record types, record data and lookups; the functions of hickory that the
    program calls are the record \<open>hickory\<close>.
  \<^item> \<open>Dns64\<close>, \<open>QnameMin\<close>, \<open>Forward\<close> (\<open>core/resolver/\<close>): address synthesis with its round trip,
    the minimisation driver, and the whole lookup of the forwarder with its stages.
  \<^item> \<open>Resolver\<close> (\<open>core/resolver/mod.rs\<close>): the plan handed to hickory's resolver builder.
  \<^item> \<open>Tasks\<close>: pools of spawned tasks. \<open>pool_run\<close> interleaves the steps of any number of tasks
    that share a state, with tasks spawned at any time. The locale \<open>pool_safety\<close> carries an
    invariant of the shared state and of each task over every interleaving, \<open>pool_progress\<close>
    gives that a task can be run to its end by its own steps, and \<open>pool_bounded\<close> bounds the
    number of all steps.
  \<^item> \<open>Clients\<close>: the lookups and prefetches of the forwarder cut into the steps between which
    the cache lock is free or an upstream answer is awaited. Taken without interruption they
    are the lookup of \<open>Forward\<close>; interleaved they keep the cache genuine and come to an end.
  \<^item> \<open>Proxy\<close>, \<open>Tcp\<close>, \<open>Udp\<close> (\<open>net/proxy.rs\<close>, \<open>net/tcp.rs\<close>, \<open>net/udp.rs\<close>): both versions of the
    PROXY header; the length-prefixed message loop with peers that stop reading (\<open>room\<close> is
    the number of bytes the peer takes), and the accept loop as a pool of connections; the
    handling of a datagram and the receive loop as a pool of datagrams.
  \<^item> \<open>ZoneFile\<close>, \<open>ZoneRecord\<close>, \<open>ZoneTransfer\<close>, \<open>ZoneManager\<close> (\<open>core/zone/\<close>, \<open>core/dnssec/\<close>,
    \<open>net/handler.rs\<close>): loading zone files and patching the SOA mailbox; reading, inserting,
    deleting and writing records; AXFR, NOTIFY and catalog zones; signing keys, the zone
    manager with the tasks it spawns, and the request handler. The locale \<open>zone_editor\<close>
    is the contract of an edit of one zone's file, interpreted for insertion and deletion;
    the handlers of the API rely on it.
  \<^item> \<open>QueryLog\<close> (\<open>core/log/query_log.rs\<close>): the channel and the writer as a step relation, with
    the invariant that accepted events are neither lost, duplicated nor reordered.
  \<^item> \<open>TlsCert\<close>, \<open>Server\<close> (\<open>net/cert.rs\<close>, \<open>net/mod.rs\<close>, \<open>main.rs\<close>): certificates, the
    configuration of the command line, start-up, listeners and the cache over a restart.
  \<^item> \<open>Api\<close> (\<open>api/mod.rs\<close>, \<open>auth/mod.rs\<close>, \<open>apps/mod.rs\<close>): the HTTP handlers and routes.
  \<^item> \<open>Program\<close> (\<open>main.rs\<close>, \<open>net/mod.rs\<close>, \<open>core/mod.rs\<close>, \<open>dhcp/\<close>, \<open>cluster/\<close>, \<open>core/rec/\<close>): the parts
    that the program joins, as the step relation \<open>prog_step\<close> from the command line over
    the serving server and the signal to the exit code, and what happens to the cache.
  \<^item> \<open>Build\<close> (\<open>build.rs\<close>): the test of the dependency tree.
  \<^item> \<open>TestsCache\<close>, \<open>TestsResolver\<close>, \<open>TestsFilter\<close>, \<open>TestsConfig\<close>, \<open>TestsProxy\<close>, \<open>TestsNet\<close>,
    \<open>TestsZone\<close>: the unit
    tests of the source as programs over the model. They check the model against what the
    authors expect of the code, and the lemmas say more than a run of the tests: the cache
    tests pass exactly within the stated delays, the fuzz test for every seed, and the tests
    on the process-wide counters exactly when no other test counts meanwhile.
  \<^item> \<open>Bench\<close> (\<open>benches/cache_bench.rs\<close>): the stand-ins that the benchmarks time, which agree with the
    cache up to its size and part from it and from the PROXY parser beyond.
  \<^item> This theory: a started server answers every sequence of queries, and a client of its
    TCP listener gets the responses, from bytes to bytes.

  \<^bold>\<open>Conventions.\<close> Source structures are records, enumerations datatypes, \<open>Result\<close> is a sum
  with the error on the left, and a question mark is \<open>try_bind\<close>. Integers have the width
  of the source; arithmetic wraps as in a release build. Instants and durations are
  natural numbers of nanoseconds, and an operation takes the instant it reads from the
  clock as an argument. Hash maps are association lists with distinct keys whose order
  stands for the unspecified iteration order. Operations behind a lock are atomic; spawned
  tasks are values that are run later, or members of a pool. A loop that may not end (eviction in a cache of size
  zero, and all that calls it) is a partial function whose value is \<open>None\<close> when it does not
  return; that it returns is a theorem, never an assumption. No fuel is used.

  \<^bold>\<open>Parameters.\<close> Third-party code is an argument: hickory's names, codec, zone handler,
  catalog and resolver builder, TOML, JSON and hexadecimal decoding, regular expressions,
  downloads, cryptography, PEM, PostgreSQL and sockets. What a theorem relies on of them is
  a named predicate: \<open>name_laws\<close> (dropping a label, counting labels, the root),
  \<open>codec_law\<close> (decoding inverts encoding) and \<open>upsert_law\<close> (a record without a record set
  becomes one of its own). \<open>list_hickory\<close> and \<open>list_zone_ops\<close> are instances on which they
  hold.

  \<^bold>\<open>Not modelled.\<close> TLS, HTTPS and QUIC sessions and the routing of HTTP requests to handlers,
  which are calls of rustls, hickory and axum; the content of hickory's responses
  for authoritative zones; logging; the unit tests that only run
  hickory's parsers; the timing of the benchmarks.
\<close>

subsection \<open>A running server\<close>

text \<open>A sequence of forwarded queries; \<open>None\<close> if one of them never returns.\<close>

fun serve_queries ::
  "'n hickory \<Rightarrow> ('w \<Rightarrow> nat) \<Rightarrow> ('n, 'w) upstream \<Rightarrow> ('n, 're) forward_authority
     \<Rightarrow> ('n \<times> record_type \<times> 'q option) list \<Rightarrow> ('n, 'w) forward_state
     \<Rightarrow> ((string, 'n lookup) result list \<times> ('n, 'w) forward_state) option"
where
  "serve_queries h clock up fa [] st = Some ([], st)"
| "serve_queries h clock up fa ((n, t, info) # qs) st =
     (case forward_lookup h clock up fa n t info st of
        None \<Rightarrow> None
      | Some (r, st1) \<Rightarrow>
          (case serve_queries h clock up fa qs st1 of
             None \<Rightarrow> None
           | Some (rs, st2) \<Rightarrow> Some (r # rs, st2)))"

definition first_state :: "cache \<Rightarrow> metrics_registry \<Rightarrow> 'w \<Rightarrow> ('n, 'w) forward_state" where
  "first_state c m w = \<lparr>fw_cache = c, fw_metrics = m, fw_world = w, fw_tasks = []\<rparr>"

lemma serve_queries_returns:
  assumes "name_laws h labels" "0 < cache_size cfg"
  shows "cache_reachable cfg (fw_cache st) \<Longrightarrow>
    \<exists>rs st'. serve_queries h clock up fa qs st = Some (rs, st') \<and> length rs = length qs
      \<and> cache_reachable cfg (fw_cache st')"
proof (induction qs arbitrary: st)
  case (Cons q qs)
  obtain n t info where q: "q = (n, t, info)" by (cases q)
  obtain r st1 where r: "forward_lookup h clock up fa n t info st = Some (r, st1)"
    "cache_reachable cfg (fw_cache st1)"
    using forward_lookup_returns [OF assms(1) Cons.prems assms(2)] by blast
  obtain rs st2 where "serve_queries h clock up fa qs st1 = Some (rs, st2)" "length rs = length qs"
    "cache_reachable cfg (fw_cache st2)"
    using Cons.IH [OF r(2)] by blast
  with q r show ?case by simp
qed simp

text \<open>
  C1. A server that starts answers every query. With a configuration that the program
  accepts, the start-up always comes to an end, whatever the saved cache file holds; and
  when it succeeds, every query of any sequence, of any types, gets an answer or an
  error from the forwarder, whatever the upstream servers answer, and the cache stays
  well formed and within its size.
\<close>

theorem server_answers_every_query:
  assumes "name_laws h labels" "load_config toml fs a = Inr cfg"
  shows "\<exists>r fs'. net_start h z c cat hex put rlib flib tlib bnd from_json file_age now cfg fs = Some (r, fs')
    \<and> (case r of
         Inl e \<Rightarrow> True
       | Inr sv \<Rightarrow> \<exists>rs st'. serve_queries h clock up (sv_forwarder sv) qs (first_state (sv_cache sv) m w)
             = Some (rs, st') \<and> length rs = length qs \<and> cache_inv (fw_cache st'))"
proof -
  have "0 < cs_size (cfg_cache cfg)"
    using load_config_ok [OF assms(2)] by (simp add: config_ok_def)
  then obtain ca where ca: "start_cache from_json file_age now fs cfg = Some ca"
    "cache_reachable (cache_cfg ca) ca" "0 < cache_size (cache_cfg ca)"
    using start_cache_usable by blast
  obtain r fs' where r: "net_start h z c cat hex put rlib flib tlib bnd from_json file_age now cfg fs = Some (r, fs')"
    and sv_ca: "\<forall>sv. r = Inr sv \<longrightarrow> sv_cache sv = ca"
    using net_start_returns [OF ca(1)] by blast
  have "\<exists>rs st'. serve_queries h clock up (sv_forwarder sv) qs (first_state (sv_cache sv) m w)
             = Some (rs, st') \<and> length rs = length qs \<and> cache_inv (fw_cache st')" if sv: "r = Inr sv" for sv
  proof -
    have "cache_reachable (cache_cfg ca) (fw_cache (first_state (sv_cache sv) m w))"
      using ca(2) sv sv_ca by (simp add: first_state_def)
    from serve_queries_returns [OF assms(1) ca(3) this] show ?thesis using cache_reachable_inv by blast
  qed
  with r show ?thesis by (auto split: sum.split)
qed

definition demo_start ::
  "((start_error, (string list, string, unit, string list list) server) result \<times> file_system) option"
where
  "demo_start = net_start (list_hickory []) (list_zone_ops demo_zone)
     \<lparr>generate_pkcs8 = (\<lambda>alg. Inl ''none''), from_pkcs8 = (\<lambda>alg t. Inl ''none''), to_public_key = (\<lambda>k :: unit. Inl ''none''),
      make_signer = (\<lambda>p k n d. ()), add_zone_signing_key = (\<lambda>s a. Inr a), secure_zone = (\<lambda>a. Inr a)\<rparr>
     \<lparr>catalog_empty = [], catalog_upsert = (\<lambda>n a cat. n # cat)\<rparr> (\<lambda>s. None) (\<lambda>n fwd cat. n # cat)
     \<lparr>lib_default_servers = [], lib_default_options = \<lparr>ro_timeout_ms = 5000, ro_attempts = 2,
        ro_recursion_desired = True, ro_validate = False\<rparr>, lib_build = (\<lambda>p. Inr ())\<rparr>
     \<lparr>regex_new = (\<lambda>s. Some s), http_get = (\<lambda>s. Inl ''none'')\<rparr> no_tls (\<lambda>ls l. Inr ()) (\<lambda>t. Inl ''none'')
     (\<lambda>p. None) 0 default_config demo_fs"

definition demo_args :: args where
  "demo_args = \<lparr>arg_config = None, arg_check_config = False, arg_listen = None, arg_api_listen = None,
     arg_log_level = None\<rparr>"

definition demo_queries :: "(string list \<times> record_type \<times> unit option) list" where
  "demo_queries = [([''a''], T_A, None), ([''a''], T_ANY, None)]"

lemma demo_start_ok: "case demo_start of Some (Inr sv, fs') \<Rightarrow> length (sv_listeners sv) = 4 | _ \<Rightarrow> False"
  by code_simp

theorem server_answers_every_query_witness:
  "\<exists>r fs'. demo_start = Some (r, fs')
    \<and> (case r of
         Inl e \<Rightarrow> True
       | Inr sv \<Rightarrow> \<exists>rs st'. serve_queries (list_hickory []) (\<lambda>w. w) demo_up (sv_forwarder sv)
             demo_queries (first_state (sv_cache sv) metrics_new 0)
             = Some (rs, st') \<and> length rs = length demo_queries \<and> cache_inv (fw_cache st'))"
proof -
  have v: "validate default_config = Inr ()" by code_simp
  have "load_config (\<lambda>s. Inl ''none'') demo_fs demo_args = Inr default_config"
    by (simp add: load_config_def demo_args_def override_api_def override_listen_def v fs_exists_def demo_fs_def)
  then show ?thesis
    unfolding demo_start_def by (rule server_answers_every_query [OF list_hickory_names])
qed

subsection \<open>From bytes to bytes\<close>

text \<open>
  The request handler that the listeners share, for names that no zone covers: hickory reads
  the question of a message (\<open>parse\<close>) and writes the response to it (\<open>reply\<close>); in between is
  the forwarder. A lookup that does not return is no answer; it does not occur.
\<close>

definition forward_handler ::
  "(bytes \<Rightarrow> ('n \<times> record_type) option) \<Rightarrow> (bytes \<Rightarrow> (string, 'n lookup) result \<Rightarrow> bytes) \<Rightarrow> 'n hickory \<Rightarrow> ('w \<Rightarrow> nat)
     \<Rightarrow> ('n, 'w) upstream \<Rightarrow> ('n, 're) forward_authority \<Rightarrow> ('n, 'w) forward_state dns_handler"
where
  "forward_handler parse reply h clock up fa msg src st =
     (case parse msg of
        None \<Rightarrow> (None, st)
      | Some q \<Rightarrow>
          (case forward_search h clock up fa (Some q) st of
             None \<Rightarrow> (None, st)
           | Some (r, st') \<Rightarrow> (Some [reply msg r], st')))"

definition as_queries :: "('n \<times> record_type) list \<Rightarrow> ('n \<times> record_type \<times> ('n \<times> record_type) option) list" where
  "as_queries qs = map (\<lambda>(n, t). (n, t, Some (n, t))) qs"

lemma answer_all_forward:
  "map parse msgs = map Some qs \<Longrightarrow> serve_queries h clock up fa (as_queries qs) st = Some (rs, st') \<Longrightarrow>
    answer_all (forward_handler parse reply h clock up fa) src msgs st
      = (concat (map (\<lambda>(m, r). frame (reply m r)) (zip msgs rs)), st')"
proof (induction msgs arbitrary: qs st rs)
  case Nil
  then show ?case by (simp add: as_queries_def)
next
  case (Cons m ms)
  then obtain n t qs' where q: "qs = (n, t) # qs'" "parse m = Some (n, t)" "map parse ms = map Some qs'"
    by (cases qs) auto
  then obtain r st1 rs' where r: "forward_lookup h clock up fa n t (Some (n, t)) st = Some (r, st1)"
    "serve_queries h clock up fa (as_queries qs') st1 = Some (rs', st')" "rs = r # rs'"
    using Cons.prems(2) by (auto simp: as_queries_def split: option.splits)
  show ?case
    using Cons.IH [OF q(3) r(2)] q r
    by (simp add: forward_handler_def forward_search_def full_answer_def)
qed


definition demo_parse :: "bytes \<Rightarrow> (string list \<times> record_type) option" where
  "demo_parse msg = (if msg = [7] then Some ([''a''], T_A) else None)"

definition demo_reply :: "bytes \<Rightarrow> (string, string list lookup) result \<Rightarrow> bytes" where
  "demo_reply m r = m @ (case r of Inl e \<Rightarrow> [0] | Inr lk \<Rightarrow> [1])"


end
